theory Spec2Isabelle
  imports Main
begin

section \<open>The IR object model, as the sparse analysis sees it\<close>

text \<open>
  The sparse data-flow drivers of \<^verbatim>\<open>SparseAnalysis.cpp\<close> walk an IR they do not own.
  Operations, blocks and regions are pointers there and natural numbers here: the only
  thing the drivers do with them is compare them and pass them to accessors.  A null
  block pointer is a key like any other (the drivers only use \<^verbatim>\<open>op->getBlock()\<close> to look
  an executable state up).
\<close>

type_synonym Operation = nat
type_synonym Block = nat
type_synonym Region = nat
type_synonym DataFlowAnalysis = nat

text \<open>A value is a numbered result of an operation or a numbered argument of a block.\<close>

datatype Value = OpResult Operation nat | BlockArgument Block nat

datatype ProgramPoint =
    PointOperation Operation
  | PointBlock Block
  | PointValue Value
  | PointCFGEdge Block Block

text \<open>An operand range is a view into the operand list of one operation.\<close>

record OperandRange =
  getBeginOperandIndex :: nat
  rangeSize :: nat

record SuccessorOperands =
  getProducedOperandCount :: nat
  getForwardedOperands :: OperandRange

record RegionSuccessor =
  getSuccessor :: "Region option"
  getSuccessorInputs :: "Value list"

text \<open>The predecessor state of the dead-code analysis: read-only for the drivers.\<close>

record PredecessorState =
  allPredecessorsKnown :: bool
  getKnownPredecessors :: "Operation list"
  getPredecessorInputs :: "Operation \<Rightarrow> Value list"

datatype LogicalResult = success | failure

text \<open>
  The one way a visit fails: a check does not hold.  The drivers make two checks with
  \<^verbatim>\<open>assert\<close>, which a build with \<^verbatim>\<open>NDEBUG\<close> leaves out; there the visit goes on.  The
  other checks are made inside \<^verbatim>\<open>cast\<close> and inside the array views, and what follows a
  failed one is undefined in a build that leaves it out: the visit stops there in every
  build.
\<close>

datatype Error = AssertionFailed

definition bindE :: "Error + 'a \<Rightarrow> ('a \<Rightarrow> Error + 'b) \<Rightarrow> Error + 'b" where
  "bindE m f = (case m of Inl e \<Rightarrow> Inl e | Inr x \<Rightarrow> f x)"

text \<open>
  The accessors of the IR, the interfaces an operation may implement
  (\<^verbatim>\<open>dyn_cast<...Interface>(op)\<close> succeeds where the flag holds) and the states of the
  dead-code analysis.  They are declared elsewhere in the repository; the drivers take
  them as given, and so does this record.  An operation may implement several
  interfaces at once: the drivers test them in a fixed order.  The last field is the
  build: whether \<^verbatim>\<open>assert\<close> is compiled in (\<^verbatim>\<open>NDEBUG\<close> is not defined).
\<close>

record Env =
  getNumResults :: "Operation \<Rightarrow> nat"
  getOperands :: "Operation \<Rightarrow> Value list"
  getBlock :: "Operation \<Rightarrow> Block"
  getParentOp :: "Operation \<Rightarrow> Operation option"
  getSuccessors :: "Operation \<Rightarrow> Block list"
  hasTraitReturnLike :: "Operation \<Rightarrow> bool"
  getUsers :: "Value \<Rightarrow> Operation list"
  getNumArguments :: "Block \<Rightarrow> nat"
  isEntryBlock :: "Block \<Rightarrow> bool"
  getBlockParentOp :: "Block \<Rightarrow> Operation option"
  getParent :: "Block \<Rightarrow> Region"
  getBlockPredecessors :: "Block \<Rightarrow> (Block \<times> nat) list"
  getTerminator :: "Block \<Rightarrow> Operation"
  getBlocks :: "Region \<Rightarrow> Block list"
  getRegionNumber :: "Region \<Rightarrow> nat"
  isRegionBranchOp :: "Operation \<Rightarrow> bool"
  isCallOp :: "Operation \<Rightarrow> bool"
  isBranchOp :: "Operation \<Rightarrow> bool"
  isCallableOp :: "Operation \<Rightarrow> bool"
  isRegionBranchTerminatorOp :: "Operation \<Rightarrow> bool"
  getCallableRegion :: "Operation \<Rightarrow> Region option"
  resolveCallable :: "Operation \<Rightarrow> Operation option"
  getArgOperands :: "Operation \<Rightarrow> Value list"
  getSuccessorOperands :: "Operation \<Rightarrow> nat \<Rightarrow> SuccessorOperands"
  getBranchSuccessorArgument :: "SuccessorOperands \<Rightarrow> nat \<Rightarrow> Block \<Rightarrow> Value option"
  getEntrySuccessorOperands :: "Operation \<Rightarrow> nat option \<Rightarrow> OperandRange"
  getEntrySuccessorRegions :: "Operation \<Rightarrow> RegionSuccessor list"
  getTerminatorSuccessorOperands :: "Operation \<Rightarrow> nat option \<Rightarrow> OperandRange"
  getTerminatorSuccessorRegions :: "Operation \<Rightarrow> RegionSuccessor list"
  isLive :: "ProgramPoint \<Rightarrow> bool"
  getPredecessorState :: "ProgramPoint \<Rightarrow> PredecessorState"
  assertionsEnabled :: bool


definition getResults :: "Env \<Rightarrow> Operation \<Rightarrow> Value list" where
  "getResults env op = map (OpResult op) [0..<getNumResults env op]"

definition getArguments :: "Env \<Rightarrow> Block \<Rightarrow> Value list" where
  "getArguments env block = map (BlockArgument block) [0..<getNumArguments env block]"

text \<open>\<^verbatim>\<open>Region::getArguments\<close>: the arguments of the entry block, none for an empty region.\<close>

definition getRegionArguments :: "Env \<Rightarrow> Region \<Rightarrow> Value list" where
  "getRegionArguments env region =
     (case getBlocks env region of [] \<Rightarrow> [] | front # _ \<Rightarrow> getArguments env front)"

text \<open>The values an operand range of operation \<open>op\<close> views.\<close>

definition operandRangeValues :: "Env \<Rightarrow> Operation \<Rightarrow> OperandRange \<Rightarrow> Value list" where
  "operandRangeValues env op r =
     take (rangeSize r) (drop (getBeginOperandIndex r) (getOperands env op))"

text \<open>
  \<^verbatim>\<open>slice(n, m)\<close> and \<^verbatim>\<open>drop_front(n)\<close> of the LLVM array views assert that the
  requested elements exist.
\<close>

definition slice :: "'a list \<Rightarrow> nat \<Rightarrow> nat \<Rightarrow> Error + 'a list" where
  "slice xs n m = (if n + m \<le> length xs then Inr (take m (drop n xs)) else Inl AssertionFailed)"

definition drop_front :: "'a list \<Rightarrow> nat \<Rightarrow> Error + 'a list" where
  "drop_front xs n = (if n \<le> length xs then Inr (drop n xs) else Inl AssertionFailed)"

section \<open>What a visit does: the calls into the solver, the lattices and the hooks\<close>

text \<open>
  Which calls a driver makes, and in which order, depends on the IR and on the states
  of the dead-code analysis only, never on a lattice value.  A visit is therefore
  modelled as the list of the calls it makes, in order; \<open>run\<close> below executes such a
  list on the state of the solver.  A lattice element is named by the value it is
  attached to (\<^verbatim>\<open>getLatticeElement(value)\<close>).
\<close>

datatype Effect =
    Join Value Value
  | Meet Value Value
  | SetToEntryState Value
  | SetToExitState Value
  | AddDependency Value ProgramPoint
  | UseDefSubscribe Value
  | GetOrCreateFor ProgramPoint ProgramPoint
  | BlockContentSubscribe ProgramPoint
  | Forward_visitOperationImpl Operation "Value list" "Value list"
  | Backward_visitOperationImpl Operation "Value list" "Value list"
  | VisitNonControlFlowArgumentsImpl Operation RegionSuccessor "Value list" nat
  | VisitBranchOperand Operation nat

section \<open>AbstractSparseForwardDataFlowAnalysis\<close>

text \<open>\<^verbatim>\<open>getLatticeElementFor(point, value)\<close>: the element of \<open>value\<close>, with \<open>point\<close> as a dependent.\<close>

definition getLatticeElementFor :: "ProgramPoint \<Rightarrow> Value \<Rightarrow> Effect list" where
  "getLatticeElementFor point v = [AddDependency v point]"

definition setAllToEntryStates :: "Value list \<Rightarrow> Effect list" where
  "setAllToEntryStates lattices = map SetToEntryState lattices"

text \<open>\<^verbatim>\<open>join(lhs, *getLatticeElementFor(point, value))\<close>\<close>

definition joinFor :: "ProgramPoint \<Rightarrow> Value \<Rightarrow> Value \<Rightarrow> Effect list" where
  "joinFor point lhs v = getLatticeElementFor point v @ [Join lhs v]"

text \<open>
  The part of \<^verbatim>\<open>visitRegionSuccessors\<close> that runs when the successor inputs are not all
  the lattices: the first index and the call of the hook.
\<close>

definition visitNonControlFlowArguments ::
  "Env \<Rightarrow> ProgramPoint \<Rightarrow> Operation \<Rightarrow> Value list \<Rightarrow> Value list \<Rightarrow> Error + (nat \<times> Effect list)" where
  "visitNonControlFlowArguments env point branch inputs lattices =
     (if length inputs \<noteq> length lattices then
        (case point of
           PointOperation _ \<Rightarrow>
             bindE (case inputs of [] \<Rightarrow> Inr 0
                    | OpResult _ n # _ \<Rightarrow> Inr n
                    | BlockArgument _ _ # _ \<Rightarrow> Inl AssertionFailed) (\<lambda>firstIndex.
             bindE (slice (getResults env branch) firstIndex (length inputs)) (\<lambda>results.
               Inr (firstIndex,
                 [VisitNonControlFlowArgumentsImpl branch
                    \<lparr>getSuccessor = None, getSuccessorInputs = results\<rparr> lattices firstIndex])))
         | PointBlock block \<Rightarrow>
             bindE (case inputs of [] \<Rightarrow> Inr 0
                    | BlockArgument _ n # _ \<Rightarrow> Inr n
                    | OpResult _ _ # _ \<Rightarrow> Inl AssertionFailed) (\<lambda>firstIndex.
             let region = getParent env block in
             bindE (slice (getRegionArguments env region) firstIndex (length inputs)) (\<lambda>arguments.
               Inr (firstIndex,
                 [VisitNonControlFlowArgumentsImpl branch
                    \<lparr>getSuccessor = Some region, getSuccessorInputs = arguments\<rparr> lattices firstIndex])))
         | _ \<Rightarrow> Inl AssertionFailed)
      else Inr (0, []))"

text \<open>
  The loop of \<^verbatim>\<open>visitRegionSuccessors\<close> over the known predecessors.  The comparison
  of the number of successor inputs with the number of operands is an \<^verbatim>\<open>assert\<close>: it is
  made in a build with assertions only.
\<close>

fun visitRegionSuccessors_loop ::
  "Env \<Rightarrow> ProgramPoint \<Rightarrow> Operation \<Rightarrow> nat option \<Rightarrow> Value list \<Rightarrow> PredecessorState
     \<Rightarrow> Operation list \<Rightarrow> Error + Effect list" where
  "visitRegionSuccessors_loop env point branch successorIndex lattices predecessors [] = Inr []"
| "visitRegionSuccessors_loop env point branch successorIndex lattices predecessors (op # ops) =
     (case (if op = branch then
              Some (operandRangeValues env branch (getEntrySuccessorOperands env branch successorIndex))
            else if isRegionBranchTerminatorOp env op then
              Some (operandRangeValues env op (getTerminatorSuccessorOperands env op successorIndex))
            else None) of
        None \<Rightarrow> Inr (setAllToEntryStates lattices)
      | Some operands \<Rightarrow>
          (let inputs = getPredecessorInputs predecessors op in
           if assertionsEnabled env \<and> length inputs \<noteq> length operands then Inl AssertionFailed
           else
             (case visitNonControlFlowArguments env point branch inputs lattices of
                Inl e \<Rightarrow> Inl e
              | Inr (firstIndex, hook) \<Rightarrow>
                  (case drop_front lattices firstIndex of
                     Inl e \<Rightarrow> Inl e
                   | Inr dropped \<Rightarrow>
                       (case visitRegionSuccessors_loop env point branch successorIndex lattices
                               predecessors ops of
                          Inl e \<Rightarrow> Inl e
                        | Inr rest \<Rightarrow>
                            Inr (hook
                                 @ concat (map (\<lambda>(operand, lattice). joinFor point lattice operand)
                                             (zip operands dropped))
                                 @ rest))))))"

text \<open>
  \<^verbatim>\<open>visitRegionSuccessors\<close>: the predecessor state of the point, the \<^verbatim>\<open>assert\<close> that all
  predecessors are known, made in a build with assertions only, and the loop.
\<close>

definition forward_visitRegionSuccessors ::
  "Env \<Rightarrow> ProgramPoint \<Rightarrow> Operation \<Rightarrow> nat option \<Rightarrow> Value list \<Rightarrow> Error + Effect list" where
  "forward_visitRegionSuccessors env point branch successorIndex lattices =
     (let predecessors = getPredecessorState env point in
      if assertionsEnabled env \<and> \<not> allPredecessorsKnown predecessors then Inl AssertionFailed
      else bindE (visitRegionSuccessors_loop env point branch successorIndex lattices predecessors
                    (getKnownPredecessors predecessors))
             (\<lambda>effects. Inr (GetOrCreateFor point point # effects)))"

definition forward_visitOperation :: "Env \<Rightarrow> Operation \<Rightarrow> Error + Effect list" where
  "forward_visitOperation env op =
     (if getNumResults env op = 0 then Inr []
      else if \<not> isLive env (PointBlock (getBlock env op)) then Inr []
      else
        (let resultLattices = getResults env op in
         if isRegionBranchOp env op then
           forward_visitRegionSuccessors env (PointOperation op) op None resultLattices
         else if isCallOp env op then
           (let predecessors = getPredecessorState env (PointOperation op) in
            Inr (GetOrCreateFor (PointOperation op) (PointOperation op) #
              (if \<not> allPredecessorsKnown predecessors then setAllToEntryStates resultLattices
               else concat (map (\<lambda>predecessor.
                        concat (map (\<lambda>(operand, lattice). joinFor (PointOperation op) lattice operand)
                                  (zip (getOperands env predecessor) resultLattices)))
                      (getKnownPredecessors predecessors)))))
         else
           Inr (map UseDefSubscribe (getOperands env op)
                @ [Forward_visitOperationImpl op (getOperands env op) resultLattices])))"

text \<open>
  \<^verbatim>\<open>SuccessorOperands::operator[]\<close>: no value for an operand the branch produces itself,
  else the forwarded operand (the operand range asserts that the index is in range).
\<close>

definition successorOperandAt ::
  "Env \<Rightarrow> Operation \<Rightarrow> SuccessorOperands \<Rightarrow> nat \<Rightarrow> Error + Value option" where
  "successorOperandAt env branch operands idx =
     (if idx < getProducedOperandCount operands then Inr None
      else
        (let forwarded = operandRangeValues env branch (getForwardedOperands operands);
             i = idx - getProducedOperandCount operands
         in if i < length forwarded then Inr (Some (forwarded ! i)) else Inl AssertionFailed))"

text \<open>The inner loop of \<^verbatim>\<open>visitBlock\<close>: the argument lattices, against one branch.\<close>

fun visitBlock_arguments ::
  "Env \<Rightarrow> Block \<Rightarrow> Operation \<Rightarrow> SuccessorOperands \<Rightarrow> (nat \<times> Value) list \<Rightarrow> Error + Effect list" where
  "visitBlock_arguments env block branch operands [] = Inr []"
| "visitBlock_arguments env block branch operands ((idx, lattice) # rest) =
     (case successorOperandAt env branch operands idx of
        Inl e \<Rightarrow> Inl e
      | Inr operand \<Rightarrow>
          (case visitBlock_arguments env block branch operands rest of
             Inl e \<Rightarrow> Inl e
           | Inr effects \<Rightarrow>
               Inr ((case operand of
                       Some v \<Rightarrow> joinFor (PointBlock block) lattice v
                     | None \<Rightarrow> setAllToEntryStates [lattice])
                    @ effects)))"

text \<open>The loop of \<^verbatim>\<open>visitBlock\<close> over the predecessors of a block that is not an entry block.\<close>

fun visitBlock_predecessors ::
  "Env \<Rightarrow> Block \<Rightarrow> Value list \<Rightarrow> (Block \<times> nat) list \<Rightarrow> Error + Effect list" where
  "visitBlock_predecessors env block argLattices [] = Inr []"
| "visitBlock_predecessors env block argLattices ((predecessor, successorIndex) # preds) =
     (let edge = PointCFGEdge predecessor block in
      if \<not> isLive env edge then
        (case visitBlock_predecessors env block argLattices preds of
           Inl e \<Rightarrow> Inl e
         | Inr rest \<Rightarrow> Inr (BlockContentSubscribe edge # rest))
      else if isBranchOp env (getTerminator env predecessor) then
        (let branch = getTerminator env predecessor in
         case visitBlock_arguments env block branch (getSuccessorOperands env branch successorIndex)
                (enumerate 0 argLattices) of
           Inl e \<Rightarrow> Inl e
         | Inr effects \<Rightarrow>
             (case visitBlock_predecessors env block argLattices preds of
                Inl e \<Rightarrow> Inl e
              | Inr rest \<Rightarrow> Inr (BlockContentSubscribe edge # effects @ rest)))
      else Inr (BlockContentSubscribe edge # setAllToEntryStates argLattices))"

text \<open>The loop of \<^verbatim>\<open>visitBlock\<close> over the call sites of a callable region.\<close>

fun visitBlock_callsites :: "Env \<Rightarrow> Block \<Rightarrow> Value list \<Rightarrow> Operation list \<Rightarrow> Error + Effect list" where
  "visitBlock_callsites env block argLattices [] = Inr []"
| "visitBlock_callsites env block argLattices (callsite # callsites) =
     (if \<not> isCallOp env callsite then Inl AssertionFailed
      else
        (case visitBlock_callsites env block argLattices callsites of
           Inl e \<Rightarrow> Inl e
         | Inr rest \<Rightarrow>
             Inr (concat (map (\<lambda>(operand, lattice). joinFor (PointBlock block) lattice operand)
                            (zip (getArgOperands env callsite) argLattices))
                  @ rest)))"

definition forward_visitBlock :: "Env \<Rightarrow> Block \<Rightarrow> Error + Effect list" where
  "forward_visitBlock env block =
     (if getNumArguments env block = 0 then Inr []
      else if \<not> isLive env (PointBlock block) then Inr []
      else
        (let argLattices = getArguments env block in
         if isEntryBlock env block then
           (case getBlockParentOp env block of
              None \<Rightarrow> Inl AssertionFailed
            | Some parent \<Rightarrow>
                if isCallableOp env parent \<and> getCallableRegion env parent = Some (getParent env block)
                then
                  (let callsites = getPredecessorState env (PointOperation parent) in
                   if \<not> allPredecessorsKnown callsites then
                     Inr (GetOrCreateFor (PointBlock block) (PointOperation parent) #
                          setAllToEntryStates argLattices)
                   else
                     bindE (visitBlock_callsites env block argLattices (getKnownPredecessors callsites))
                       (\<lambda>effects. Inr (GetOrCreateFor (PointBlock block) (PointOperation parent) # effects)))
                else if isRegionBranchOp env parent then
                  forward_visitRegionSuccessors env (PointBlock block) parent
                    (Some (getRegionNumber env (getParent env block))) argLattices
                else
                  Inr [VisitNonControlFlowArgumentsImpl parent
                         \<lparr>getSuccessor = Some (getParent env block), getSuccessorInputs = []\<rparr>
                         argLattices 0])
         else visitBlock_predecessors env block argLattices (getBlockPredecessors env block)))"

definition forward_visit :: "Env \<Rightarrow> ProgramPoint \<Rightarrow> Error + (LogicalResult \<times> Effect list)" where
  "forward_visit env point =
     (case point of
        PointOperation op \<Rightarrow> bindE (forward_visitOperation env op) (\<lambda>effects. Inr (success, effects))
      | PointBlock block \<Rightarrow> bindE (forward_visitBlock env block) (\<lambda>effects. Inr (success, effects))
      | _ \<Rightarrow> Inr (failure, []))"


section \<open>AbstractSparseBackwardDataFlowAnalysis\<close>

definition getLatticeElementsFor :: "ProgramPoint \<Rightarrow> Value list \<Rightarrow> Effect list" where
  "getLatticeElementsFor point values = concat (map (getLatticeElementFor point) values)"

definition setAllToExitStates :: "Value list \<Rightarrow> Effect list" where
  "setAllToExitStates lattices = map SetToExitState lattices"

text \<open>\<^verbatim>\<open>meet(lhs, *getLatticeElementFor(point, value))\<close>\<close>

definition meetFor :: "ProgramPoint \<Rightarrow> Value \<Rightarrow> Value \<Rightarrow> Effect list" where
  "meetFor point lhs v = getLatticeElementFor point v @ [Meet lhs v]"

text \<open>
  \<^verbatim>\<open>op->getOpOperands()\<close>: an operand of an operation knows its number and its value.
  \<^verbatim>\<open>operandsToOpOperands\<close> gives the operands an operand range views.
\<close>

definition getOpOperands :: "Env \<Rightarrow> Operation \<Rightarrow> (nat \<times> Value) list" where
  "getOpOperands env op = enumerate 0 (getOperands env op)"

definition operandsToOpOperands :: "Env \<Rightarrow> Operation \<Rightarrow> OperandRange \<Rightarrow> (nat \<times> Value) list" where
  "operandsToOpOperands env op r =
     take (rangeSize r) (drop (getBeginOperandIndex r) (getOpOperands env op))"

text \<open>\<^verbatim>\<open>BitVector::set_bits\<close>: the indices of the bits that are set, ascending.\<close>

definition set_bits :: "bool list \<Rightarrow> nat list" where
  "set_bits bits = filter (\<lambda>i. bits ! i) [0..<length bits]"

text \<open>
  The loop shared by \<^verbatim>\<open>visitRegionSuccessors\<close> and \<^verbatim>\<open>visitRegionSuccessorsFromTerminator\<close>
  over the operands zipped with the successor inputs: meet, then clear the bit.
\<close>

fun meetSuccessorInputs ::
  "ProgramPoint \<Rightarrow> ((nat \<times> Value) \<times> Value) list \<Rightarrow> bool list \<times> Effect list \<Rightarrow> bool list \<times> Effect list" where
  "meetSuccessorInputs point [] acc = acc"
| "meetSuccessorInputs point (((n, v), input) # rest) (unaccounted, effects) =
     meetSuccessorInputs point rest (unaccounted[n := False], effects @ meetFor point v input)"

fun backward_visitRegionSuccessors_loop ::
  "Env \<Rightarrow> Operation \<Rightarrow> RegionSuccessor list \<Rightarrow> bool list \<times> Effect list \<Rightarrow> bool list \<times> Effect list" where
  "backward_visitRegionSuccessors_loop env op [] acc = acc"
| "backward_visitRegionSuccessors_loop env op (successor # successors) acc =
     (let operands =
            (case getSuccessor successor of
               Some region \<Rightarrow> getEntrySuccessorOperands env op (Some (getRegionNumber env region))
             | None \<Rightarrow> getEntrySuccessorOperands env op None);
          opoperands = operandsToOpOperands env op operands;
          inputs = getSuccessorInputs successor
      in backward_visitRegionSuccessors_loop env op successors
           (meetSuccessorInputs (PointOperation op) (zip opoperands inputs) acc))"

definition backward_visitRegionSuccessors :: "Env \<Rightarrow> Operation \<Rightarrow> Effect list" where
  "backward_visitRegionSuccessors env op =
     (case backward_visitRegionSuccessors_loop env op (getEntrySuccessorRegions env op)
             (replicate (length (getOperands env op)) True, []) of
        (unaccounted, effects) \<Rightarrow> effects @ map (VisitBranchOperand op) (set_bits unaccounted))"

fun visitRegionSuccessorsFromTerminator_loop ::
  "Env \<Rightarrow> Operation \<Rightarrow> RegionSuccessor list \<Rightarrow> bool list \<times> Effect list \<Rightarrow> bool list \<times> Effect list" where
  "visitRegionSuccessorsFromTerminator_loop env terminator [] acc = acc"
| "visitRegionSuccessorsFromTerminator_loop env terminator (successor # successors) acc =
     (let inputs = getSuccessorInputs successor;
          operands =
            getTerminatorSuccessorOperands env terminator
              (case getSuccessor successor of
                 Some region \<Rightarrow> Some (getRegionNumber env region)
               | None \<Rightarrow> None);
          opOperands = operandsToOpOperands env terminator operands
      in visitRegionSuccessorsFromTerminator_loop env terminator successors
           (meetSuccessorInputs (PointOperation terminator) (zip opOperands inputs) acc))"

definition visitRegionSuccessorsFromTerminator :: "Env \<Rightarrow> Operation \<Rightarrow> Effect list" where
  "visitRegionSuccessorsFromTerminator env terminator =
     (case visitRegionSuccessorsFromTerminator_loop env terminator
             (getTerminatorSuccessorRegions env terminator)
             (replicate (length (getOperands env terminator)) True, []) of
        (unaccounted, effects) \<Rightarrow> effects @ map (VisitBranchOperand terminator) (set_bits unaccounted))"

text \<open>
  The branch case of \<^verbatim>\<open>visitOperation\<close>.  The inner loop runs over the operands forwarded
  to one successor block: clear the bit, then meet with the block argument if
  \<^verbatim>\<open>detail::getBranchSuccessorArgument\<close> finds one.
\<close>

fun visitBranch_operands ::
  "Env \<Rightarrow> Operation \<Rightarrow> SuccessorOperands \<Rightarrow> Block \<Rightarrow> (nat \<times> Value) list
     \<Rightarrow> bool list \<times> Effect list \<Rightarrow> bool list \<times> Effect list" where
  "visitBranch_operands env op successorOperands block [] acc = acc"
| "visitBranch_operands env op successorOperands block ((n, v) # operands) (unaccounted, effects) =
     visitBranch_operands env op successorOperands block operands
       (unaccounted[n := False],
        effects @ (case getBranchSuccessorArgument env successorOperands n block of
                     Some blockArg \<Rightarrow> meetFor (PointOperation op) v blockArg
                   | None \<Rightarrow> []))"

fun visitBranch_successors ::
  "Env \<Rightarrow> Operation \<Rightarrow> (nat \<times> Block) list \<Rightarrow> bool list \<times> Effect list
     \<Rightarrow> Error + bool list \<times> Effect list" where
  "visitBranch_successors env op [] acc = Inr acc"
| "visitBranch_successors env op ((index, block) # successors) acc =
     (let successorOperands = getSuccessorOperands env op index;
          forwarded = getForwardedOperands successorOperands
      in if rangeSize forwarded \<noteq> 0 then
           (case slice (getOpOperands env op) (getBeginOperandIndex forwarded) (rangeSize forwarded) of
              Inl e \<Rightarrow> Inl e
            | Inr operands \<Rightarrow>
                visitBranch_successors env op successors
                  (visitBranch_operands env op successorOperands block operands acc))
         else visitBranch_successors env op successors acc)"

definition backward_visitBranch :: "Env \<Rightarrow> Operation \<Rightarrow> Error + Effect list" where
  "backward_visitBranch env op =
     (case visitBranch_successors env op (enumerate 0 (getSuccessors env op))
             (replicate (length (getOperands env op)) True, []) of
        Inl e \<Rightarrow> Inl e
      | Inr (unaccounted, effects) \<Rightarrow>
          Inr (effects @ map (VisitBranchOperand op) (set_bits unaccounted)))"

text \<open>
  The tail of \<^verbatim>\<open>visitOperation\<close>, from the bottom: the transfer function; before it the
  return-like case, which returns only under a callable parent; before it the region
  terminator case, which returns only under a region-branch parent; before it the call
  case, which returns only when the callee resolves to a callable operation.
  \<^verbatim>\<open>dyn_cast\<close> asserts that its argument is not null.
\<close>

definition backward_visitOperation_returnLike :: "Env \<Rightarrow> Operation \<Rightarrow> Error + Effect list" where
  "backward_visitOperation_returnLike env op =
     (let operandLattices = getOperands env op;
          transfer = [Backward_visitOperationImpl op operandLattices (getResults env op)]
      in if hasTraitReturnLike env op then
           (case getParentOp env op of
              None \<Rightarrow> Inl AssertionFailed
            | Some callable \<Rightarrow>
                if isCallableOp env callable then
                  (let callsites = getPredecessorState env (PointOperation callable) in
                   Inr (GetOrCreateFor (PointOperation op) (PointOperation callable) #
                     (if allPredecessorsKnown callsites then
                        concat (map (\<lambda>call.
                            getLatticeElementsFor (PointOperation op) (getResults env call)
                            @ map (\<lambda>(operand, result). Meet operand result)
                                (zip operandLattices (getResults env call)))
                          (getKnownPredecessors callsites))
                      else setAllToExitStates operandLattices)))
                else Inr transfer)
         else Inr transfer)"

definition backward_visitOperation_terminator :: "Env \<Rightarrow> Operation \<Rightarrow> Error + Effect list" where
  "backward_visitOperation_terminator env op =
     (if isRegionBranchTerminatorOp env op then
        (case getParentOp env op of
           None \<Rightarrow> Inl AssertionFailed
         | Some branch \<Rightarrow>
             if isRegionBranchOp env branch then Inr (visitRegionSuccessorsFromTerminator env op)
             else backward_visitOperation_returnLike env op)
      else backward_visitOperation_returnLike env op)"

definition backward_visitOperation_call :: "Env \<Rightarrow> Operation \<Rightarrow> Error + Effect list" where
  "backward_visitOperation_call env op =
     (case (if isCallOp env op then
              (case resolveCallable env op of
                 Some callableOp \<Rightarrow> if isCallableOp env callableOp then Some callableOp else None
               | None \<Rightarrow> None)
            else None) of
        Some callable \<Rightarrow>
          Inr (case getCallableRegion env callable of
                 None \<Rightarrow> []
               | Some region \<Rightarrow>
                   (case getBlocks env region of
                      [] \<Rightarrow> []
                    | block # _ \<Rightarrow>
                        concat (map (\<lambda>(blockArg, operand). meetFor (PointOperation op) operand blockArg)
                                  (zip (getArguments env block) (getOperands env op)))))
      | None \<Rightarrow> backward_visitOperation_terminator env op)"

definition backward_visitOperation :: "Env \<Rightarrow> Operation \<Rightarrow> Error + Effect list" where
  "backward_visitOperation env op =
     (if \<not> isLive env (PointBlock (getBlock env op)) then Inr []
      else
        bindE (if isRegionBranchOp env op then Inr (backward_visitRegionSuccessors env op)
               else if isBranchOp env op then backward_visitBranch env op
               else backward_visitOperation_call env op)
          (\<lambda>effects. Inr (getLatticeElementsFor (PointOperation op) (getResults env op) @ effects)))"

definition backward_visit :: "Env \<Rightarrow> ProgramPoint \<Rightarrow> Error + (LogicalResult \<times> Effect list)" where
  "backward_visit env point =
     (case point of
        PointOperation op \<Rightarrow> bindE (backward_visitOperation env op) (\<lambda>effects. Inr (success, effects))
      | PointBlock block \<Rightarrow> Inr (success, [])
      | _ \<Rightarrow> Inr (failure, []))"


section \<open>The state of the solver and the lattice elements\<close>

text \<open>
  A lattice element holds a value of the analysis's lattice \<open>'l\<close>, the work items that
  depend on it and the analyses subscribed to it along use-def chains.  The store is
  total: an element that has not been created yet holds the default value.  The work
  list is the queue of the solver.
\<close>

record 'l SolverState =
  latticeValue :: "Value \<Rightarrow> 'l"
  dependents :: "Value \<Rightarrow> (ProgramPoint \<times> DataFlowAnalysis) list"
  useDefSubscribers :: "Value \<Rightarrow> DataFlowAnalysis list"
  worklist :: "(ProgramPoint \<times> DataFlowAnalysis) list"

text \<open>
  What a concrete analysis supplies.  Modelled from the spec: the hooks are absent from
  the source file (they are pure virtual).  \<open>join\<close> and \<open>meet\<close> combine the value of the
  left element with the value of the right one and report a change when the value
  changed; \<open>setToEntryState\<close> and \<open>setToExitState\<close> set the most conservative value;
  the transfer functions read the lattices they are given read-only and write the others;
  \<open>visitBranchOperand\<close> writes the lattice of one operand.
\<close>

record 'l Analysis =
  thisAnalysis :: DataFlowAnalysis
  latticeJoin :: "'l \<Rightarrow> 'l \<Rightarrow> 'l"
  latticeMeet :: "'l \<Rightarrow> 'l \<Rightarrow> 'l"
  entryState :: "Value \<Rightarrow> 'l"
  exitState :: "Value \<Rightarrow> 'l"
  forward_visitOperationImpl :: "Operation \<Rightarrow> 'l list \<Rightarrow> 'l list \<Rightarrow> 'l list"
  visitNonControlFlowArgumentsImpl :: "Operation \<Rightarrow> RegionSuccessor \<Rightarrow> 'l list \<Rightarrow> nat \<Rightarrow> 'l list"
  backward_visitOperationImpl :: "Operation \<Rightarrow> 'l list \<Rightarrow> 'l list \<Rightarrow> 'l list"
  visitBranchOperand :: "Operation \<Rightarrow> nat \<Rightarrow> 'l \<Rightarrow> 'l"

definition enqueue :: "ProgramPoint \<times> DataFlowAnalysis \<Rightarrow> 'l SolverState \<Rightarrow> 'l SolverState" where
  "enqueue item s = s\<lparr>worklist := worklist s @ [item]\<rparr>"

text \<open>
  Modelled from the spec: \<^verbatim>\<open>AnalysisState::onUpdate\<close> is absent from the source.  When an
  element changes, the work items that depend on it are enqueued again.
\<close>

definition AnalysisState_onUpdate :: "Value \<Rightarrow> 'l SolverState \<Rightarrow> 'l SolverState" where
  "AnalysisState_onUpdate v s = fold enqueue (dependents s v) s"

text \<open>
  \<^verbatim>\<open>AbstractSparseLattice::onUpdate\<close>, for the element of value \<open>v\<close>: after the update of
  the base class, every user of the value is pushed for every use-def subscriber.
\<close>

definition onUpdate :: "Env \<Rightarrow> Value \<Rightarrow> 'l SolverState \<Rightarrow> 'l SolverState" where
  "onUpdate env v s =
     fold (\<lambda>user. fold (\<lambda>analysis. enqueue (PointOperation user, analysis)) (useDefSubscribers s v))
       (getUsers env v) (AnalysisState_onUpdate v s)"

datatype ChangeResult = NoChange | Change

text \<open>
  Modelled from the spec: \<^verbatim>\<open>propagateIfChanged\<close> is absent from the source.  A change of
  the element is propagated through its \<open>onUpdate\<close>.
\<close>

definition propagateIfChanged :: "Env \<Rightarrow> Value \<Rightarrow> ChangeResult \<Rightarrow> 'l SolverState \<Rightarrow> 'l SolverState" where
  "propagateIfChanged env v changed s = (case changed of Change \<Rightarrow> onUpdate env v s | NoChange \<Rightarrow> s)"

text \<open>Storing a value in an element reports whether the value changed.\<close>

definition update :: "Value \<Rightarrow> 'l \<Rightarrow> 'l SolverState \<Rightarrow> ChangeResult \<times> 'l SolverState" where
  "update v x s =
     (if x = latticeValue s v then (NoChange, s)
      else (Change, s\<lparr>latticeValue := (latticeValue s)(v := x)\<rparr>))"

definition updateAndPropagate :: "Env \<Rightarrow> Value \<Rightarrow> 'l \<Rightarrow> 'l SolverState \<Rightarrow> 'l SolverState" where
  "updateAndPropagate env v x s = (case update v x s of (changed, s') \<Rightarrow> propagateIfChanged env v changed s')"

text \<open>A hook hands back the new values of the lattices it may write, in their order.\<close>

fun writeLattices :: "Env \<Rightarrow> (Value \<times> 'l) list \<Rightarrow> 'l SolverState \<Rightarrow> 'l SolverState" where
  "writeLattices env [] s = s"
| "writeLattices env ((v, x) # rest) s = writeLattices env rest (updateAndPropagate env v x s)"

text \<open>
  One call, executed.  \<^verbatim>\<open>getOrCreateFor\<close> and \<^verbatim>\<open>blockContentSubscribe\<close> register the
  visited point with a state of the dead-code analysis, which is not part of this state.
\<close>

fun exec :: "'l Analysis \<Rightarrow> Env \<Rightarrow> Effect \<Rightarrow> 'l SolverState \<Rightarrow> 'l SolverState" where
  "exec A env (Join lhs rhs) s =
     updateAndPropagate env lhs (latticeJoin A (latticeValue s lhs) (latticeValue s rhs)) s"
| "exec A env (Meet lhs rhs) s =
     updateAndPropagate env lhs (latticeMeet A (latticeValue s lhs) (latticeValue s rhs)) s"
| "exec A env (SetToEntryState v) s = updateAndPropagate env v (entryState A v) s"
| "exec A env (SetToExitState v) s = updateAndPropagate env v (exitState A v) s"
| "exec A env (AddDependency v point) s =
     s\<lparr>dependents := (dependents s)(v := List.insert (point, thisAnalysis A) (dependents s v))\<rparr>"
| "exec A env (UseDefSubscribe v) s =
     s\<lparr>useDefSubscribers := (useDefSubscribers s)(v := List.insert (thisAnalysis A) (useDefSubscribers s v))\<rparr>"
| "exec A env (GetOrCreateFor dependent point) s = s"
| "exec A env (BlockContentSubscribe point) s = s"
| "exec A env (Forward_visitOperationImpl op operands results) s =
     writeLattices env
       (zip results (forward_visitOperationImpl A op (map (latticeValue s) operands)
                       (map (latticeValue s) results))) s"
| "exec A env (VisitNonControlFlowArgumentsImpl op successor lattices firstIndex) s =
     writeLattices env
       (zip lattices (visitNonControlFlowArgumentsImpl A op successor (map (latticeValue s) lattices)
                        firstIndex)) s"
| "exec A env (Backward_visitOperationImpl op operands results) s =
     writeLattices env
       (zip operands (backward_visitOperationImpl A op (map (latticeValue s) operands)
                        (map (latticeValue s) results))) s"
| "exec A env (VisitBranchOperand op n) s =
     (if n < length (getOperands env op) then
        (let v = getOperands env op ! n
         in updateAndPropagate env v (visitBranchOperand A op n (latticeValue s v)) s)
      else s)"

fun run :: "'l Analysis \<Rightarrow> Env \<Rightarrow> Effect list \<Rightarrow> 'l SolverState \<Rightarrow> 'l SolverState" where
  "run A env [] s = s"
| "run A env (e # es) s = run A env es (exec A env e s)"

text \<open>A visit on a state: nothing when an assertion of the driver fails.\<close>

definition runVisit ::
  "'l Analysis \<Rightarrow> Env \<Rightarrow> Error + Effect list \<Rightarrow> 'l SolverState \<Rightarrow> 'l SolverState option" where
  "runVisit A env visit s = (case visit of Inl e \<Rightarrow> None | Inr effects \<Rightarrow> Some (run A env effects s))"


text \<open>The lattice elements a call may write.\<close>

fun writes :: "Env \<Rightarrow> Effect \<Rightarrow> Value set" where
  "writes env (Join lhs rhs) = {lhs}"
| "writes env (Meet lhs rhs) = {lhs}"
| "writes env (SetToEntryState v) = {v}"
| "writes env (SetToExitState v) = {v}"
| "writes env (Forward_visitOperationImpl op operands results) = set results"
| "writes env (VisitNonControlFlowArgumentsImpl op successor lattices firstIndex) = set lattices"
| "writes env (Backward_visitOperationImpl op operands results) = set operands"
| "writes env (VisitBranchOperand op n) =
     (if n < length (getOperands env op) then {getOperands env op ! n} else {})"
| "writes env (AddDependency v point) = {}"
| "writes env (UseDefSubscribe v) = {}"
| "writes env (GetOrCreateFor dependent point) = {}"
| "writes env (BlockContentSubscribe point) = {}"

text \<open>
  The forward driver, visiting a sequence of program points one after the other, as the
  solver makes it do while it drains its queue.  The run stops where a visit fails.
\<close>

fun forward_visits ::
  "'l Analysis \<Rightarrow> Env \<Rightarrow> ProgramPoint list \<Rightarrow> 'l SolverState \<Rightarrow> 'l SolverState option" where
  "forward_visits A env [] s = Some s"
| "forward_visits A env (point # points) s =
     (case forward_visit env point of
        Inr (success, effects) \<Rightarrow> forward_visits A env points (run A env effects s)
      | _ \<Rightarrow> None)"

section \<open>Example programs and an example analysis\<close>

text \<open>
  A three-level lattice of constants: nothing known yet, one constant, or any value.
  Every hook of the example analysis gives up and stores the top element.
\<close>

datatype ConstantValue = Uninitialized | Constant nat | UnknownConstant

fun constantJoin :: "ConstantValue \<Rightarrow> ConstantValue \<Rightarrow> ConstantValue" where
  "constantJoin Uninitialized y = y"
| "constantJoin x Uninitialized = x"
| "constantJoin (Constant a) (Constant b) = (if a = b then Constant a else UnknownConstant)"
| "constantJoin _ _ = UnknownConstant"

definition constantAnalysis :: "ConstantValue Analysis" where
  "constantAnalysis =
     \<lparr>thisAnalysis = 0,
      latticeJoin = constantJoin,
      latticeMeet = constantJoin,
      entryState = (\<lambda>_. UnknownConstant),
      exitState = (\<lambda>_. UnknownConstant),
      forward_visitOperationImpl = (\<lambda>op operands results. map (\<lambda>_. UnknownConstant) results),
      visitNonControlFlowArgumentsImpl =
        (\<lambda>op successor lattices firstIndex. map (\<lambda>_. UnknownConstant) lattices),
      backward_visitOperationImpl = (\<lambda>op operands results. map (\<lambda>_. UnknownConstant) operands),
      visitBranchOperand = (\<lambda>op n x. UnknownConstant)\<rparr>"

definition initialState :: "ConstantValue SolverState" where
  "initialState =
     \<lparr>latticeValue = (\<lambda>_. Uninitialized), dependents = (\<lambda>_. []),
      useDefSubscribers = (\<lambda>_. []), worklist = []\<rparr>"

definition emptyPredecessorState :: PredecessorState where
  "emptyPredecessorState =
     \<lparr>allPredecessorsKnown = True, getKnownPredecessors = [], getPredecessorInputs = (\<lambda>_. [])\<rparr>"

definition emptyRange :: OperandRange where
  "emptyRange = \<lparr>getBeginOperandIndex = 0, rangeSize = 0\<rparr>"

text \<open>
  An IR with nothing in it and nothing live, in a build with assertions: the examples
  below update it.
\<close>

definition emptyEnv :: Env where
  "emptyEnv =
     \<lparr>getNumResults = (\<lambda>_. 0),
      getOperands = (\<lambda>_. []),
      getBlock = (\<lambda>_. 0),
      getParentOp = (\<lambda>_. None),
      getSuccessors = (\<lambda>_. []),
      hasTraitReturnLike = (\<lambda>_. False),
      getUsers = (\<lambda>_. []),
      getNumArguments = (\<lambda>_. 0),
      isEntryBlock = (\<lambda>_. False),
      getBlockParentOp = (\<lambda>_. None),
      getParent = (\<lambda>_. 0),
      getBlockPredecessors = (\<lambda>_. []),
      getTerminator = (\<lambda>_. 0),
      getBlocks = (\<lambda>_. []),
      getRegionNumber = (\<lambda>_. 0),
      isRegionBranchOp = (\<lambda>_. False),
      isCallOp = (\<lambda>_. False),
      isBranchOp = (\<lambda>_. False),
      isCallableOp = (\<lambda>_. False),
      isRegionBranchTerminatorOp = (\<lambda>_. False),
      getCallableRegion = (\<lambda>_. None),
      resolveCallable = (\<lambda>_. None),
      getArgOperands = (\<lambda>_. []),
      getSuccessorOperands =
        (\<lambda>_ _. \<lparr>getProducedOperandCount = 0, getForwardedOperands = emptyRange\<rparr>),
      getBranchSuccessorArgument = (\<lambda>_ _ _. None),
      getEntrySuccessorOperands = (\<lambda>_ _. emptyRange),
      getEntrySuccessorRegions = (\<lambda>_. []),
      getTerminatorSuccessorOperands = (\<lambda>_ _. emptyRange),
      getTerminatorSuccessorRegions = (\<lambda>_. []),
      isLive = (\<lambda>_. False),
      getPredecessorState = (\<lambda>_. emptyPredecessorState),
      assertionsEnabled = True\<rparr>"

text \<open>
  Operation 2 calls through a value: one operand, one result, in block 3, and the
  dead-code analysis does not know all its return sites.  The block is live or not.
\<close>

definition unresolvedCall :: "bool \<Rightarrow> Env" where
  "unresolvedCall live =
     emptyEnv
       \<lparr>getNumResults := (\<lambda>_. 0)(2 := 1),
        getOperands := (\<lambda>_. [])(2 := [BlockArgument 3 0]),
        getBlock := (\<lambda>_. 3),
        isCallOp := (\<lambda>op. op = 2),
        isLive := (\<lambda>point. live \<and> point = PointBlock 3),
        getPredecessorState :=
          (\<lambda>_. emptyPredecessorState)
            (PointOperation 2 := emptyPredecessorState\<lparr>allPredecessorsKnown := False\<rparr>)\<rparr>"

text \<open>
  Operation 2 is a region-branch operation with one result, in the live block 3.  Its
  known predecessors are operation 4, a region terminator that hands it the result of
  operation 6, and operation 5, which is neither the operation itself nor a region
  terminator.  All its predecessors are known, or not.
\<close>

definition regionBranch :: "bool \<Rightarrow> Env" where
  "regionBranch allKnown =
     emptyEnv
       \<lparr>getNumResults := (\<lambda>_. 0)(2 := 1, 6 := 1),
        getOperands := (\<lambda>_. [])(4 := [OpResult 6 0]),
        getBlock := (\<lambda>_. 3),
        isRegionBranchOp := (\<lambda>op. op = 2),
        isRegionBranchTerminatorOp := (\<lambda>op. op = 4),
        getTerminatorSuccessorOperands := (\<lambda>_ _. \<lparr>getBeginOperandIndex = 0, rangeSize = 1\<rparr>),
        isLive := (\<lambda>point. point = PointBlock 3),
        getPredecessorState :=
          (\<lambda>_. emptyPredecessorState)
            (PointOperation 2 :=
               \<lparr>allPredecessorsKnown = allKnown, getKnownPredecessors = [4, 5],
                getPredecessorInputs = (\<lambda>_. [])(4 := [OpResult 2 0])\<rparr>)\<rparr>"


text \<open>
  Operation 7 returns the result of operation 6 from the function 2; it lies in block 3.
  The function is called by the operations 8 and 9, one result each.  The block is live
  or not, and the call sites are all known or not.
\<close>

definition returnProgram :: "bool \<Rightarrow> bool \<Rightarrow> Env" where
  "returnProgram live allKnown =
     emptyEnv
       \<lparr>getNumResults := (\<lambda>_. 0)(6 := 1, 8 := 1, 9 := 1),
        getOperands := (\<lambda>_. [])(7 := [OpResult 6 0]),
        getBlock := (\<lambda>_. 3),
        getParentOp := (\<lambda>_. None)(7 := Some 2),
        hasTraitReturnLike := (\<lambda>op. op = 7),
        isCallableOp := (\<lambda>op. op = 2),
        isLive := (\<lambda>point. live \<and> point = PointBlock 3),
        getPredecessorState :=
          (\<lambda>_. emptyPredecessorState)
            (PointOperation 2 :=
               \<lparr>allPredecessorsKnown = allKnown, getKnownPredecessors = [8, 9],
                getPredecessorInputs = (\<lambda>_. [])\<rparr>)\<rparr>"

text \<open>
  The block argument a forwarded operand feeds, for the branches of the examples: the
  operand at \<open>operandIndex\<close> inside the forwarded range feeds the argument at the same
  offset after the operands the branch produces itself.
\<close>

definition forwardedArgument :: "SuccessorOperands \<Rightarrow> nat \<Rightarrow> Block \<Rightarrow> Value option" where
  "forwardedArgument operands operandIndex successor =
     (let forwarded = getForwardedOperands operands;
          operandsStart = getBeginOperandIndex forwarded
      in if rangeSize forwarded = 0 then None
         else if operandIndex < operandsStart \<or> operandIndex \<ge> operandsStart + rangeSize forwarded
           then None
         else Some (BlockArgument successor
                      (getProducedOperandCount operands + operandIndex - operandsStart)))"

text \<open>
  Operation 2 calls the function 8, which is only declared: it has no callable region.
  The call has one operand, the argument of its live block 3.  In \<open>invoke\<close> the operation
  is a branch as well: it forwards its operand to the argument of its successor block 4.
\<close>

definition externalCall :: Env where
  "externalCall =
     emptyEnv
       \<lparr>getNumResults := (\<lambda>_. 0)(2 := 1),
        getOperands := (\<lambda>_. [])(2 := [BlockArgument 3 0]),
        getBlock := (\<lambda>_. 3),
        isCallOp := (\<lambda>op. op = 2),
        isCallableOp := (\<lambda>op. op = 8),
        resolveCallable := (\<lambda>_. None)(2 := Some 8),
        isLive := (\<lambda>point. point = PointBlock 3)\<rparr>"

definition invoke :: Env where
  "invoke =
     externalCall
       \<lparr>getSuccessors := (\<lambda>_. [])(2 := [4]),
        isBranchOp := (\<lambda>op. op = 2),
        getSuccessorOperands :=
          (\<lambda>_ _. \<lparr>getProducedOperandCount = 0,
                   getForwardedOperands = \<lparr>getBeginOperandIndex = 0, rangeSize = 1\<rparr>\<rparr>),
        getBranchSuccessorArgument := forwardedArgument\<rparr>"

text \<open>A state in which the argument of block 4 is known to be the constant 5.\<close>

definition constantArgumentState :: "ConstantValue SolverState" where
  "constantArgumentState =
     initialState\<lparr>latticeValue := (\<lambda>_. Uninitialized)(BlockArgument 4 0 := Constant 5)\<rparr>"

text \<open>
  Operation 2 is a conditional branch in block 3, with the operands \<open>a\<close>, \<open>b\<close> and the
  condition \<open>c\<close>, in this order.  Its first successor, block 4, is handed operand 0, its
  second, block 5, operand 1; the condition is forwarded to neither.
\<close>

definition conditionalBranch :: "bool \<Rightarrow> Env" where
  "conditionalBranch live =
     emptyEnv
       \<lparr>getOperands := (\<lambda>_. [])(2 := [OpResult 6 0, OpResult 7 0, OpResult 8 0]),
        getBlock := (\<lambda>_. 3),
        getSuccessors := (\<lambda>_. [])(2 := [4, 5]),
        getNumArguments := (\<lambda>_. 0)(4 := 1, 5 := 1),
        isBranchOp := (\<lambda>op. op = 2),
        getSuccessorOperands :=
          (\<lambda>_ index. \<lparr>getProducedOperandCount = 0,
                       getForwardedOperands = \<lparr>getBeginOperandIndex = index, rangeSize = 1\<rparr>\<rparr>),
        getBranchSuccessorArgument := forwardedArgument,
        isLive := (\<lambda>point. live \<and> point = PointBlock 3)\<rparr>"

text \<open>
  Operand \<open>j\<close> of a branch lies in the range the branch forwards to its successor \<open>index\<close>,
  and every forwarded range lies inside the operand list (as an operand range does).
\<close>

definition forwardedTo :: "Env \<Rightarrow> Operation \<Rightarrow> nat \<Rightarrow> nat \<Rightarrow> bool" where
  "forwardedTo env op index j =
     (let forwarded = getForwardedOperands (getSuccessorOperands env op index)
      in rangeSize forwarded \<noteq> 0 \<and> getBeginOperandIndex forwarded \<le> j
         \<and> j < getBeginOperandIndex forwarded + rangeSize forwarded)"

definition forwardedRangesInBounds :: "Env \<Rightarrow> Operation \<Rightarrow> bool" where
  "forwardedRangesInBounds env op =
     list_all (\<lambda>index.
         getBeginOperandIndex (getForwardedOperands (getSuccessorOperands env op index))
           + rangeSize (getForwardedOperands (getSuccessorOperands env op index))
         \<le> length (getOperands env op))
       [0..<length (getSuccessors env op)]"

text \<open>
  The conditional branch again, with a \<^verbatim>\<open>getBranchSuccessorArgument\<close> that finds no block
  argument for any operand.
\<close>

definition branchWithoutArguments :: Env where
  "branchWithoutArguments = (conditionalBranch True)\<lparr>getBranchSuccessorArgument := (\<lambda>_ _ _. None)\<rparr>"

text \<open>
  The result of operation 6 is used by the operations 7 and 8.  In the state, block 3
  depends on its lattice for analysis 4, and the analyses 4 and 5 are subscribed to it.
\<close>

definition twoUsers :: Env where
  "twoUsers = emptyEnv\<lparr>getUsers := (\<lambda>_. [])(OpResult 6 0 := [7, 8])\<rparr>"

definition subscribedState :: "ConstantValue SolverState" where
  "subscribedState =
     initialState
       \<lparr>dependents := (\<lambda>_. [])(OpResult 6 0 := [(PointBlock 3, 4)]),
        useDefSubscribers := (\<lambda>_. [])(OpResult 6 0 := [4, 5])\<rparr>"

section \<open>The lattice contract and fixpoints\<close>

text \<open>
  The states of two runs are compared lattice by lattice, in the order \<open>le\<close> of the
  analysis's lattice.
\<close>

definition latticeLe :: "('l \<Rightarrow> 'l \<Rightarrow> bool) \<Rightarrow> (Value \<Rightarrow> 'l) \<Rightarrow> (Value \<Rightarrow> 'l) \<Rightarrow> bool" where
  "latticeLe le f g = (\<forall>v. le (f v) (g v))"

text \<open>
  What the spec asks of a join: \<open>le\<close> is a partial order, and the join is monotone in
  both arguments, never moves the left element down, and is idempotent.
\<close>

definition joinContract :: "('l \<Rightarrow> 'l \<Rightarrow> bool) \<Rightarrow> ('l \<Rightarrow> 'l \<Rightarrow> 'l) \<Rightarrow> bool" where
  "joinContract le join =
     ((\<forall>x. le x x)
      \<and> (\<forall>x y z. le x y \<longrightarrow> le y z \<longrightarrow> le x z)
      \<and> (\<forall>x y. le x y \<longrightarrow> le y x \<longrightarrow> x = y)
      \<and> (\<forall>x y x' y'. le x x' \<longrightarrow> le y y' \<longrightarrow> le (join x y) (join x' y'))
      \<and> (\<forall>x y. le x (join x y))
      \<and> (\<forall>x. join x x = x))"

text \<open>
  The same contract for the other hooks of a forward analysis: the entry state is the
  top element, and the two transfer hooks are monotone in the lattices they read and
  never move a lattice they write down.
\<close>

definition hookContract :: "('l \<Rightarrow> 'l \<Rightarrow> bool) \<Rightarrow> 'l Analysis \<Rightarrow> bool" where
  "hookContract le A =
     ((\<forall>v x. le x (entryState A v))
      \<and> (\<forall>op os rs. list_all2 le rs (forward_visitOperationImpl A op os rs))
      \<and> (\<forall>op os rs os' rs'. list_all2 le os os' \<longrightarrow> list_all2 le rs rs' \<longrightarrow>
            list_all2 le (forward_visitOperationImpl A op os rs) (forward_visitOperationImpl A op os' rs'))
      \<and> (\<forall>op successor ls firstIndex.
            list_all2 le ls (visitNonControlFlowArgumentsImpl A op successor ls firstIndex))
      \<and> (\<forall>op successor ls ls' firstIndex. list_all2 le ls ls' \<longrightarrow>
            list_all2 le (visitNonControlFlowArgumentsImpl A op successor ls firstIndex)
              (visitNonControlFlowArgumentsImpl A op successor ls' firstIndex)))"

text \<open>
  A call reports a change when one of the updates it makes does, and a visit when one of
  its calls does.
\<close>

fun writesReportChange :: "Env \<Rightarrow> (Value \<times> 'l) list \<Rightarrow> 'l SolverState \<Rightarrow> bool" where
  "writesReportChange env [] s = False"
| "writesReportChange env ((v, x) # rest) s =
     (fst (update v x s) = Change \<or> writesReportChange env rest (updateAndPropagate env v x s))"

fun reportsChange :: "'l Analysis \<Rightarrow> Env \<Rightarrow> Effect \<Rightarrow> 'l SolverState \<Rightarrow> bool" where
  "reportsChange A env (Join lhs rhs) s =
     (fst (update lhs (latticeJoin A (latticeValue s lhs) (latticeValue s rhs)) s) = Change)"
| "reportsChange A env (Meet lhs rhs) s =
     (fst (update lhs (latticeMeet A (latticeValue s lhs) (latticeValue s rhs)) s) = Change)"
| "reportsChange A env (SetToEntryState v) s = (fst (update v (entryState A v) s) = Change)"
| "reportsChange A env (SetToExitState v) s = (fst (update v (exitState A v) s) = Change)"
| "reportsChange A env (AddDependency v point) s = False"
| "reportsChange A env (UseDefSubscribe v) s = False"
| "reportsChange A env (GetOrCreateFor dependent point) s = False"
| "reportsChange A env (BlockContentSubscribe point) s = False"
| "reportsChange A env (Forward_visitOperationImpl op operands results) s =
     writesReportChange env
       (zip results (forward_visitOperationImpl A op (map (latticeValue s) operands)
                       (map (latticeValue s) results))) s"
| "reportsChange A env (VisitNonControlFlowArgumentsImpl op successor lattices firstIndex) s =
     writesReportChange env
       (zip lattices (visitNonControlFlowArgumentsImpl A op successor (map (latticeValue s) lattices)
                        firstIndex)) s"
| "reportsChange A env (Backward_visitOperationImpl op operands results) s =
     writesReportChange env
       (zip operands (backward_visitOperationImpl A op (map (latticeValue s) operands)
                        (map (latticeValue s) results))) s"
| "reportsChange A env (VisitBranchOperand op n) s =
     (n < length (getOperands env op)
      \<and> fst (update (getOperands env op ! n)
                (visitBranchOperand A op n (latticeValue s (getOperands env op ! n))) s) = Change)"

fun visitReportsChange :: "'l Analysis \<Rightarrow> Env \<Rightarrow> Effect list \<Rightarrow> 'l SolverState \<Rightarrow> bool" where
  "visitReportsChange A env [] s = False"
| "visitReportsChange A env (e # es) s =
     (reportsChange A env e s \<or> visitReportsChange A env es (exec A env e s))"

text \<open>
  A state has converged when it is a fixpoint of the forward driver: no forward visit of
  any program point changes a lattice value.
\<close>

definition converged :: "'l Analysis \<Rightarrow> Env \<Rightarrow> 'l SolverState \<Rightarrow> bool" where
  "converged A env s =
     (\<forall>point r effects. forward_visit env point = Inr (r, effects) \<longrightarrow>
        latticeValue (run A env effects s) = latticeValue s)"

text \<open>The calls a forward visit makes, with hooks that are handed distinct lattices.\<close>

fun forwardEffect :: "Effect \<Rightarrow> bool" where
  "forwardEffect (Join lhs rhs) = True"
| "forwardEffect (SetToEntryState v) = True"
| "forwardEffect (AddDependency v point) = True"
| "forwardEffect (UseDefSubscribe v) = True"
| "forwardEffect (GetOrCreateFor dependent point) = True"
| "forwardEffect (BlockContentSubscribe point) = True"
| "forwardEffect (Forward_visitOperationImpl op operands results) = distinct results"
| "forwardEffect (VisitNonControlFlowArgumentsImpl op successor lattices firstIndex) = distinct lattices"
| "forwardEffect _ = False"

text \<open>The order of the lattice of constants.\<close>

fun constantLe :: "ConstantValue \<Rightarrow> ConstantValue \<Rightarrow> bool" where
  "constantLe Uninitialized y = True"
| "constantLe x UnknownConstant = True"
| "constantLe (Constant a) (Constant b) = (a = b)"
| "constantLe _ _ = False"

text \<open>
  An analysis whose join is the join of the lattice of constants, but whose hook for the
  arguments that control flow does not determine resets the lattices it is given; every
  operation it transfers yields the constant 5.
\<close>

definition resettingAnalysis :: "ConstantValue Analysis" where
  "resettingAnalysis =
     constantAnalysis
       \<lparr>forward_visitOperationImpl := (\<lambda>op operands results. map (\<lambda>_. Constant 5) results),
        visitNonControlFlowArgumentsImpl :=
          (\<lambda>op successor lattices firstIndex. map (\<lambda>_. Uninitialized) lattices)\<rparr>"

text \<open>
  Operation 2 is a region-branch operation with two results, in the live block 3, next
  to operation 6, which has one result.  The only predecessor of operation 2, the region
  terminator 4, hands the result of operation 6 to the second result of operation 2.
\<close>

definition partialRegionBranch :: Env where
  "partialRegionBranch =
     emptyEnv
       \<lparr>getNumResults := (\<lambda>_. 0)(2 := 2, 6 := 1),
        getOperands := (\<lambda>_. [])(4 := [OpResult 6 0]),
        getBlock := (\<lambda>_. 3),
        isRegionBranchOp := (\<lambda>op. op = 2),
        isRegionBranchTerminatorOp := (\<lambda>op. op = 4),
        getTerminatorSuccessorOperands := (\<lambda>_ _. \<lparr>getBeginOperandIndex = 0, rangeSize = 1\<rparr>),
        isLive := (\<lambda>point. point = PointBlock 3),
        getPredecessorState :=
          (\<lambda>_. emptyPredecessorState)
            (PointOperation 2 :=
               \<lparr>allPredecessorsKnown = True, getKnownPredecessors = [4],
                getPredecessorInputs = (\<lambda>_. [])(4 := [OpResult 2 1])\<rparr>)\<rparr>"

text \<open>The state after the visits of operation 6 and then operation 2.\<close>

definition regionFixpoint :: "ConstantValue SolverState" where
  "regionFixpoint =
     \<lparr>latticeValue = (\<lambda>_. Uninitialized)(OpResult 6 0 := Constant 5, OpResult 2 1 := Constant 5),
      dependents = (\<lambda>_. [])(OpResult 6 0 := [(PointOperation 2, 0)]),
      useDefSubscribers = (\<lambda>_. []), worklist = []\<rparr>"

text \<open>
  Two states of the region-branch example, as two runs of visits leave them: the lattice
  values agree, the queues do not.
\<close>

definition regionBranchFixpoint :: "ConstantValue SolverState" where
  "regionBranchFixpoint =
     \<lparr>latticeValue =
        (\<lambda>_. Uninitialized)(OpResult 6 0 := UnknownConstant, OpResult 2 0 := UnknownConstant),
      dependents = (\<lambda>_. [])(OpResult 6 0 := [(PointOperation 2, 0)]),
      useDefSubscribers = (\<lambda>_. []), worklist = []\<rparr>"

definition regionBranchFixpoint' :: "ConstantValue SolverState" where
  "regionBranchFixpoint' =
     \<lparr>latticeValue =
        (\<lambda>_. Uninitialized)(OpResult 2 0 := UnknownConstant, OpResult 6 0 := UnknownConstant),
      dependents = (\<lambda>_. [])(OpResult 6 0 := [(PointOperation 2, 0)]),
      useDefSubscribers = (\<lambda>_. []), worklist = [(PointOperation 2, 0)]\<rparr>"





text \<open>
  Operation 7 uses the result of operation 6 in two of its operands, operation 8 in one:
  the use list of the value names operation 7 twice.
\<close>

definition repeatedUser :: Env where
  "repeatedUser = emptyEnv\<lparr>getUsers := (\<lambda>_. [])(OpResult 6 0 := [7, 7, 8])\<rparr>"

section \<open>Properties of the solver state\<close>

lemma latticeValue_enqueue [simp]: "latticeValue (enqueue item s) = latticeValue s"
  by (simp add: enqueue_def)

lemma dependents_enqueue [simp]: "dependents (enqueue item s) = dependents s"
  by (simp add: enqueue_def)

lemma useDefSubscribers_enqueue [simp]: "useDefSubscribers (enqueue item s) = useDefSubscribers s"
  by (simp add: enqueue_def)

lemma worklist_enqueue [simp]: "worklist (enqueue item s) = worklist s @ [item]"
  by (simp add: enqueue_def)

lemma fold_enqueue:
  "latticeValue (fold enqueue items s) = latticeValue s \<and>
   dependents (fold enqueue items s) = dependents s \<and>
   useDefSubscribers (fold enqueue items s) = useDefSubscribers s \<and>
   worklist (fold enqueue items s) = worklist s @ items"
  by (induction items arbitrary: s) simp_all

lemma fold_enqueue_map:
  "fold (\<lambda>x. enqueue (f x)) xs s = fold enqueue (map f xs) s"
  by (induction xs arbitrary: s) simp_all

lemma fold_fold_enqueue:
  "fold (\<lambda>x. fold (\<lambda>y. enqueue (f x y)) ys) xs s
     = fold enqueue (concat (map (\<lambda>x. map (f x) ys) xs)) s"
proof (induction xs arbitrary: s)
  case Nil
  show ?case by simp
next
  case (Cons x xs)
  have inner: "fold (\<lambda>y. enqueue (f x y)) ys s = fold enqueue (map (f x) ys) s"
    by (rule fold_enqueue_map)
  have "fold (\<lambda>x. fold (\<lambda>y. enqueue (f x y)) ys) (x # xs) s
          = fold (\<lambda>x. fold (\<lambda>y. enqueue (f x y)) ys) xs (fold (\<lambda>y. enqueue (f x y)) ys s)"
    by simp
  also have "\<dots> = fold enqueue (concat (map (\<lambda>x. map (f x) ys) xs)) (fold enqueue (map (f x) ys) s)"
    unfolding inner by (rule Cons.IH)
  finally show ?case by simp
qed

lemma onUpdate_eq:
  "onUpdate env v s =
     fold enqueue (dependents s v
        @ concat (map (\<lambda>user. map (\<lambda>analysis. (PointOperation user, analysis)) (useDefSubscribers s v))
                    (getUsers env v))) s"
  unfolding onUpdate_def AnalysisState_onUpdate_def fold_fold_enqueue by simp

lemma latticeValue_onUpdate [simp]: "latticeValue (onUpdate env v s) = latticeValue s"
  by (simp add: onUpdate_eq fold_enqueue)

lemma latticeValue_updateAndPropagate [simp]:
  "latticeValue (updateAndPropagate env v x s) = (latticeValue s)(v := x)"
  by (auto simp: updateAndPropagate_def update_def propagateIfChanged_def)


lemma latticeValue_writeLattices_frame:
  "v \<notin> fst ` set pairs \<Longrightarrow> latticeValue (writeLattices env pairs s) v = latticeValue s v"
  by (induction pairs arbitrary: s) auto

lemma exec_frame: "v \<notin> writes env e \<Longrightarrow> latticeValue (exec A env e s) v = latticeValue s v"
  by (cases e) (auto simp: latticeValue_writeLattices_frame Let_def dest!: set_zip_leftD
                     intro!: latticeValue_writeLattices_frame)

lemma run_frame:
  "v \<notin> \<Union>(writes env ` set es) \<Longrightarrow> latticeValue (run A env es s) v = latticeValue s v"
  by (induction es arbitrary: s) (simp_all add: exec_frame)

lemma run_append: "run A env (es @ fs) s = run A env fs (run A env es s)"
  by (induction es arbitrary: s) simp_all

lemma run_setAllToEntryStates:
  "latticeValue (run A env (setAllToEntryStates ls) s) v
     = (if v \<in> set ls then entryState A v else latticeValue s v)"
  by (induction ls arbitrary: s) (auto simp: setAllToEntryStates_def)

lemma run_setAllToExitStates:
  "latticeValue (run A env (setAllToExitStates ls) s) v
     = (if v \<in> set ls then exitState A v else latticeValue s v)"
  by (induction ls arbitrary: s) (auto simp: setAllToExitStates_def)


section \<open>What the forward driver may write\<close>

text \<open>
  A forward visit of an operation writes the lattices of its results only, and a visit
  of a block the lattices of its arguments only.
\<close>

lemma writes_joinFor [simp]: "\<Union>(writes env ` set (joinFor point lhs v)) = {lhs}"
  by (simp add: joinFor_def getLatticeElementFor_def)

lemma writes_setAllToEntryStates [simp]:
  "\<Union>(writes env ` set (setAllToEntryStates ls)) = set ls"
  by (auto simp: setAllToEntryStates_def)

lemma writes_zip_joinFor:
  "\<Union>(writes env ` set (concat (map (\<lambda>(operand, lattice). joinFor point lattice operand) (zip xs ls))))
     \<subseteq> set ls"
  by (auto simp: joinFor_def getLatticeElementFor_def dest: set_zip_rightD)

lemma visitNonControlFlowArguments_writes:
  "visitNonControlFlowArguments env point branch inputs lattices = Inr (firstIndex, hook)
     \<Longrightarrow> \<Union>(writes env ` set hook) \<subseteq> set lattices"
  by (auto simp: visitNonControlFlowArguments_def bindE_def Let_def
           split: if_splits ProgramPoint.splits sum.splits)

lemma visitRegionSuccessors_loop_writes:
  "visitRegionSuccessors_loop env point branch successorIndex lattices predecessors ops = Inr es
     \<Longrightarrow> \<Union>(writes env ` set es) \<subseteq> set lattices"
proof (induction ops arbitrary: es)
  case Nil
  then show ?case by simp
next
  case (Cons op ops)
  show ?case
  proof (cases "op = branch \<or> isRegionBranchTerminatorOp env op")
    case False
    with Cons.prems show ?thesis by (auto simp: setAllToEntryStates_def)
  next
    case True
    define operands where "operands =
      (if op = branch then operandRangeValues env branch (getEntrySuccessorOperands env branch successorIndex)
       else operandRangeValues env op (getTerminatorSuccessorOperands env op successorIndex))"
    from True Cons.prems obtain firstIndex hook dropped rest where
      h: "visitNonControlFlowArguments env point branch (getPredecessorInputs predecessors op) lattices
            = Inr (firstIndex, hook)"
      and d: "drop_front lattices firstIndex = Inr dropped"
      and r: "visitRegionSuccessors_loop env point branch successorIndex lattices predecessors ops = Inr rest"
      and es: "es = hook @ concat (map (\<lambda>(operand, lattice). joinFor point lattice operand)
                                     (zip operands dropped)) @ rest"
      by (auto simp: operands_def Let_def split: if_splits sum.splits prod.splits)
    from d have "set dropped \<subseteq> set lattices"
      by (auto simp: drop_front_def split: if_splits dest: in_set_dropD)
    with writes_zip_joinFor[of env point operands dropped]
    have "\<Union>(writes env ` set (concat (map (\<lambda>(operand, lattice). joinFor point lattice operand)
                                     (zip operands dropped)))) \<subseteq> set lattices"
      by blast
    with visitNonControlFlowArguments_writes[OF h] Cons.IH[OF r] es show ?thesis
      by auto
  qed
qed

lemma forward_visitRegionSuccessors_writes:
  assumes "forward_visitRegionSuccessors env point branch successorIndex lattices = Inr es"
  shows "\<Union>(writes env ` set es) \<subseteq> set lattices"
proof -
  from assms obtain es' where
    loop: "visitRegionSuccessors_loop env point branch successorIndex lattices
             (getPredecessorState env point) (getKnownPredecessors (getPredecessorState env point)) = Inr es'"
    and es: "es = GetOrCreateFor point point # es'"
    by (auto simp: forward_visitRegionSuccessors_def Let_def bindE_def split: if_splits sum.splits)
  from visitRegionSuccessors_loop_writes[OF loop] es show ?thesis by simp
qed

lemma forward_visitOperation_writes:
  assumes "forward_visitOperation env op = Inr es"
  shows "\<Union>(writes env ` set es) \<subseteq> set (getResults env op)"
proof (cases "getNumResults env op = 0 \<or> \<not> isLive env (PointBlock (getBlock env op))")
  case True
  with assms have "es = []" by (auto simp: forward_visitOperation_def split: if_splits)
  then show ?thesis by simp
next
  case live: False
  show ?thesis
  proof (cases "isRegionBranchOp env op")
    case True
    with live assms have
      "forward_visitRegionSuccessors env (PointOperation op) op None (getResults env op) = Inr es"
      by (simp add: forward_visitOperation_def Let_def)
    then show ?thesis by (rule forward_visitRegionSuccessors_writes)
  next
    case notRegion: False
    show ?thesis
    proof (cases "isCallOp env op")
      case True
      show ?thesis
      proof (cases "allPredecessorsKnown (getPredecessorState env (PointOperation op))")
        case False
        with True live notRegion assms
        have "es = GetOrCreateFor (PointOperation op) (PointOperation op)
                     # setAllToEntryStates (getResults env op)"
          by (simp add: forward_visitOperation_def Let_def)
        then show ?thesis by simp
      next
        case known: True
        with True live notRegion assms
        have es: "es = GetOrCreateFor (PointOperation op) (PointOperation op)
                     # concat (map (\<lambda>predecessor.
                          concat (map (\<lambda>(operand, lattice). joinFor (PointOperation op) lattice operand)
                                    (zip (getOperands env predecessor) (getResults env op))))
                        (getKnownPredecessors (getPredecessorState env (PointOperation op))))"
          by (simp add: forward_visitOperation_def Let_def)
        have "\<And>predecessor. \<Union>(writes env ` set (concat (map (\<lambda>(operand, lattice).
                  joinFor (PointOperation op) lattice operand)
                  (zip (getOperands env predecessor) (getResults env op))))) \<subseteq> set (getResults env op)"
          by (rule writes_zip_joinFor)
        then show ?thesis unfolding es by (simp add: UN_subset_iff)
      qed
    next
      case False
      with live notRegion assms
      have "es = map UseDefSubscribe (getOperands env op)
                   @ [Forward_visitOperationImpl op (getOperands env op) (getResults env op)]"
        by (simp add: forward_visitOperation_def Let_def)
      then show ?thesis by auto
    qed
  qed
qed


lemma visitBlock_arguments_writes:
  "visitBlock_arguments env block branch operands pairs = Inr es
     \<Longrightarrow> \<Union>(writes env ` set es) \<subseteq> snd ` set pairs"
proof (induction pairs arbitrary: es)
  case Nil
  then show ?case by simp
next
  case (Cons p pairs)
  obtain idx lattice where p: "p = (idx, lattice)" by (cases p)
  from Cons.prems p obtain operand rest where
    r: "visitBlock_arguments env block branch operands pairs = Inr rest"
    and es: "es = (case operand of Some v \<Rightarrow> joinFor (PointBlock block) lattice v
                   | None \<Rightarrow> setAllToEntryStates [lattice]) @ rest"
    by (auto split: sum.splits)
  have "\<Union>(writes env ` set (case operand of Some v \<Rightarrow> joinFor (PointBlock block) lattice v
                   | None \<Rightarrow> setAllToEntryStates [lattice])) = {lattice}"
    by (cases operand) simp_all
  with Cons.IH[OF r] es p show ?case by auto
qed

lemma visitBlock_predecessors_writes:
  "visitBlock_predecessors env block argLattices preds = Inr es
     \<Longrightarrow> \<Union>(writes env ` set es) \<subseteq> set argLattices"
proof (induction preds arbitrary: es)
  case Nil
  then show ?case by simp
next
  case (Cons p preds)
  obtain predecessor successorIndex where p: "p = (predecessor, successorIndex)" by (cases p)
  show ?case
  proof (cases "isLive env (PointCFGEdge predecessor block)")
    case False
    with Cons.prems p obtain rest where
      r: "visitBlock_predecessors env block argLattices preds = Inr rest"
      and es: "es = BlockContentSubscribe (PointCFGEdge predecessor block) # rest"
      by (auto split: sum.splits)
    from Cons.IH[OF r] es show ?thesis by simp
  next
    case live: True
    show ?thesis
    proof (cases "isBranchOp env (getTerminator env predecessor)")
      case False
      with live Cons.prems p
      have "es = BlockContentSubscribe (PointCFGEdge predecessor block) # setAllToEntryStates argLattices"
        by simp
      then show ?thesis by simp
    next
      case True
      with live Cons.prems p obtain effects rest where
        a: "visitBlock_arguments env block (getTerminator env predecessor)
              (getSuccessorOperands env (getTerminator env predecessor) successorIndex)
              (enumerate 0 argLattices) = Inr effects"
        and r: "visitBlock_predecessors env block argLattices preds = Inr rest"
        and es: "es = BlockContentSubscribe (PointCFGEdge predecessor block) # effects @ rest"
        by (auto simp: Let_def split: sum.splits)
      from visitBlock_arguments_writes[OF a]
      have "\<Union>(writes env ` set effects) \<subseteq> set argLattices" by (auto simp: in_set_enumerate_eq)
      with Cons.IH[OF r] es show ?thesis by auto
    qed
  qed
qed

lemma visitBlock_callsites_writes:
  "visitBlock_callsites env block argLattices callsites = Inr es
     \<Longrightarrow> \<Union>(writes env ` set es) \<subseteq> set argLattices"
proof (induction callsites arbitrary: es)
  case Nil
  then show ?case by simp
next
  case (Cons callsite callsites)
  from Cons.prems obtain rest where
    r: "visitBlock_callsites env block argLattices callsites = Inr rest"
    and es: "es = concat (map (\<lambda>(operand, lattice). joinFor (PointBlock block) lattice operand)
                            (zip (getArgOperands env callsite) argLattices)) @ rest"
    by (auto split: if_splits sum.splits)
  from Cons.IH[OF r] writes_zip_joinFor[of env "PointBlock block" "getArgOperands env callsite" argLattices]
  show ?case unfolding es by auto
qed


lemma forward_visitBlock_writes:
  assumes "forward_visitBlock env block = Inr es"
  shows "\<Union>(writes env ` set es) \<subseteq> set (getArguments env block)"
proof (cases "getNumArguments env block = 0 \<or> \<not> isLive env (PointBlock block)")
  case True
  with assms have "es = []" by (auto simp: forward_visitBlock_def split: if_splits)
  then show ?thesis by simp
next
  case live: False
  show ?thesis
  proof (cases "isEntryBlock env block")
    case False
    with live assms
    have "visitBlock_predecessors env block (getArguments env block) (getBlockPredecessors env block) = Inr es"
      by (simp add: forward_visitBlock_def Let_def)
    then show ?thesis by (rule visitBlock_predecessors_writes)
  next
    case entry: True
    with live assms obtain parent where parent: "getBlockParentOp env block = Some parent"
      by (auto simp: forward_visitBlock_def Let_def split: option.splits)
    show ?thesis
    proof (cases "isCallableOp env parent \<and> getCallableRegion env parent = Some (getParent env block)")
      case callable: True
      show ?thesis
      proof (cases "allPredecessorsKnown (getPredecessorState env (PointOperation parent))")
        case False
        with callable entry live parent assms
        have "es = GetOrCreateFor (PointBlock block) (PointOperation parent)
                     # setAllToEntryStates (getArguments env block)"
          by (simp add: forward_visitBlock_def Let_def)
        then show ?thesis by simp
      next
        case True
        with callable entry live parent assms obtain effects where
          c: "visitBlock_callsites env block (getArguments env block)
                (getKnownPredecessors (getPredecessorState env (PointOperation parent))) = Inr effects"
          and es: "es = GetOrCreateFor (PointBlock block) (PointOperation parent) # effects"
          by (auto simp: forward_visitBlock_def Let_def bindE_def split: sum.splits)
        from visitBlock_callsites_writes[OF c] es show ?thesis by simp
      qed
    next
      case notCallable: False
      show ?thesis
      proof (cases "isRegionBranchOp env parent")
        case True
        with notCallable entry live parent assms
        have "forward_visitRegionSuccessors env (PointBlock block) parent
                (Some (getRegionNumber env (getParent env block))) (getArguments env block) = Inr es"
          by (auto simp: forward_visitBlock_def Let_def)
        then show ?thesis by (rule forward_visitRegionSuccessors_writes)
      next
        case False
        with notCallable entry live parent assms
        have "es = [VisitNonControlFlowArgumentsImpl parent
                      \<lparr>getSuccessor = Some (getParent env block), getSuccessorInputs = []\<rparr>
                      (getArguments env block) 0]"
          by (auto simp: forward_visitBlock_def Let_def)
        then show ?thesis by simp
      qed
    qed
  qed
qed

lemma result_in_getResults: "OpResult op n \<in> set (getResults env op') \<Longrightarrow> op' = op"
  by (auto simp: getResults_def)

lemma forward_visit_preserves_results:
  assumes visit: "forward_visit env point = Inr (r, es)"
    and other: "point \<noteq> PointOperation op"
    and v: "v \<in> set (getResults env op)"
  shows "latticeValue (run A env es s) v = latticeValue s v"
proof -
  obtain n where vn: "v = OpResult op n" using v by (auto simp: getResults_def)
  have "v \<notin> \<Union>(writes env ` set es)"
  proof (cases point)
    case (PointOperation op')
    with visit have "forward_visitOperation env op' = Inr es"
      by (auto simp: forward_visit_def bindE_def split: sum.splits)
    from forward_visitOperation_writes[OF this] other PointOperation vn show ?thesis
      by (auto dest: result_in_getResults)
  next
    case (PointBlock block)
    with visit have "forward_visitBlock env block = Inr es"
      by (auto simp: forward_visit_def bindE_def split: sum.splits)
    from forward_visitBlock_writes[OF this] vn show ?thesis
      by (auto simp: getArguments_def)
  next
    case (PointValue x)
    with visit show ?thesis by (auto simp: forward_visit_def)
  next
    case (PointCFGEdge a b)
    with visit show ?thesis by (auto simp: forward_visit_def)
  qed
  then show ?thesis by (rule run_frame)
qed

section \<open>Calls whose return sites are not all known\<close>

lemma forward_visitOperation_unresolved_call:
  assumes "isCallOp env op" "\<not> isRegionBranchOp env op"
    and "isLive env (PointBlock (getBlock env op))"
    and "\<not> allPredecessorsKnown (getPredecessorState env (PointOperation op))"
  shows "forward_visitOperation env op =
           Inr (if getNumResults env op = 0 then []
                else GetOrCreateFor (PointOperation op) (PointOperation op)
                       # setAllToEntryStates (getResults env op))"
  using assms by (simp add: forward_visitOperation_def Let_def)

lemma unresolved_call_results_stay_entry:
  assumes call: "isCallOp env op" "\<not> isRegionBranchOp env op"
    "isLive env (PointBlock (getBlock env op))"
    "\<not> allPredecessorsKnown (getPredecessorState env (PointOperation op))"
  shows "forward_visits A env points s = Some s'
     \<Longrightarrow> PointOperation op \<in> set points \<or> (\<forall>v \<in> set (getResults env op). latticeValue s v = entryState A v)
     \<Longrightarrow> \<forall>v \<in> set (getResults env op). latticeValue s' v = entryState A v"
proof (induction points arbitrary: s)
  case Nil
  then show ?case by simp
next
  case (Cons point points)
  from Cons.prems(1) obtain es where
    visit: "forward_visit env point = Inr (success, es)"
    and rest: "forward_visits A env points (run A env es s) = Some s'"
    by (auto split: sum.splits prod.splits LogicalResult.splits)
  show ?case
  proof (cases "point = PointOperation op")
    case True
    with visit forward_visitOperation_unresolved_call[OF call]
    have es: "es = (if getNumResults env op = 0 then []
                else GetOrCreateFor (PointOperation op) (PointOperation op)
                       # setAllToEntryStates (getResults env op))"
      by (auto simp: forward_visit_def bindE_def)
    have "\<forall>v \<in> set (getResults env op). latticeValue (run A env es s) v = entryState A v"
      unfolding es by (auto simp: run_setAllToEntryStates getResults_def)
    with Cons.IH[OF rest] show ?thesis by blast
  next
    case False
    from forward_visit_preserves_results[OF visit False]
    have same: "\<forall>v \<in> set (getResults env op). latticeValue (run A env es s) v = latticeValue s v"
      by blast
    from Cons.prems(2) False
    have "PointOperation op \<in> set points
            \<or> (\<forall>v \<in> set (getResults env op). latticeValue (run A env es s) v = entryState A v)"
      using same by auto
    with Cons.IH[OF rest] show ?thesis by blast
  qed
qed


text \<open>
  Claim C1, as amended.  A forward visit of a call operation that lies in a live block,
  is not also a region-branch operation, and whose predecessors (return sites) are not
  all known, registers with the predecessor state and sets every result lattice to the
  entry state, and does nothing else.  With the states of the dead-code analysis held
  fixed, the result lattices then equal the entry state at the end of every run of
  forward visits that visits the call at least once, whatever the other visits and their
  order: no other visit writes them.
\<close>

theorem C1_unresolved_call_results_entry_state:
  assumes "isCallOp env op" and "\<not> isRegionBranchOp env op"
    and "isLive env (PointBlock (getBlock env op))"
    and "\<not> allPredecessorsKnown (getPredecessorState env (PointOperation op))"
  shows "forward_visitOperation env op =
           Inr (if getNumResults env op = 0 then []
                else GetOrCreateFor (PointOperation op) (PointOperation op)
                       # setAllToEntryStates (getResults env op))
         \<and> (\<forall>points s s'. PointOperation op \<in> set points
               \<longrightarrow> forward_visits A env points s = Some s'
               \<longrightarrow> (\<forall>v \<in> set (getResults env op). latticeValue s' v = entryState A v))"
  using forward_visitOperation_unresolved_call[OF assms]
    unresolved_call_results_stay_entry[OF assms, of A]
  by blast

lemma unresolvedCall_visit:
  "forward_visitOperation (unresolvedCall True) 2 =
     Inr [GetOrCreateFor (PointOperation 2) (PointOperation 2), SetToEntryState (OpResult 2 0)]"
  by (simp add: forward_visitOperation_def unresolvedCall_def emptyEnv_def getResults_def
        emptyPredecessorState_def setAllToEntryStates_def)

theorem C1_witness:
  "isCallOp (unresolvedCall True) 2 \<and> \<not> isRegionBranchOp (unresolvedCall True) 2
   \<and> isLive (unresolvedCall True) (PointBlock (getBlock (unresolvedCall True) 2))
   \<and> \<not> allPredecessorsKnown (getPredecessorState (unresolvedCall True) (PointOperation 2))
   \<and> forward_visitOperation (unresolvedCall True) 2 =
        Inr [GetOrCreateFor (PointOperation 2) (PointOperation 2), SetToEntryState (OpResult 2 0)]
   \<and> forward_visits constantAnalysis (unresolvedCall True) [PointOperation 2, PointBlock 3] initialState
        = Some (initialState\<lparr>latticeValue := (\<lambda>_. Uninitialized)(OpResult 2 0 := UnknownConstant)\<rparr>)
   \<and> latticeValue (initialState\<lparr>latticeValue := (\<lambda>_. Uninitialized)(OpResult 2 0 := UnknownConstant)\<rparr>)
        (OpResult 2 0) = entryState constantAnalysis (OpResult 2 0)"
proof -
  have h: "isCallOp (unresolvedCall True) 2" "\<not> isRegionBranchOp (unresolvedCall True) 2"
    "isLive (unresolvedCall True) (PointBlock (getBlock (unresolvedCall True) 2))"
    "\<not> allPredecessorsKnown (getPredecessorState (unresolvedCall True) (PointOperation 2))"
    by (simp_all add: unresolvedCall_def emptyEnv_def emptyPredecessorState_def)
  have v1: "forward_visit (unresolvedCall True) (PointOperation 2) =
              Inr (success, [GetOrCreateFor (PointOperation 2) (PointOperation 2),
                             SetToEntryState (OpResult 2 0)])"
    by (simp add: forward_visit_def bindE_def unresolvedCall_visit)
  have v2: "forward_visit (unresolvedCall True) (PointBlock 3) = Inr (success, [])"
    by (simp add: forward_visit_def bindE_def forward_visitBlock_def unresolvedCall_def emptyEnv_def)
  have run: "forward_visits constantAnalysis (unresolvedCall True) [PointOperation 2, PointBlock 3] initialState
        = Some (initialState\<lparr>latticeValue := (\<lambda>_. Uninitialized)(OpResult 2 0 := UnknownConstant)\<rparr>)"
    by (simp add: v1 v2 updateAndPropagate_def update_def propagateIfChanged_def onUpdate_def
          AnalysisState_onUpdate_def constantAnalysis_def initialState_def)
       (simp add: unresolvedCall_def emptyEnv_def)
  from C1_unresolved_call_results_entry_state[OF h, of constantAnalysis] run
  have "latticeValue (initialState\<lparr>latticeValue := (\<lambda>_. Uninitialized)(OpResult 2 0 := UnknownConstant)\<rparr>)
          (OpResult 2 0) = entryState constantAnalysis (OpResult 2 0)"
    by (simp add: constantAnalysis_def)
  with h run unresolvedCall_visit show ?thesis by simp
qed

text \<open>
  The claim as stated also covers a call in a block that is not live.  There the visit
  bails out first and the result lattice keeps its uninitialized value, which is not the
  entry state.
\<close>

theorem C1_counterexample:
  "isCallOp (unresolvedCall False) 2
   \<and> \<not> allPredecessorsKnown (getPredecessorState (unresolvedCall False) (PointOperation 2))
   \<and> forward_visitOperation (unresolvedCall False) 2 = Inr []
   \<and> forward_visits constantAnalysis (unresolvedCall False) [PointOperation 2] initialState
        = Some initialState
   \<and> latticeValue initialState (OpResult 2 0) \<noteq> entryState constantAnalysis (OpResult 2 0)"
  by (simp add: forward_visit_def bindE_def forward_visitOperation_def unresolvedCall_def
        emptyEnv_def emptyPredecessorState_def constantAnalysis_def initialState_def)

section \<open>Dead code\<close>

text \<open>
  Claim C6.  A visit of an operation whose block is not live makes no call at all and
  leaves the whole state as it was, in the forward and in the backward driver; so does
  the forward visit of a block that is not live.
\<close>

theorem C6_dead_code_isolation:
  "(\<not> isLive env (PointBlock (getBlock env op)) \<longrightarrow>
      forward_visitOperation env op = Inr [] \<and> backward_visitOperation env op = Inr []
      \<and> runVisit A env (forward_visitOperation env op) s = Some s
      \<and> runVisit A env (backward_visitOperation env op) s = Some s)
   \<and> (\<not> isLive env (PointBlock block) \<longrightarrow>
      forward_visitBlock env block = Inr []
      \<and> runVisit A env (forward_visitBlock env block) s = Some s)"
  by (simp add: forward_visitOperation_def backward_visitOperation_def forward_visitBlock_def
        runVisit_def)

theorem C6_witness:
  "\<not> isLive (unresolvedCall False) (PointBlock (getBlock (unresolvedCall False) 2))
   \<and> \<not> isLive (unresolvedCall False) (PointBlock 3)
   \<and> forward_visitOperation (unresolvedCall False) 2 = Inr []
   \<and> backward_visitOperation (unresolvedCall False) 2 = Inr []
   \<and> forward_visitBlock (unresolvedCall False) 3 = Inr []
   \<and> runVisit constantAnalysis (unresolvedCall False) (forward_visitOperation (unresolvedCall False) 2)
        initialState = Some initialState
   \<and> runVisit constantAnalysis (unresolvedCall False) (backward_visitOperation (unresolvedCall False) 2)
        initialState = Some initialState
   \<and> runVisit constantAnalysis (unresolvedCall False) (forward_visitBlock (unresolvedCall False) 3)
        initialState = Some initialState"
proof -
  have dead: "\<not> isLive (unresolvedCall False) (PointBlock (getBlock (unresolvedCall False) 2))"
    "\<not> isLive (unresolvedCall False) (PointBlock 3)"
    by (simp_all add: unresolvedCall_def emptyEnv_def)
  with C6_dead_code_isolation[of "unresolvedCall False" 2 constantAnalysis initialState 3]
  show ?thesis by (simp add: runVisit_def)
qed

section \<open>Unresolved control flow in the forward driver\<close>































section \<open>Returns and calls in the backward driver\<close>

lemma getLatticeElementsFor_eq:
  "getLatticeElementsFor point vs = map (\<lambda>v. AddDependency v point) vs"
  by (induction vs) (simp_all add: getLatticeElementsFor_def getLatticeElementFor_def)

lemma run_AddDependency:
  "latticeValue (run A env (map (\<lambda>v. AddDependency v point) vs) s) = latticeValue s
   \<and> worklist (run A env (map (\<lambda>v. AddDependency v point) vs) s) = worklist s
   \<and> useDefSubscribers (run A env (map (\<lambda>v. AddDependency v point) vs) s) = useDefSubscribers s"
  by (induction vs arbitrary: s) simp_all

lemma backward_visitOperation_returnLike_callable:
  assumes "hasTraitReturnLike env op" "getParentOp env op = Some callable" "isCallableOp env callable"
  shows "backward_visitOperation_returnLike env op =
     Inr (GetOrCreateFor (PointOperation op) (PointOperation callable) #
       (if allPredecessorsKnown (getPredecessorState env (PointOperation callable)) then
          concat (map (\<lambda>call.
              getLatticeElementsFor (PointOperation op) (getResults env call)
              @ map (\<lambda>(operand, result). Meet operand result)
                  (zip (getOperands env op) (getResults env call)))
            (getKnownPredecessors (getPredecessorState env (PointOperation callable))))
        else setAllToExitStates (getOperands env op)))"
  using assms by (simp add: backward_visitOperation_returnLike_def Let_def)

lemma backward_visitOperation_reaches_returnLike:
  assumes "isLive env (PointBlock (getBlock env op))"
    and "\<not> isRegionBranchOp env op" and "\<not> isBranchOp env op"
    and "\<not> (isCallOp env op \<and> (\<exists>c. resolveCallable env op = Some c \<and> isCallableOp env c))"
    and "getParentOp env op = Some parent"
    and "\<not> (isRegionBranchTerminatorOp env op \<and> isRegionBranchOp env parent)"
  shows "backward_visitOperation env op =
           bindE (backward_visitOperation_returnLike env op)
             (\<lambda>effects. Inr (getLatticeElementsFor (PointOperation op) (getResults env op) @ effects))"
proof -
  from assms(4) have "backward_visitOperation_call env op = backward_visitOperation_terminator env op"
    by (auto simp: backward_visitOperation_call_def split: option.splits)
  moreover from assms(5,6)
  have "backward_visitOperation_terminator env op = backward_visitOperation_returnLike env op"
    by (auto simp: backward_visitOperation_terminator_def)
  ultimately show ?thesis using assms(1,2,3) by (simp add: backward_visitOperation_def)
qed

lemma Meet_in_zip:
  assumes "i < length xs" "i < length ys"
  shows "Meet (xs ! i) (ys ! i) \<in> set (map (\<lambda>(operand, result). Meet operand result) (zip xs ys))"
proof -
  from assms have "(xs ! i, ys ! i) \<in> set (zip xs ys)"
    by (auto simp: set_zip)
  then show ?thesis by force
qed

text \<open>
  Claim C4, as amended.  A backward visit of a return-like operation in a live block,
  under a callable parent, that is taken by none of the earlier cases of
  \<^verbatim>\<open>visitOperation\<close> (it is no region-branch operation, no branch, no call with a callee
  that resolves to a callable operation, no region terminator under a region-branch
  parent): when all call sites of the callable are known, the visit meets, for every
  known call site in turn, each operand lattice with the lattice of the result of the
  call site at the same position, and sets nothing to the exit state; when they are not
  all known, it sets every operand lattice to the exit state, and every operand lattice
  holds the exit state afterwards.
\<close>

theorem C4_return_like_at_function_scope:
  assumes "isLive env (PointBlock (getBlock env op))"
    and "\<not> isRegionBranchOp env op" and "\<not> isBranchOp env op"
    and "\<not> (isCallOp env op \<and> (\<exists>c. resolveCallable env op = Some c \<and> isCallableOp env c))"
    and "hasTraitReturnLike env op"
    and "getParentOp env op = Some callable" and "isCallableOp env callable"
    and "\<not> (isRegionBranchTerminatorOp env op \<and> isRegionBranchOp env callable)"
  shows "\<exists>effects. backward_visitOperation env op = Inr effects
     \<and> (allPredecessorsKnown (getPredecessorState env (PointOperation callable)) \<longrightarrow>
          effects =
            getLatticeElementsFor (PointOperation op) (getResults env op)
            @ GetOrCreateFor (PointOperation op) (PointOperation callable)
            # concat (map (\<lambda>call.
                  getLatticeElementsFor (PointOperation op) (getResults env call)
                  @ map (\<lambda>(operand, result). Meet operand result)
                      (zip (getOperands env op) (getResults env call)))
                (getKnownPredecessors (getPredecessorState env (PointOperation callable))))
          \<and> (\<forall>call \<in> set (getKnownPredecessors (getPredecessorState env (PointOperation callable))).
               \<forall>i. i < length (getOperands env op) \<and> i < getNumResults env call \<longrightarrow>
                 Meet (getOperands env op ! i) (OpResult call i) \<in> set effects)
          \<and> (\<forall>v. SetToExitState v \<notin> set effects))
     \<and> (\<not> allPredecessorsKnown (getPredecessorState env (PointOperation callable)) \<longrightarrow>
          effects =
            getLatticeElementsFor (PointOperation op) (getResults env op)
            @ GetOrCreateFor (PointOperation op) (PointOperation callable)
            # setAllToExitStates (getOperands env op)
          \<and> (\<forall>s. \<forall>v \<in> set (getOperands env op).
                latticeValue (run A env effects s) v = exitState A v))"
proof (cases "allPredecessorsKnown (getPredecessorState env (PointOperation callable))")
  case known: True
  define effects where "effects =
      getLatticeElementsFor (PointOperation op) (getResults env op)
      @ GetOrCreateFor (PointOperation op) (PointOperation callable)
      # concat (map (\<lambda>call.
            getLatticeElementsFor (PointOperation op) (getResults env call)
            @ map (\<lambda>(operand, result). Meet operand result)
                (zip (getOperands env op) (getResults env call)))
          (getKnownPredecessors (getPredecessorState env (PointOperation callable))))"
  have visit: "backward_visitOperation env op = Inr effects"
    unfolding backward_visitOperation_reaches_returnLike[OF assms(1,2,3,4,6,8)]
      backward_visitOperation_returnLike_callable[OF assms(5,6,7)] effects_def
    using known by (simp add: bindE_def)
  have meets: "Meet (getOperands env op ! i) (OpResult call i) \<in> set effects"
    if "call \<in> set (getKnownPredecessors (getPredecessorState env (PointOperation callable)))"
      and "i < length (getOperands env op)" and "i < getNumResults env call" for call i
  proof -
    from that(2,3) Meet_in_zip[of i "getOperands env op" "getResults env call"]
    have "Meet (getOperands env op ! i) (OpResult call i)
            \<in> set (map (\<lambda>(operand, result). Meet operand result)
                      (zip (getOperands env op) (getResults env call)))"
      by (simp add: getResults_def)
    with that(1) show ?thesis unfolding effects_def by auto
  qed
  have "SetToExitState v \<notin> set effects" for v
    unfolding effects_def by (auto simp: getLatticeElementsFor_eq)
  with visit meets known effects_def show ?thesis by blast
next
  case unknown: False
  define effects where "effects =
      getLatticeElementsFor (PointOperation op) (getResults env op)
      @ GetOrCreateFor (PointOperation op) (PointOperation callable)
      # setAllToExitStates (getOperands env op)"
  have visit: "backward_visitOperation env op = Inr effects"
    unfolding backward_visitOperation_reaches_returnLike[OF assms(1,2,3,4,6,8)]
      backward_visitOperation_returnLike_callable[OF assms(5,6,7)] effects_def
    using unknown by (simp add: bindE_def)
  have "latticeValue (run A env effects s) v = exitState A v" if "v \<in> set (getOperands env op)" for s v
    using that unfolding effects_def by (simp add: run_append run_setAllToExitStates)
  with visit unknown effects_def show ?thesis by blast
qed


lemma returnProgram_known:
  "backward_visitOperation (returnProgram True True) 7 =
     Inr [GetOrCreateFor (PointOperation 7) (PointOperation 2),
          AddDependency (OpResult 8 0) (PointOperation 7), Meet (OpResult 6 0) (OpResult 8 0),
          AddDependency (OpResult 9 0) (PointOperation 7), Meet (OpResult 6 0) (OpResult 9 0)]"
  by (simp add: backward_visitOperation_def backward_visitOperation_call_def
        backward_visitOperation_terminator_def backward_visitOperation_returnLike_def bindE_def
        returnProgram_def emptyEnv_def getResults_def getLatticeElementsFor_def
        getLatticeElementFor_def)

lemma returnProgram_unknown:
  "backward_visitOperation (returnProgram True False) 7 =
     Inr [GetOrCreateFor (PointOperation 7) (PointOperation 2), SetToExitState (OpResult 6 0)]"
  by (simp add: backward_visitOperation_def backward_visitOperation_call_def
        backward_visitOperation_terminator_def backward_visitOperation_returnLike_def bindE_def
        returnProgram_def emptyEnv_def getResults_def getLatticeElementsFor_def
        getLatticeElementFor_def setAllToExitStates_def)

theorem C4_witness:
  "isLive (returnProgram True True) (PointBlock (getBlock (returnProgram True True) 7))
   \<and> \<not> isRegionBranchOp (returnProgram True True) 7 \<and> \<not> isBranchOp (returnProgram True True) 7
   \<and> \<not> isCallOp (returnProgram True True) 7
   \<and> hasTraitReturnLike (returnProgram True True) 7
   \<and> getParentOp (returnProgram True True) 7 = Some 2 \<and> isCallableOp (returnProgram True True) 2
   \<and> \<not> isRegionBranchTerminatorOp (returnProgram True True) 7
   \<and> allPredecessorsKnown (getPredecessorState (returnProgram True True) (PointOperation 2))
   \<and> backward_visitOperation (returnProgram True True) 7 =
       Inr [GetOrCreateFor (PointOperation 7) (PointOperation 2),
            AddDependency (OpResult 8 0) (PointOperation 7), Meet (OpResult 6 0) (OpResult 8 0),
            AddDependency (OpResult 9 0) (PointOperation 7), Meet (OpResult 6 0) (OpResult 9 0)]
   \<and> isLive (returnProgram True False) (PointBlock (getBlock (returnProgram True False) 7))
   \<and> hasTraitReturnLike (returnProgram True False) 7
   \<and> getParentOp (returnProgram True False) 7 = Some 2 \<and> isCallableOp (returnProgram True False) 2
   \<and> \<not> allPredecessorsKnown (getPredecessorState (returnProgram True False) (PointOperation 2))
   \<and> backward_visitOperation (returnProgram True False) 7 =
       Inr [GetOrCreateFor (PointOperation 7) (PointOperation 2), SetToExitState (OpResult 6 0)]
   \<and> latticeValue
        (run constantAnalysis (returnProgram True False)
           [GetOrCreateFor (PointOperation 7) (PointOperation 2), SetToExitState (OpResult 6 0)]
           initialState) (OpResult 6 0) = exitState constantAnalysis (OpResult 6 0)"
proof -
  have k: "isLive (returnProgram True True) (PointBlock (getBlock (returnProgram True True) 7))"
    "\<not> isRegionBranchOp (returnProgram True True) 7" "\<not> isBranchOp (returnProgram True True) 7"
    "\<not> (isCallOp (returnProgram True True) 7
        \<and> (\<exists>c. resolveCallable (returnProgram True True) 7 = Some c \<and> isCallableOp (returnProgram True True) c))"
    "hasTraitReturnLike (returnProgram True True) 7"
    "getParentOp (returnProgram True True) 7 = Some 2" "isCallableOp (returnProgram True True) 2"
    "\<not> (isRegionBranchTerminatorOp (returnProgram True True) 7 \<and> isRegionBranchOp (returnProgram True True) 2)"
    by (simp_all add: returnProgram_def emptyEnv_def)
  have u: "isLive (returnProgram True False) (PointBlock (getBlock (returnProgram True False) 7))"
    "\<not> isRegionBranchOp (returnProgram True False) 7" "\<not> isBranchOp (returnProgram True False) 7"
    "\<not> (isCallOp (returnProgram True False) 7
        \<and> (\<exists>c. resolveCallable (returnProgram True False) 7 = Some c \<and> isCallableOp (returnProgram True False) c))"
    "hasTraitReturnLike (returnProgram True False) 7"
    "getParentOp (returnProgram True False) 7 = Some 2" "isCallableOp (returnProgram True False) 2"
    "\<not> (isRegionBranchTerminatorOp (returnProgram True False) 7 \<and> isRegionBranchOp (returnProgram True False) 2)"
    by (simp_all add: returnProgram_def emptyEnv_def)
  have more: "\<not> isCallOp (returnProgram True True) 7"
    "\<not> isRegionBranchTerminatorOp (returnProgram True True) 7"
    "allPredecessorsKnown (getPredecessorState (returnProgram True True) (PointOperation 2))"
    "\<not> allPredecessorsKnown (getPredecessorState (returnProgram True False) (PointOperation 2))"
    "OpResult 6 0 \<in> set (getOperands (returnProgram True False) 7)"
    by (simp_all add: returnProgram_def emptyEnv_def)
  from C4_return_like_at_function_scope[OF u, of constantAnalysis] more(4,5) returnProgram_unknown
  have "latticeValue
        (run constantAnalysis (returnProgram True False)
           [GetOrCreateFor (PointOperation 7) (PointOperation 2), SetToExitState (OpResult 6 0)]
           initialState) (OpResult 6 0) = exitState constantAnalysis (OpResult 6 0)"
    by (metis sum.inject(2))
  with C4_return_like_at_function_scope[OF k, of constantAnalysis] k u more
    returnProgram_known returnProgram_unknown
  show ?thesis by blast
qed

text \<open>
  The claim as stated also covers a return in a block that is not live.  There the visit
  bails out first: with all call sites known it meets nothing, and with unknown call
  sites the operand lattice keeps its value, which is not the exit state.
\<close>

theorem C4_counterexample:
  "hasTraitReturnLike (returnProgram False True) 7
   \<and> getParentOp (returnProgram False True) 7 = Some 2 \<and> isCallableOp (returnProgram False True) 2
   \<and> allPredecessorsKnown (getPredecessorState (returnProgram False True) (PointOperation 2))
   \<and> getKnownPredecessors (getPredecessorState (returnProgram False True) (PointOperation 2)) = [8, 9]
   \<and> backward_visitOperation (returnProgram False True) 7 = Inr []
   \<and> hasTraitReturnLike (returnProgram False False) 7
   \<and> getParentOp (returnProgram False False) 7 = Some 2 \<and> isCallableOp (returnProgram False False) 2
   \<and> \<not> allPredecessorsKnown (getPredecessorState (returnProgram False False) (PointOperation 2))
   \<and> runVisit constantAnalysis (returnProgram False False)
        (backward_visitOperation (returnProgram False False) 7) initialState = Some initialState
   \<and> latticeValue initialState (OpResult 6 0) \<noteq> exitState constantAnalysis (OpResult 6 0)"
  by (simp add: backward_visitOperation_def runVisit_def returnProgram_def emptyEnv_def
        constantAnalysis_def initialState_def)

text \<open>
  Claim C9, as amended.  A backward visit of a call operation that is neither a
  region-branch operation nor a branch, and whose callee resolves to a callable operation
  with no callable region or an empty one, only registers the operation as a dependent
  of its own result lattices (and nothing at all in a block that is not live): it meets
  nothing, sets nothing to the exit state, does not call the transfer function, and
  leaves every lattice value and the work list as they were.
\<close>

theorem C9_call_of_a_declaration:
  assumes "isCallOp env op" and "resolveCallable env op = Some callable"
    and "isCallableOp env callable"
    and "case getCallableRegion env callable of None \<Rightarrow> True | Some region \<Rightarrow> getBlocks env region = []"
    and "\<not> isRegionBranchOp env op" and "\<not> isBranchOp env op"
  shows "backward_visitOperation env op =
           Inr (if isLive env (PointBlock (getBlock env op))
                then map (\<lambda>v. AddDependency v (PointOperation op)) (getResults env op) else [])
         \<and> (\<exists>s'. runVisit A env (backward_visitOperation env op) s = Some s'
                \<and> latticeValue s' = latticeValue s \<and> worklist s' = worklist s)"
proof -
  from assms(1,2,3,4) have "backward_visitOperation_call env op = Inr []"
    by (auto simp: backward_visitOperation_call_def split: option.splits list.splits)
  with assms(5,6)
  have visit: "backward_visitOperation env op =
           Inr (if isLive env (PointBlock (getBlock env op))
                then map (\<lambda>v. AddDependency v (PointOperation op)) (getResults env op) else [])"
    by (simp add: backward_visitOperation_def bindE_def getLatticeElementsFor_eq)
  show ?thesis unfolding visit by (simp add: runVisit_def run_AddDependency)
qed

theorem C9_witness:
  "isCallOp externalCall 2 \<and> resolveCallable externalCall 2 = Some 8 \<and> isCallableOp externalCall 8
   \<and> getCallableRegion externalCall 8 = None
   \<and> \<not> isRegionBranchOp externalCall 2 \<and> \<not> isBranchOp externalCall 2
   \<and> backward_visitOperation externalCall 2 = Inr [AddDependency (OpResult 2 0) (PointOperation 2)]
   \<and> map_option latticeValue
        (runVisit constantAnalysis externalCall (backward_visitOperation externalCall 2)
           constantArgumentState) = Some (latticeValue constantArgumentState)"
proof -
  have h: "isCallOp externalCall 2" "resolveCallable externalCall 2 = Some 8"
    "isCallableOp externalCall 8"
    "case getCallableRegion externalCall 8 of None \<Rightarrow> True
       | Some region \<Rightarrow> getBlocks externalCall region = []"
    "\<not> isRegionBranchOp externalCall 2" "\<not> isBranchOp externalCall 2"
    by (simp_all add: externalCall_def emptyEnv_def)
  have more: "getCallableRegion externalCall 8 = None"
    "isLive externalCall (PointBlock (getBlock externalCall 2))"
    "getResults externalCall 2 = [OpResult 2 0]"
    by (simp_all add: externalCall_def emptyEnv_def getResults_def)
  from C9_call_of_a_declaration[OF h, of constantAnalysis constantArgumentState] h more
  show ?thesis by auto
qed

text \<open>
  The claim as stated also covers a call that is a branch as well, as an invoke is.
  The branch case comes first in \<^verbatim>\<open>visitOperation\<close>: the operand forwarded to the
  successor block is met with the block argument, and its lattice changes.
\<close>

theorem C9_counterexample:
  "isCallOp invoke 2 \<and> resolveCallable invoke 2 = Some 8 \<and> isCallableOp invoke 8
   \<and> getCallableRegion invoke 8 = None
   \<and> backward_visitOperation invoke 2 =
       Inr [AddDependency (OpResult 2 0) (PointOperation 2),
            AddDependency (BlockArgument 4 0) (PointOperation 2),
            Meet (BlockArgument 3 0) (BlockArgument 4 0)]
   \<and> latticeValue constantArgumentState (BlockArgument 3 0) = Uninitialized
   \<and> map_option (\<lambda>s. latticeValue s (BlockArgument 3 0))
        (runVisit constantAnalysis invoke (backward_visitOperation invoke 2) constantArgumentState)
       = Some (Constant 5)"
proof -
  have visit: "backward_visitOperation invoke 2 =
       Inr [AddDependency (OpResult 2 0) (PointOperation 2),
            AddDependency (BlockArgument 4 0) (PointOperation 2),
            Meet (BlockArgument 3 0) (BlockArgument 4 0)]"
    by (simp add: backward_visitOperation_def backward_visitBranch_def bindE_def invoke_def
          externalCall_def emptyEnv_def getResults_def getLatticeElementsFor_def
          getLatticeElementFor_def enumerate_eq_zip slice_def getOpOperands_def
          forwardedArgument_def meetFor_def set_bits_def)
  show ?thesis unfolding visit
    by (simp add: runVisit_def constantArgumentState_def initialState_def constantAnalysis_def)
       (simp add: invoke_def externalCall_def emptyEnv_def)
qed

section \<open>Updates of a lattice element\<close>

lemma count_list_users_subscribers:
  "count_list (concat (map (\<lambda>user. map (\<lambda>analysis. (PointOperation user, analysis)) subscribers) users))
     (PointOperation user, analysis)
   = count_list users user * count_list subscribers analysis"
proof (induction users)
  case Nil
  show ?case by simp
next
  case (Cons u users)
  have inner: "count_list (map (\<lambda>analysis. (PointOperation u, analysis)) subscribers)
                 (PointOperation user, analysis)
               = (if u = user then count_list subscribers analysis else 0)"
    by (induction subscribers) auto
  from Cons inner show ?case by simp
qed

lemma count_list_distinct_member: "distinct xs \<Longrightarrow> x \<in> set xs \<Longrightarrow> count_list xs x = 1"
  by (induction xs) (auto simp: count_list_0_iff)

text \<open>
  Claim C8, as amended.  A change of the value of a lattice element is propagated through
  \<^verbatim>\<open>onUpdate\<close>, and \<^verbatim>\<open>onUpdate\<close> appends to the queue of the solver, after the work items
  of the base class, one work item for every entry of the use list of the value (in its
  order) and every use-def subscriber of the element.  So every operation that uses the
  value is enqueued for every subscribed analysis, as often as it occurs in the use list
  times the analysis occurs among the subscribers: once for each operand in which it uses
  the value, and exactly once where neither the use list nor the subscribers repeat an
  entry.  Nothing else changes.
\<close>

theorem C8_onUpdate_enqueues_users:
  "worklist (onUpdate env v s) =
     worklist (AnalysisState_onUpdate v s)
     @ concat (map (\<lambda>user. map (\<lambda>analysis. (PointOperation user, analysis)) (useDefSubscribers s v))
                 (getUsers env v))
   \<and> (\<forall>user \<in> set (getUsers env v). \<forall>analysis \<in> set (useDefSubscribers s v).
        (PointOperation user, analysis) \<in> set (worklist (onUpdate env v s)))
   \<and> count_list (drop (length (worklist (AnalysisState_onUpdate v s))) (worklist (onUpdate env v s)))
        (PointOperation user, analysis)
      = count_list (getUsers env v) user * count_list (useDefSubscribers s v) analysis
   \<and> (distinct (getUsers env v) \<and> distinct (useDefSubscribers s v)
        \<and> user \<in> set (getUsers env v) \<and> analysis \<in> set (useDefSubscribers s v) \<longrightarrow>
      count_list (drop (length (worklist (AnalysisState_onUpdate v s))) (worklist (onUpdate env v s)))
        (PointOperation user, analysis) = 1)
   \<and> latticeValue (onUpdate env v s) = latticeValue s
   \<and> dependents (onUpdate env v s) = dependents s
   \<and> useDefSubscribers (onUpdate env v s) = useDefSubscribers s
   \<and> (x \<noteq> latticeValue s v \<longrightarrow>
        updateAndPropagate env v x s = onUpdate env v (s\<lparr>latticeValue := (latticeValue s)(v := x)\<rparr>))
   \<and> (x = latticeValue s v \<longrightarrow> updateAndPropagate env v x s = s)"
proof -
  have w: "worklist (onUpdate env v s) =
     worklist (AnalysisState_onUpdate v s)
     @ concat (map (\<lambda>user. map (\<lambda>analysis. (PointOperation user, analysis)) (useDefSubscribers s v))
                 (getUsers env v))"
    by (simp add: onUpdate_eq AnalysisState_onUpdate_def fold_enqueue)
  have m: "\<forall>user \<in> set (getUsers env v). \<forall>analysis \<in> set (useDefSubscribers s v).
        (PointOperation user, analysis) \<in> set (worklist (onUpdate env v s))"
    unfolding w by auto
  have c: "count_list (drop (length (worklist (AnalysisState_onUpdate v s))) (worklist (onUpdate env v s)))
        (PointOperation user, analysis)
      = count_list (getUsers env v) user * count_list (useDefSubscribers s v) analysis"
    unfolding w by (simp add: count_list_users_subscribers)
  have once: "distinct (getUsers env v) \<and> distinct (useDefSubscribers s v)
        \<and> user \<in> set (getUsers env v) \<and> analysis \<in> set (useDefSubscribers s v) \<longrightarrow>
      count_list (drop (length (worklist (AnalysisState_onUpdate v s))) (worklist (onUpdate env v s)))
        (PointOperation user, analysis) = 1"
    unfolding c by (simp add: count_list_distinct_member)
  have f: "latticeValue (onUpdate env v s) = latticeValue s"
    "dependents (onUpdate env v s) = dependents s"
    "useDefSubscribers (onUpdate env v s) = useDefSubscribers s"
    by (simp_all add: onUpdate_eq fold_enqueue)
  have u: "x \<noteq> latticeValue s v \<longrightarrow>
        updateAndPropagate env v x s = onUpdate env v (s\<lparr>latticeValue := (latticeValue s)(v := x)\<rparr>)"
    "x = latticeValue s v \<longrightarrow> updateAndPropagate env v x s = s"
    by (simp_all add: updateAndPropagate_def update_def propagateIfChanged_def)
  from w m c once f u show ?thesis by (intro conjI)
qed

theorem C8_witness:
  "Constant 5 \<noteq> latticeValue subscribedState (OpResult 6 0)
   \<and> getUsers twoUsers (OpResult 6 0) = [7, 8]
   \<and> useDefSubscribers subscribedState (OpResult 6 0) = [4, 5]
   \<and> distinct (getUsers twoUsers (OpResult 6 0))
   \<and> distinct (useDefSubscribers subscribedState (OpResult 6 0))
   \<and> 7 \<in> set (getUsers twoUsers (OpResult 6 0)) \<and> 5 \<in> set (useDefSubscribers subscribedState (OpResult 6 0))
   \<and> worklist (updateAndPropagate twoUsers (OpResult 6 0) (Constant 5) subscribedState) =
       [(PointBlock 3, 4), (PointOperation 7, 4), (PointOperation 7, 5),
        (PointOperation 8, 4), (PointOperation 8, 5)]
   \<and> count_list
        (drop (length (worklist (AnalysisState_onUpdate (OpResult 6 0)
                 (subscribedState\<lparr>latticeValue :=
                    (latticeValue subscribedState)(OpResult 6 0 := Constant 5)\<rparr>))))
           (worklist (updateAndPropagate twoUsers (OpResult 6 0) (Constant 5) subscribedState)))
        (PointOperation 7, 5) = 1
   \<and> latticeValue (updateAndPropagate twoUsers (OpResult 6 0) (Constant 5) subscribedState) (OpResult 6 0)
       = Constant 5
   \<and> (PointOperation 7, 5)
        \<in> set (worklist (updateAndPropagate twoUsers (OpResult 6 0) (Constant 5) subscribedState))
   \<and> Uninitialized = latticeValue subscribedState (OpResult 6 0)
   \<and> updateAndPropagate twoUsers (OpResult 6 0) Uninitialized subscribedState = subscribedState"
proof -
  define s' where "s' = subscribedState\<lparr>latticeValue := (latticeValue subscribedState)(OpResult 6 0 := Constant 5)\<rparr>"
  have h: "Constant 5 \<noteq> latticeValue subscribedState (OpResult 6 0)"
    "getUsers twoUsers (OpResult 6 0) = [7, 8]"
    "useDefSubscribers subscribedState (OpResult 6 0) = [4, 5]"
    "distinct (getUsers twoUsers (OpResult 6 0))"
    "distinct (useDefSubscribers subscribedState (OpResult 6 0))"
    "7 \<in> set (getUsers twoUsers (OpResult 6 0))" "5 \<in> set (useDefSubscribers subscribedState (OpResult 6 0))"
    by (simp_all add: subscribedState_def initialState_def twoUsers_def emptyEnv_def)
  have h': "distinct (getUsers twoUsers (OpResult 6 0))" "distinct (useDefSubscribers s' (OpResult 6 0))"
    "7 \<in> set (getUsers twoUsers (OpResult 6 0))" "5 \<in> set (useDefSubscribers s' (OpResult 6 0))"
    by (simp_all add: s'_def subscribedState_def initialState_def twoUsers_def emptyEnv_def)
  from C8_onUpdate_enqueues_users[of twoUsers "OpResult 6 0" subscribedState _ _ "Constant 5"] h(1)
  have step: "updateAndPropagate twoUsers (OpResult 6 0) (Constant 5) subscribedState
                = onUpdate twoUsers (OpResult 6 0) s'"
    unfolding s'_def by blast
  have same: "Uninitialized = latticeValue subscribedState (OpResult 6 0)"
    by (simp add: subscribedState_def initialState_def)
  from C8_onUpdate_enqueues_users[of twoUsers "OpResult 6 0" subscribedState _ _ Uninitialized] same
  have unchanged: "updateAndPropagate twoUsers (OpResult 6 0) Uninitialized subscribedState
                     = subscribedState"
    by blast
  from C8_onUpdate_enqueues_users[of twoUsers "OpResult 6 0" s' 7 5] h'
  have "worklist (onUpdate twoUsers (OpResult 6 0) s') =
     worklist (AnalysisState_onUpdate (OpResult 6 0) s')
     @ concat (map (\<lambda>user. map (\<lambda>analysis. (PointOperation user, analysis))
                              (useDefSubscribers s' (OpResult 6 0)))
                 (getUsers twoUsers (OpResult 6 0)))"
    and once: "count_list (drop (length (worklist (AnalysisState_onUpdate (OpResult 6 0) s')))
                  (worklist (onUpdate twoUsers (OpResult 6 0) s')))
        (PointOperation 7, 5) = 1"
    and "latticeValue (onUpdate twoUsers (OpResult 6 0) s') = latticeValue s'"
    and member: "(PointOperation 7, 5) \<in> set (worklist (onUpdate twoUsers (OpResult 6 0) s'))"
    by blast+
  then have "worklist (onUpdate twoUsers (OpResult 6 0) s') =
       [(PointBlock 3, 4), (PointOperation 7, 4), (PointOperation 7, 5),
        (PointOperation 8, 4), (PointOperation 8, 5)]"
    and "latticeValue (onUpdate twoUsers (OpResult 6 0) s') (OpResult 6 0) = Constant 5"
    by (simp_all add: s'_def AnalysisState_onUpdate_def subscribedState_def initialState_def
          twoUsers_def emptyEnv_def enqueue_def)
  with h step once member same unchanged show ?thesis unfolding s'_def by simp
qed

text \<open>
  The claim as stated has every user enqueued once for every subscribed analysis.
  Operation 7 uses the result of operation 6 in two operands, so the use list names it
  twice, and it is enqueued twice for each of the analyses 4 and 5.
\<close>

theorem C8_counterexample:
  "Constant 5 \<noteq> latticeValue subscribedState (OpResult 6 0)
   \<and> getUsers repeatedUser (OpResult 6 0) = [7, 7, 8]
   \<and> useDefSubscribers subscribedState (OpResult 6 0) = [4, 5]
   \<and> worklist subscribedState = []
   \<and> worklist (updateAndPropagate repeatedUser (OpResult 6 0) (Constant 5) subscribedState) =
       [(PointBlock 3, 4), (PointOperation 7, 4), (PointOperation 7, 5),
        (PointOperation 7, 4), (PointOperation 7, 5), (PointOperation 8, 4), (PointOperation 8, 5)]
   \<and> count_list (worklist (updateAndPropagate repeatedUser (OpResult 6 0) (Constant 5) subscribedState))
        (PointOperation 7, 4) = 2"
  by (simp add: updateAndPropagate_def update_def propagateIfChanged_def onUpdate_def
        AnalysisState_onUpdate_def subscribedState_def initialState_def repeatedUser_def
        emptyEnv_def enqueue_def)

section \<open>Branches in the backward driver\<close>

text \<open>The operands a slice of the operand list holds.\<close>

lemma slice_getOpOperands:
  assumes "slice (getOpOperands env op) b m = Inr operands"
  shows "(n, v) \<in> set operands \<longleftrightarrow> b \<le> n \<and> n < b + m \<and> v = getOperands env op ! n"
proof -
  from assms have bound: "b + m \<le> length (getOperands env op)"
    and operands: "operands = take m (drop b (enumerate 0 (getOperands env op)))"
    by (auto simp: slice_def getOpOperands_def split: if_splits)
  have "(n, v) \<in> set operands \<longleftrightarrow> (\<exists>k < m. (n, v) = (b + k, getOperands env op ! (b + k)))"
  proof
    assume "(n, v) \<in> set operands"
    then obtain k where "k < length operands" "operands ! k = (n, v)"
      by (auto simp: in_set_conv_nth)
    with bound operands show "\<exists>k < m. (n, v) = (b + k, getOperands env op ! (b + k))"
      by (auto simp: nth_enumerate_eq)
  next
    assume "\<exists>k < m. (n, v) = (b + k, getOperands env op ! (b + k))"
    then obtain k where k: "k < m" "(n, v) = (b + k, getOperands env op ! (b + k))" by blast
    with bound operands have "k < length operands" "operands ! k = (n, v)"
      by (auto simp: nth_enumerate_eq)
    then show "(n, v) \<in> set operands" by (auto simp: in_set_conv_nth)
  qed
  also have "\<dots> \<longleftrightarrow> b \<le> n \<and> n < b + m \<and> v = getOperands env op ! n"
  proof
    assume "\<exists>k < m. (n, v) = (b + k, getOperands env op ! (b + k))"
    then show "b \<le> n \<and> n < b + m \<and> v = getOperands env op ! n" by auto
  next
    assume a: "b \<le> n \<and> n < b + m \<and> v = getOperands env op ! n"
    then have "n - b < m" "(n, v) = (b + (n - b), getOperands env op ! (b + (n - b)))" by auto
    then show "\<exists>k < m. (n, v) = (b + k, getOperands env op ! (b + k))" by blast
  qed
  finally show ?thesis .
qed

text \<open>
  The inner loop clears the bits of the operands it runs over and adds, for each of them
  with a block argument, a dependency and a meet; nothing else.
\<close>

lemma visitBranch_operands_result:
  "visitBranch_operands env op so block operands (u, e) = (u', e') \<Longrightarrow>
     length u' = length u
     \<and> (\<forall>j < length u. u' ! j \<longleftrightarrow> u ! j \<and> j \<notin> fst ` set operands)
     \<and> (\<forall>x \<in> set e'. x \<in> set e
           \<or> (\<exists>n v blockArg. (n, v) \<in> set operands
                \<and> getBranchSuccessorArgument env so n block = Some blockArg
                \<and> (x = AddDependency blockArg (PointOperation op) \<or> x = Meet v blockArg)))"
proof (induction operands arbitrary: u e)
  case Nil
  then show ?case by simp
next
  case (Cons p operands)
  obtain n v where p: "p = (n, v)" by (cases p)
  define e1 where "e1 = e @ (case getBranchSuccessorArgument env so n block of
                     Some blockArg \<Rightarrow> meetFor (PointOperation op) v blockArg
                   | None \<Rightarrow> [])"
  from Cons.prems p
  have step: "visitBranch_operands env op so block operands (u[n := False], e1) = (u', e')"
    by (simp add: e1_def)
  note IH = Cons.IH[OF step]
  have len: "length u' = length u" using IH by simp
  have bits: "\<forall>j < length u. u' ! j \<longleftrightarrow> u ! j \<and> j \<notin> fst ` set (p # operands)"
  proof (intro allI impI)
    fix j assume j: "j < length u"
    with IH have "u' ! j \<longleftrightarrow> u[n := False] ! j \<and> j \<notin> fst ` set operands" by simp
    with j p show "u' ! j \<longleftrightarrow> u ! j \<and> j \<notin> fst ` set (p # operands)"
      by (cases "j = n") auto
  qed
  have e1: "\<forall>x \<in> set e1. x \<in> set e
           \<or> (\<exists>blockArg. getBranchSuccessorArgument env so n block = Some blockArg
                \<and> (x = AddDependency blockArg (PointOperation op) \<or> x = Meet v blockArg))"
    by (auto simp: e1_def meetFor_def getLatticeElementFor_def split: option.splits)
  have effects: "\<forall>x \<in> set e'. x \<in> set e
           \<or> (\<exists>n v blockArg. (n, v) \<in> set (p # operands)
                \<and> getBranchSuccessorArgument env so n block = Some blockArg
                \<and> (x = AddDependency blockArg (PointOperation op) \<or> x = Meet v blockArg))"
  proof
    fix x assume "x \<in> set e'"
    with IH have "x \<in> set e1
           \<or> (\<exists>n v blockArg. (n, v) \<in> set operands
                \<and> getBranchSuccessorArgument env so n block = Some blockArg
                \<and> (x = AddDependency blockArg (PointOperation op) \<or> x = Meet v blockArg))"
      by blast
    with e1 p show "x \<in> set e
           \<or> (\<exists>n v blockArg. (n, v) \<in> set (p # operands)
                \<and> getBranchSuccessorArgument env so n block = Some blockArg
                \<and> (x = AddDependency blockArg (PointOperation op) \<or> x = Meet v blockArg))"
      by (metis list.set_intros(1) list.set_intros(2))
  qed
  from len bits effects show ?case by blast
qed


text \<open>
  The outer loop, over the successors: when the forwarded ranges lie inside the operand
  list no assertion fails, a bit stays set exactly when its operand is forwarded to none
  of the successors, and every call added is a dependency or a meet for an operand in
  the forwarded range of a successor, with the block argument found for it.
\<close>

lemma visitBranch_successors_result:
  assumes "\<forall>(index, block) \<in> set successors.
      getBeginOperandIndex (getForwardedOperands (getSuccessorOperands env op index))
        + rangeSize (getForwardedOperands (getSuccessorOperands env op index))
      \<le> length (getOperands env op)"
  shows "\<exists>u' e'. visitBranch_successors env op successors (u, e) = Inr (u', e')
     \<and> length u' = length u
     \<and> (\<forall>j < length u. u' ! j \<longleftrightarrow>
            u ! j \<and> \<not> (\<exists>(index, block) \<in> set successors. forwardedTo env op index j))
     \<and> (\<forall>x \<in> set e'. x \<in> set e
           \<or> (\<exists>index block j blockArg. (index, block) \<in> set successors
                \<and> forwardedTo env op index j
                \<and> getBranchSuccessorArgument env (getSuccessorOperands env op index) j block
                    = Some blockArg
                \<and> (x = AddDependency blockArg (PointOperation op)
                     \<or> x = Meet (getOperands env op ! j) blockArg)))"
  using assms
proof (induction successors arbitrary: u e)
  case Nil
  show ?case by simp
next
  case (Cons p successors)
  obtain index block where p: "p = (index, block)" by (cases p)
  define so where "so = getSuccessorOperands env op index"
  define b where "b = getBeginOperandIndex (getForwardedOperands so)"
  define m where "m = rangeSize (getForwardedOperands so)"
  from Cons.prems p have bound: "b + m \<le> length (getOperands env op)"
    and rest: "\<forall>(index, block) \<in> set successors.
      getBeginOperandIndex (getForwardedOperands (getSuccessorOperands env op index))
        + rangeSize (getForwardedOperands (getSuccessorOperands env op index))
      \<le> length (getOperands env op)"
    by (auto simp: so_def b_def m_def)
  have fwd: "forwardedTo env op index j \<longleftrightarrow> m \<noteq> 0 \<and> b \<le> j \<and> j < b + m" for j
    by (simp add: forwardedTo_def so_def b_def m_def Let_def)
  show ?case
  proof (cases "m = 0")
    case True
    then have step: "visitBranch_successors env op (p # successors) (u, e)
                       = visitBranch_successors env op successors (u, e)"
      by (simp add: p so_def m_def Let_def)
    from Cons.IH[OF rest, of u e] obtain u' e' where
      r: "visitBranch_successors env op successors (u, e) = Inr (u', e')"
      and len: "length u' = length u"
      and bits: "\<forall>j < length u. u' ! j \<longleftrightarrow>
            u ! j \<and> \<not> (\<exists>(index, block) \<in> set successors. forwardedTo env op index j)"
      and effects: "\<forall>x \<in> set e'. x \<in> set e
           \<or> (\<exists>index block j blockArg. (index, block) \<in> set successors
                \<and> forwardedTo env op index j
                \<and> getBranchSuccessorArgument env (getSuccessorOperands env op index) j block
                    = Some blockArg
                \<and> (x = AddDependency blockArg (PointOperation op)
                     \<or> x = Meet (getOperands env op ! j) blockArg))"
      by blast
    from bits True fwd p
    have bits': "\<forall>j < length u. u' ! j \<longleftrightarrow>
            u ! j \<and> \<not> (\<exists>(index, block) \<in> set (p # successors). forwardedTo env op index j)"
      by simp
    have sub: "set successors \<subseteq> set (p # successors)" by auto
    from effects sub
    have effects': "\<forall>x \<in> set e'. x \<in> set e
           \<or> (\<exists>index block j blockArg. (index, block) \<in> set (p # successors)
                \<and> forwardedTo env op index j
                \<and> getBranchSuccessorArgument env (getSuccessorOperands env op index) j block
                    = Some blockArg
                \<and> (x = AddDependency blockArg (PointOperation op)
                     \<or> x = Meet (getOperands env op ! j) blockArg))"
      by blast
    show ?thesis
    proof (intro exI conjI)
      from step r show "visitBranch_successors env op (p # successors) (u, e) = Inr (u', e')" by simp
      from len show "length u' = length u" .
      from bits' show "\<forall>j < length u. u' ! j \<longleftrightarrow>
            u ! j \<and> \<not> (\<exists>(index, block) \<in> set (p # successors). forwardedTo env op index j)" .
      from effects' show "\<forall>x \<in> set e'. x \<in> set e
           \<or> (\<exists>index block j blockArg. (index, block) \<in> set (p # successors)
                \<and> forwardedTo env op index j
                \<and> getBranchSuccessorArgument env (getSuccessorOperands env op index) j block
                    = Some blockArg
                \<and> (x = AddDependency blockArg (PointOperation op)
                     \<or> x = Meet (getOperands env op ! j) blockArg))" .
    qed
  next
    case False
    from bound obtain operands where
      sl: "slice (getOpOperands env op) b m = Inr operands"
      by (auto simp: slice_def getOpOperands_def)
    note mem = slice_getOpOperands[OF sl]
    obtain u1 e1 where inner: "visitBranch_operands env op so block operands (u, e) = (u1, e1)"
      by (cases "visitBranch_operands env op so block operands (u, e)")
    from False sl inner
    have step: "visitBranch_successors env op (p # successors) (u, e)
                  = visitBranch_successors env op successors (u1, e1)"
      by (simp add: p so_def[symmetric] m_def[symmetric] b_def[symmetric] Let_def)
    from visitBranch_operands_result[OF inner]
    have len1: "length u1 = length u"
      and bits1: "\<forall>j < length u. u1 ! j \<longleftrightarrow> u ! j \<and> j \<notin> fst ` set operands"
      and effects1: "\<forall>x \<in> set e1. x \<in> set e
           \<or> (\<exists>n v blockArg. (n, v) \<in> set operands
                \<and> getBranchSuccessorArgument env so n block = Some blockArg
                \<and> (x = AddDependency blockArg (PointOperation op) \<or> x = Meet v blockArg))"
      by blast+
    have inrange: "j \<in> fst ` set operands \<longleftrightarrow> forwardedTo env op index j" for j
    proof -
      have "j \<in> fst ` set operands \<longleftrightarrow> (\<exists>v. (j, v) \<in> set operands)" by force
      also have "\<dots> \<longleftrightarrow> b \<le> j \<and> j < b + m" by (simp add: mem)
      also have "\<dots> \<longleftrightarrow> forwardedTo env op index j" using False by (simp add: fwd)
      finally show ?thesis .
    qed
    from Cons.IH[OF rest, of u1 e1] obtain u' e' where
      r: "visitBranch_successors env op successors (u1, e1) = Inr (u', e')"
      and len: "length u' = length u1"
      and bits: "\<forall>j < length u1. u' ! j \<longleftrightarrow>
            u1 ! j \<and> \<not> (\<exists>(index, block) \<in> set successors. forwardedTo env op index j)"
      and effects: "\<forall>x \<in> set e'. x \<in> set e1
           \<or> (\<exists>index block j blockArg. (index, block) \<in> set successors
                \<and> forwardedTo env op index j
                \<and> getBranchSuccessorArgument env (getSuccessorOperands env op index) j block
                    = Some blockArg
                \<and> (x = AddDependency blockArg (PointOperation op)
                     \<or> x = Meet (getOperands env op ! j) blockArg))"
      by blast
    from bits bits1 len1 inrange p
    have bits': "\<forall>j < length u. u' ! j \<longleftrightarrow>
            u ! j \<and> \<not> (\<exists>(index, block) \<in> set (p # successors). forwardedTo env op index j)"
      by simp
    have effects': "\<forall>x \<in> set e'. x \<in> set e
           \<or> (\<exists>index block j blockArg. (index, block) \<in> set (p # successors)
                \<and> forwardedTo env op index j
                \<and> getBranchSuccessorArgument env (getSuccessorOperands env op index) j block
                    = Some blockArg
                \<and> (x = AddDependency blockArg (PointOperation op)
                     \<or> x = Meet (getOperands env op ! j) blockArg))"
    proof
      fix x assume x: "x \<in> set e'"
      from effects x consider (old) "x \<in> set e1"
        | (new) "\<exists>index block j blockArg. (index, block) \<in> set successors
                \<and> forwardedTo env op index j
                \<and> getBranchSuccessorArgument env (getSuccessorOperands env op index) j block
                    = Some blockArg
                \<and> (x = AddDependency blockArg (PointOperation op)
                     \<or> x = Meet (getOperands env op ! j) blockArg)"
        by blast
      then show "x \<in> set e
           \<or> (\<exists>index block j blockArg. (index, block) \<in> set (p # successors)
                \<and> forwardedTo env op index j
                \<and> getBranchSuccessorArgument env (getSuccessorOperands env op index) j block
                    = Some blockArg
                \<and> (x = AddDependency blockArg (PointOperation op)
                     \<or> x = Meet (getOperands env op ! j) blockArg))"
      proof cases
        case new
        moreover have "set successors \<subseteq> set (p # successors)" by auto
        ultimately show ?thesis by blast
      next
        case old
        with effects1 consider "x \<in> set e"
          | n v blockArg where "(n, v) \<in> set operands"
              "getBranchSuccessorArgument env so n block = Some blockArg"
              "x = AddDependency blockArg (PointOperation op) \<or> x = Meet v blockArg"
          by blast
        then show ?thesis
        proof cases
          case 1
          then show ?thesis by simp
        next
          case 2
          from 2(1) mem have v: "v = getOperands env op ! n" by simp
          from 2(1) have "n \<in> fst ` set operands" by force
          with inrange have "forwardedTo env op index n" by simp
          moreover have "(index, block) \<in> set (p # successors)" by (simp add: p)
          moreover from 2(2) have "getBranchSuccessorArgument env (getSuccessorOperands env op index) n block
                    = Some blockArg"
            by (simp add: so_def)
          moreover from 2(3) v have "x = AddDependency blockArg (PointOperation op)
                     \<or> x = Meet (getOperands env op ! n) blockArg"
            by simp
          ultimately show ?thesis by blast
        qed
      qed
    qed
    show ?thesis
    proof (intro exI conjI)
      from step r show "visitBranch_successors env op (p # successors) (u, e) = Inr (u', e')" by simp
      from len len1 show "length u' = length u" by simp
      from bits' show "\<forall>j < length u. u' ! j \<longleftrightarrow>
            u ! j \<and> \<not> (\<exists>(index, block) \<in> set (p # successors). forwardedTo env op index j)" .
      from effects' show "\<forall>x \<in> set e'. x \<in> set e
           \<or> (\<exists>index block j blockArg. (index, block) \<in> set (p # successors)
                \<and> forwardedTo env op index j
                \<and> getBranchSuccessorArgument env (getSuccessorOperands env op index) j block
                    = Some blockArg
                \<and> (x = AddDependency blockArg (PointOperation op)
                     \<or> x = Meet (getOperands env op ! j) blockArg))" .
    qed
  qed
qed


lemma count_list_distinct: "distinct xs \<Longrightarrow> count_list xs x = (if x \<in> set xs then 1 else 0)"
  by (induction xs) auto

lemma count_list_set_bits: "count_list (set_bits bits) i = (if i < length bits \<and> bits ! i then 1 else 0)"
  by (simp add: set_bits_def count_list_distinct)

text \<open>The branch case as a whole, when the forwarded ranges lie inside the operand list.\<close>

lemma in_enumerate_successors:
  "(index, block) \<in> set (enumerate 0 blocks) \<longleftrightarrow> index < length blocks \<and> block = blocks ! index"
  by (auto simp: in_set_enumerate_eq)

lemma backward_visitBranch_result:
  assumes "forwardedRangesInBounds env op"
  shows "\<exists>unaccounted effects.
       visitBranch_successors env op (enumerate 0 (getSuccessors env op))
         (replicate (length (getOperands env op)) True, []) = Inr (unaccounted, effects)
     \<and> backward_visitBranch env op = Inr (effects @ map (VisitBranchOperand op) (set_bits unaccounted))
     \<and> length unaccounted = length (getOperands env op)
     \<and> (\<forall>j < length (getOperands env op). unaccounted ! j \<longleftrightarrow>
            \<not> (\<exists>index < length (getSuccessors env op). forwardedTo env op index j))
     \<and> (\<forall>x \<in> set effects.
           \<exists>index j blockArg. index < length (getSuccessors env op)
              \<and> forwardedTo env op index j
              \<and> getBranchSuccessorArgument env (getSuccessorOperands env op index) j
                   (getSuccessors env op ! index) = Some blockArg
              \<and> (x = AddDependency blockArg (PointOperation op)
                   \<or> x = Meet (getOperands env op ! j) blockArg))"
proof -
  define successors where "successors = enumerate 0 (getSuccessors env op)"
  define n where "n = length (getOperands env op)"
  define u where "u = replicate n True"
  have mem: "(index, block) \<in> set successors
               \<longleftrightarrow> index < length (getSuccessors env op) \<and> block = getSuccessors env op ! index"
    for index block
    unfolding successors_def by (rule in_enumerate_successors)
  have bound: "\<forall>(index, block) \<in> set successors.
      getBeginOperandIndex (getForwardedOperands (getSuccessorOperands env op index))
        + rangeSize (getForwardedOperands (getSuccessorOperands env op index))
      \<le> length (getOperands env op)"
  proof (intro ballI, clarify)
    fix index block assume "(index, block) \<in> set successors"
    then have "index < length (getSuccessors env op)" by (simp add: mem)
    with assms show "getBeginOperandIndex (getForwardedOperands (getSuccessorOperands env op index))
        + rangeSize (getForwardedOperands (getSuccessorOperands env op index))
      \<le> length (getOperands env op)"
      by (simp add: forwardedRangesInBounds_def list_all_iff)
  qed
  from visitBranch_successors_result[OF bound, of u "[]"]
  obtain u' e' where
    r: "visitBranch_successors env op successors (u, []) = Inr (u', e')"
    and len: "length u' = length u"
    and bits: "\<forall>j < length u. u' ! j \<longleftrightarrow>
            u ! j \<and> \<not> (\<exists>(index, block) \<in> set successors. forwardedTo env op index j)"
    and effects: "\<forall>x \<in> set e'. x \<in> set []
           \<or> (\<exists>index block j blockArg. (index, block) \<in> set successors
                \<and> forwardedTo env op index j
                \<and> getBranchSuccessorArgument env (getSuccessorOperands env op index) j block
                    = Some blockArg
                \<and> (x = AddDependency blockArg (PointOperation op)
                     \<or> x = Meet (getOperands env op ! j) blockArg))"
    by blast
  have len': "length u' = length (getOperands env op)"
    using len by (simp add: u_def n_def)
  have bits': "\<forall>j < length (getOperands env op). u' ! j \<longleftrightarrow>
            \<not> (\<exists>index < length (getSuccessors env op). forwardedTo env op index j)"
  proof (intro allI impI)
    fix j assume j: "j < length (getOperands env op)"
    then have "j < length u" "u ! j" by (simp_all add: u_def n_def)
    with bits have "u' ! j \<longleftrightarrow> \<not> (\<exists>(index, block) \<in> set successors. forwardedTo env op index j)"
      by simp
    also have "(\<exists>(index, block) \<in> set successors. forwardedTo env op index j)
                 \<longleftrightarrow> (\<exists>index < length (getSuccessors env op). forwardedTo env op index j)"
    proof
      assume "\<exists>(index, block) \<in> set successors. forwardedTo env op index j"
      then obtain index block where "(index, block) \<in> set successors" "forwardedTo env op index j"
        by blast
      then show "\<exists>index < length (getSuccessors env op). forwardedTo env op index j"
        using mem by blast
    next
      assume "\<exists>index < length (getSuccessors env op). forwardedTo env op index j"
      then obtain index where i: "index < length (getSuccessors env op)" "forwardedTo env op index j"
        by blast
      then have "(index, getSuccessors env op ! index) \<in> set successors" by (simp add: mem)
      with i(2) show "\<exists>(index, block) \<in> set successors. forwardedTo env op index j" by blast
    qed
    finally show "u' ! j \<longleftrightarrow> \<not> (\<exists>index < length (getSuccessors env op). forwardedTo env op index j)" .
  qed
  have effects': "\<forall>x \<in> set e'.
           \<exists>index j blockArg. index < length (getSuccessors env op)
              \<and> forwardedTo env op index j
              \<and> getBranchSuccessorArgument env (getSuccessorOperands env op index) j
                   (getSuccessors env op ! index) = Some blockArg
              \<and> (x = AddDependency blockArg (PointOperation op)
                   \<or> x = Meet (getOperands env op ! j) blockArg)"
  proof
    fix x assume "x \<in> set e'"
    with effects obtain index block j blockArg where
      ib: "(index, block) \<in> set successors" and f: "forwardedTo env op index j"
      and g: "getBranchSuccessorArgument env (getSuccessorOperands env op index) j block = Some blockArg"
      and x: "x = AddDependency blockArg (PointOperation op) \<or> x = Meet (getOperands env op ! j) blockArg"
      by auto
    from ib have "index < length (getSuccessors env op)" "block = getSuccessors env op ! index"
      by (simp_all add: mem)
    with f g x show "\<exists>index j blockArg. index < length (getSuccessors env op)
              \<and> forwardedTo env op index j
              \<and> getBranchSuccessorArgument env (getSuccessorOperands env op index) j
                   (getSuccessors env op ! index) = Some blockArg
              \<and> (x = AddDependency blockArg (PointOperation op)
                   \<or> x = Meet (getOperands env op ! j) blockArg)"
      by blast
  qed
  from r have r': "visitBranch_successors env op (enumerate 0 (getSuccessors env op))
         (replicate (length (getOperands env op)) True, []) = Inr (u', e')"
    by (simp add: successors_def u_def n_def)
  then have "backward_visitBranch env op = Inr (e' @ map (VisitBranchOperand op) (set_bits u'))"
    by (simp add: backward_visitBranch_def)
  with r' len' bits' effects' show ?thesis by (intro exI conjI)
qed

lemma backward_visitOperation_branch:
  assumes "isLive env (PointBlock (getBlock env op))" "\<not> isRegionBranchOp env op" "isBranchOp env op"
  shows "backward_visitOperation env op =
           bindE (backward_visitBranch env op)
             (\<lambda>effects. Inr (map (\<lambda>v. AddDependency v (PointOperation op)) (getResults env op) @ effects))"
  using assms by (simp add: backward_visitOperation_def getLatticeElementsFor_eq)


text \<open>
  Claim C5, as amended.  A backward visit of a branch operation that lies in a live block
  and is not also a region-branch operation: every operand that lies in the forwarded
  range of no successor is passed to \<^verbatim>\<open>visitBranchOperand\<close> exactly once, and no meet of
  the visit is made for it: every meet is made for an operand inside the range forwarded
  to some successor, against the block argument found for that operand.  The forwarded
  ranges may lie anywhere in the operand list.
\<close>

theorem C5_unforwarded_branch_operands:
  assumes "isLive env (PointBlock (getBlock env op))"
    and "\<not> isRegionBranchOp env op" and "isBranchOp env op"
    and "forwardedRangesInBounds env op"
    and "i < length (getOperands env op)"
    and "\<forall>index < length (getSuccessors env op). \<not> forwardedTo env op index i"
  shows "\<exists>effects. backward_visitOperation env op = Inr effects
     \<and> count_list effects (VisitBranchOperand op i) = 1
     \<and> (\<forall>lhs rhs. Meet lhs rhs \<in> set effects \<longrightarrow>
          (\<exists>index j. index < length (getSuccessors env op) \<and> forwardedTo env op index j \<and> j \<noteq> i
             \<and> lhs = getOperands env op ! j
             \<and> getBranchSuccessorArgument env (getSuccessorOperands env op index) j
                  (getSuccessors env op ! index) = Some rhs))"
proof -
  from backward_visitBranch_result[OF assms(4)] obtain unaccounted effects where
    branch: "backward_visitBranch env op
               = Inr (effects @ map (VisitBranchOperand op) (set_bits unaccounted))"
    and len: "length unaccounted = length (getOperands env op)"
    and bits: "\<forall>j < length (getOperands env op). unaccounted ! j \<longleftrightarrow>
            \<not> (\<exists>index < length (getSuccessors env op). forwardedTo env op index j)"
    and effects: "\<forall>x \<in> set effects.
           \<exists>index j blockArg. index < length (getSuccessors env op)
              \<and> forwardedTo env op index j
              \<and> getBranchSuccessorArgument env (getSuccessorOperands env op index) j
                   (getSuccessors env op ! index) = Some blockArg
              \<and> (x = AddDependency blockArg (PointOperation op)
                   \<or> x = Meet (getOperands env op ! j) blockArg)"
    by blast
  define all where "all = map (\<lambda>v. AddDependency v (PointOperation op)) (getResults env op)
                            @ effects @ map (VisitBranchOperand op) (set_bits unaccounted)"
  have visit: "backward_visitOperation env op = Inr all"
    unfolding backward_visitOperation_branch[OF assms(1,2,3)] branch all_def
    by (simp add: bindE_def)
  from assms(5,6) bits len have set: "i < length unaccounted \<and> unaccounted ! i" by simp
  have "VisitBranchOperand op i \<notin> set effects"
    using effects by fastforce
  moreover have "VisitBranchOperand op i
                   \<notin> set (map (\<lambda>v. AddDependency v (PointOperation op)) (getResults env op))"
    by auto
  moreover have "count_list (map (VisitBranchOperand op) (set_bits unaccounted)) (VisitBranchOperand op i)
                   = count_list (set_bits unaccounted) i"
    by (rule count_list_map_conv) (simp add: inj_def)
  ultimately have once: "count_list all (VisitBranchOperand op i) = 1"
    using set by (simp add: all_def count_list_set_bits)
  have meets: "\<exists>index j. index < length (getSuccessors env op) \<and> forwardedTo env op index j \<and> j \<noteq> i
             \<and> lhs = getOperands env op ! j
             \<and> getBranchSuccessorArgument env (getSuccessorOperands env op index) j
                  (getSuccessors env op ! index) = Some rhs"
    if "Meet lhs rhs \<in> set all" for lhs rhs
  proof -
    from that have "Meet lhs rhs \<in> set effects" by (auto simp: all_def)
    with effects obtain index j blockArg where
      found: "index < length (getSuccessors env op)" "forwardedTo env op index j"
        "getBranchSuccessorArgument env (getSuccessorOperands env op index) j
           (getSuccessors env op ! index) = Some blockArg"
        "Meet lhs rhs = AddDependency blockArg (PointOperation op)
           \<or> Meet lhs rhs = Meet (getOperands env op ! j) blockArg"
      by blast
    from found(1,2) assms(6) have "j \<noteq> i" by blast
    with found show ?thesis by auto
  qed
  from visit once meets show ?thesis by blast
qed

lemma conditionalBranch_visit:
  "backward_visitOperation (conditionalBranch True) 2 =
     Inr [AddDependency (BlockArgument 4 0) (PointOperation 2), Meet (OpResult 6 0) (BlockArgument 4 0),
          AddDependency (BlockArgument 5 0) (PointOperation 2), Meet (OpResult 7 0) (BlockArgument 5 0),
          VisitBranchOperand 2 2]"
  by code_simp

theorem C5_witness:
  "isLive (conditionalBranch True) (PointBlock (getBlock (conditionalBranch True) 2))
   \<and> \<not> isRegionBranchOp (conditionalBranch True) 2 \<and> isBranchOp (conditionalBranch True) 2
   \<and> forwardedRangesInBounds (conditionalBranch True) 2
   \<and> 2 < length (getOperands (conditionalBranch True) 2)
   \<and> \<not> forwardedTo (conditionalBranch True) 2 0 2 \<and> \<not> forwardedTo (conditionalBranch True) 2 1 2
   \<and> backward_visitOperation (conditionalBranch True) 2 =
       Inr [AddDependency (BlockArgument 4 0) (PointOperation 2), Meet (OpResult 6 0) (BlockArgument 4 0),
            AddDependency (BlockArgument 5 0) (PointOperation 2), Meet (OpResult 7 0) (BlockArgument 5 0),
            VisitBranchOperand 2 2]
   \<and> count_list
        [AddDependency (BlockArgument 4 0) (PointOperation 2), Meet (OpResult 6 0) (BlockArgument 4 0),
         AddDependency (BlockArgument 5 0) (PointOperation 2), Meet (OpResult 7 0) (BlockArgument 5 0),
         VisitBranchOperand 2 2] (VisitBranchOperand 2 2) = 1"
proof -
  have h: "isLive (conditionalBranch True) (PointBlock (getBlock (conditionalBranch True) 2))"
    "\<not> isRegionBranchOp (conditionalBranch True) 2" "isBranchOp (conditionalBranch True) 2"
    "forwardedRangesInBounds (conditionalBranch True) 2"
    "2 < length (getOperands (conditionalBranch True) 2)"
    by code_simp+
  have f: "\<not> forwardedTo (conditionalBranch True) 2 0 2" "\<not> forwardedTo (conditionalBranch True) 2 1 2"
    by (simp_all add: conditionalBranch_def emptyEnv_def forwardedTo_def)
  have "length (getSuccessors (conditionalBranch True) 2) = 2"
    by (simp add: conditionalBranch_def emptyEnv_def)
  with f have none: "\<forall>index < length (getSuccessors (conditionalBranch True) 2).
                 \<not> forwardedTo (conditionalBranch True) 2 index 2"
    by (simp add: less_Suc_eq numeral_2_eq_2)
  from C5_unforwarded_branch_operands[OF h none] conditionalBranch_visit
  have "count_list
        [AddDependency (BlockArgument 4 0) (PointOperation 2), Meet (OpResult 6 0) (BlockArgument 4 0),
         AddDependency (BlockArgument 5 0) (PointOperation 2), Meet (OpResult 7 0) (BlockArgument 5 0),
         VisitBranchOperand 2 2] (VisitBranchOperand 2 2) = 1"
    by (metis sum.inject(2))
  with h f conditionalBranch_visit show ?thesis by blast
qed

text \<open>
  The claim as stated also covers a branch in a block that is not live.  There the visit
  bails out first, and the condition, which no successor is handed, is not passed to
  \<^verbatim>\<open>visitBranchOperand\<close> at all.
\<close>

theorem C5_counterexample:
  "isBranchOp (conditionalBranch False) 2
   \<and> \<not> forwardedTo (conditionalBranch False) 2 0 2 \<and> \<not> forwardedTo (conditionalBranch False) 2 1 2
   \<and> backward_visitOperation (conditionalBranch False) 2 = Inr []
   \<and> count_list ([] :: Effect list) (VisitBranchOperand 2 2) \<noteq> 1"
  by code_simp

text \<open>
  Claim C10.  In the branch case of the backward \<^verbatim>\<open>visitOperation\<close>, an operand that
  lies in the range forwarded to some successor, and for which
  \<^verbatim>\<open>getBranchSuccessorArgument\<close> finds no block argument at any successor that is handed
  it, has its bit cleared in the set of unaccounted operands and is dropped: it is not
  passed to \<^verbatim>\<open>visitBranchOperand\<close>, and no meet of the visit is made for it.
\<close>

theorem C10_forwarded_operand_without_block_argument:
  assumes "forwardedRangesInBounds env op"
    and "index < length (getSuccessors env op)" and "forwardedTo env op index i"
    and "\<forall>index < length (getSuccessors env op). forwardedTo env op index i \<longrightarrow>
           getBranchSuccessorArgument env (getSuccessorOperands env op index) i
             (getSuccessors env op ! index) = None"
  shows "\<exists>unaccounted effects.
       visitBranch_successors env op (enumerate 0 (getSuccessors env op))
         (replicate (length (getOperands env op)) True, []) = Inr (unaccounted, effects)
     \<and> i < length unaccounted \<and> \<not> unaccounted ! i
     \<and> backward_visitBranch env op = Inr (effects @ map (VisitBranchOperand op) (set_bits unaccounted))
     \<and> VisitBranchOperand op i \<notin> set (effects @ map (VisitBranchOperand op) (set_bits unaccounted))
     \<and> (\<forall>lhs rhs. Meet lhs rhs \<in> set (effects @ map (VisitBranchOperand op) (set_bits unaccounted)) \<longrightarrow>
          (\<exists>index j. index < length (getSuccessors env op) \<and> forwardedTo env op index j \<and> j \<noteq> i
             \<and> lhs = getOperands env op ! j
             \<and> getBranchSuccessorArgument env (getSuccessorOperands env op index) j
                  (getSuccessors env op ! index) = Some rhs))"
proof -
  from backward_visitBranch_result[OF assms(1)] obtain unaccounted effects where
    loop: "visitBranch_successors env op (enumerate 0 (getSuccessors env op))
         (replicate (length (getOperands env op)) True, []) = Inr (unaccounted, effects)"
    and branch: "backward_visitBranch env op
               = Inr (effects @ map (VisitBranchOperand op) (set_bits unaccounted))"
    and len: "length unaccounted = length (getOperands env op)"
    and bits: "\<forall>j < length (getOperands env op). unaccounted ! j \<longleftrightarrow>
            \<not> (\<exists>index < length (getSuccessors env op). forwardedTo env op index j)"
    and effects: "\<forall>x \<in> set effects.
           \<exists>index j blockArg. index < length (getSuccessors env op)
              \<and> forwardedTo env op index j
              \<and> getBranchSuccessorArgument env (getSuccessorOperands env op index) j
                   (getSuccessors env op ! index) = Some blockArg
              \<and> (x = AddDependency blockArg (PointOperation op)
                   \<or> x = Meet (getOperands env op ! j) blockArg)"
    by blast
  from assms(1,2) have "getBeginOperandIndex (getForwardedOperands (getSuccessorOperands env op index))
        + rangeSize (getForwardedOperands (getSuccessorOperands env op index))
      \<le> length (getOperands env op)"
    by (simp add: forwardedRangesInBounds_def list_all_iff)
  with assms(3) have i: "i < length (getOperands env op)"
    by (simp add: forwardedTo_def Let_def)
  with bits assms(2,3) len have cleared: "i < length unaccounted \<and> \<not> unaccounted ! i" by auto
  then have "i \<notin> set (set_bits unaccounted)" by (simp add: set_bits_def)
  moreover have "VisitBranchOperand op i \<notin> set effects" using effects by fastforce
  ultimately have dropped:
    "VisitBranchOperand op i \<notin> set (effects @ map (VisitBranchOperand op) (set_bits unaccounted))"
    by auto
  have meets: "\<exists>index j. index < length (getSuccessors env op) \<and> forwardedTo env op index j \<and> j \<noteq> i
             \<and> lhs = getOperands env op ! j
             \<and> getBranchSuccessorArgument env (getSuccessorOperands env op index) j
                  (getSuccessors env op ! index) = Some rhs"
    if "Meet lhs rhs \<in> set (effects @ map (VisitBranchOperand op) (set_bits unaccounted))" for lhs rhs
  proof -
    from that have "Meet lhs rhs \<in> set effects" by auto
    with effects obtain index' j blockArg where
      found: "index' < length (getSuccessors env op)" "forwardedTo env op index' j"
        "getBranchSuccessorArgument env (getSuccessorOperands env op index') j
           (getSuccessors env op ! index') = Some blockArg"
        "Meet lhs rhs = AddDependency blockArg (PointOperation op)
           \<or> Meet lhs rhs = Meet (getOperands env op ! j) blockArg"
      by blast
    from found(1,2,3) assms(4) have "j \<noteq> i" by auto
    with found show ?thesis by auto
  qed
  from loop cleared branch dropped meets show ?thesis by blast
qed

lemma branchWithoutArguments_loop:
  "visitBranch_successors branchWithoutArguments 2 (enumerate 0 (getSuccessors branchWithoutArguments 2))
     (replicate (length (getOperands branchWithoutArguments 2)) True, [])
   = Inr ([False, False, True], [])"
  by code_simp

theorem C10_witness:
  "forwardedRangesInBounds branchWithoutArguments 2
   \<and> 0 < length (getSuccessors branchWithoutArguments 2)
   \<and> forwardedTo branchWithoutArguments 2 0 0
   \<and> getBranchSuccessorArgument branchWithoutArguments
        (getSuccessorOperands branchWithoutArguments 2 0) 0 (getSuccessors branchWithoutArguments 2 ! 0)
       = None
   \<and> visitBranch_successors branchWithoutArguments 2
        (enumerate 0 (getSuccessors branchWithoutArguments 2))
        (replicate (length (getOperands branchWithoutArguments 2)) True, [])
       = Inr ([False, False, True], [])
   \<and> backward_visitBranch branchWithoutArguments 2 = Inr [VisitBranchOperand 2 2]
   \<and> VisitBranchOperand 2 0 \<notin> set [VisitBranchOperand 2 2]"
proof -
  have h: "forwardedRangesInBounds branchWithoutArguments 2"
    "0 < length (getSuccessors branchWithoutArguments 2)"
    "forwardedTo branchWithoutArguments 2 0 0"
    by code_simp+
  have none: "\<forall>index < length (getSuccessors branchWithoutArguments 2).
           forwardedTo branchWithoutArguments 2 index 0 \<longrightarrow>
           getBranchSuccessorArgument branchWithoutArguments
             (getSuccessorOperands branchWithoutArguments 2 index) 0
             (getSuccessors branchWithoutArguments 2 ! index) = None"
    by (simp add: branchWithoutArguments_def)
  have g: "getBranchSuccessorArgument branchWithoutArguments
        (getSuccessorOperands branchWithoutArguments 2 0) 0 (getSuccessors branchWithoutArguments 2 ! 0)
       = None"
    by (simp add: branchWithoutArguments_def)
  from C10_forwarded_operand_without_block_argument[OF h none] branchWithoutArguments_loop
  have "backward_visitBranch branchWithoutArguments 2
          = Inr ([] @ map (VisitBranchOperand 2) (set_bits [False, False, True]))"
    and "VisitBranchOperand 2 0 \<notin> set ([] @ map (VisitBranchOperand 2) (set_bits [False, False, True]))"
    by auto
  moreover have "set_bits [False, False, True] = [2]" by code_simp
  ultimately have "backward_visitBranch branchWithoutArguments 2 = Inr [VisitBranchOperand 2 2]"
    and "VisitBranchOperand 2 0 \<notin> set [VisitBranchOperand 2 2]"
    by simp_all
  with h g branchWithoutArguments_loop show ?thesis by blast
qed

section \<open>Fixpoints of the forward driver\<close>

text \<open>The calls of a forward visit: the hooks are handed distinct lattices.\<close>

lemma distinct_getResults [simp]: "distinct (getResults env op)"
  by (simp add: getResults_def distinct_map inj_on_def)

lemma distinct_getArguments [simp]: "distinct (getArguments env block)"
  by (simp add: getArguments_def distinct_map inj_on_def)

lemma forwardEffect_joinFor [simp]: "e \<in> set (joinFor point lhs v) \<Longrightarrow> forwardEffect e"
  by (auto simp: joinFor_def getLatticeElementFor_def)

lemma forwardEffect_setAllToEntryStates [simp]:
  "e \<in> set (setAllToEntryStates ls) \<Longrightarrow> forwardEffect e"
  by (auto simp: setAllToEntryStates_def)

lemma forwardEffect_zip_joinFor:
  "e \<in> set (concat (map (\<lambda>(operand, lattice). joinFor point lattice operand) pairs))
     \<Longrightarrow> forwardEffect e"
  by auto

lemma visitNonControlFlowArguments_forwardEffect:
  "visitNonControlFlowArguments env point branch inputs lattices = Inr (firstIndex, hook)
     \<Longrightarrow> distinct lattices \<Longrightarrow> e \<in> set hook \<Longrightarrow> forwardEffect e"
  by (auto simp: visitNonControlFlowArguments_def bindE_def Let_def
           split: if_splits ProgramPoint.splits sum.splits)

lemma visitRegionSuccessors_loop_forwardEffect:
  "visitRegionSuccessors_loop env point branch successorIndex lattices predecessors ops = Inr es
     \<Longrightarrow> distinct lattices \<Longrightarrow> \<forall>e \<in> set es. forwardEffect e"
proof (induction ops arbitrary: es)
  case Nil
  then show ?case by simp
next
  case (Cons op ops)
  show ?case
  proof (cases "op = branch \<or> isRegionBranchTerminatorOp env op")
    case False
    with Cons.prems show ?thesis by auto
  next
    case True
    define operands where "operands =
      (if op = branch then operandRangeValues env branch (getEntrySuccessorOperands env branch successorIndex)
       else operandRangeValues env op (getTerminatorSuccessorOperands env op successorIndex))"
    from True Cons.prems obtain firstIndex hook dropped rest where
      h: "visitNonControlFlowArguments env point branch (getPredecessorInputs predecessors op) lattices
            = Inr (firstIndex, hook)"
      and r: "visitRegionSuccessors_loop env point branch successorIndex lattices predecessors ops = Inr rest"
      and es: "es = hook @ concat (map (\<lambda>(operand, lattice). joinFor point lattice operand)
                                     (zip operands dropped)) @ rest"
      by (auto simp: operands_def Let_def split: if_splits sum.splits prod.splits)
    from visitNonControlFlowArguments_forwardEffect[OF h Cons.prems(2)]
    have "\<forall>e \<in> set hook. forwardEffect e" by blast
    moreover from Cons.IH[OF r Cons.prems(2)] have "\<forall>e \<in> set rest. forwardEffect e" .
    moreover have "\<forall>e \<in> set (concat (map (\<lambda>(operand, lattice). joinFor point lattice operand)
                                     (zip operands dropped))). forwardEffect e"
      using forwardEffect_zip_joinFor by blast
    ultimately show ?thesis unfolding es by auto
  qed
qed

lemma forward_visitRegionSuccessors_forwardEffect:
  assumes "forward_visitRegionSuccessors env point branch successorIndex lattices = Inr es"
    and "distinct lattices"
  shows "\<forall>e \<in> set es. forwardEffect e"
proof -
  from assms(1) obtain es' where
    loop: "visitRegionSuccessors_loop env point branch successorIndex lattices
             (getPredecessorState env point) (getKnownPredecessors (getPredecessorState env point)) = Inr es'"
    and es: "es = GetOrCreateFor point point # es'"
    by (auto simp: forward_visitRegionSuccessors_def Let_def bindE_def split: if_splits sum.splits)
  from visitRegionSuccessors_loop_forwardEffect[OF loop assms(2)] es show ?thesis by simp
qed

lemma forward_visitOperation_forwardEffect:
  assumes "forward_visitOperation env op = Inr es"
  shows "\<forall>e \<in> set es. forwardEffect e"
proof (cases "getNumResults env op = 0 \<or> \<not> isLive env (PointBlock (getBlock env op))")
  case True
  with assms have "es = []" by (auto simp: forward_visitOperation_def split: if_splits)
  then show ?thesis by simp
next
  case live: False
  show ?thesis
  proof (cases "isRegionBranchOp env op")
    case True
    with live assms have
      "forward_visitRegionSuccessors env (PointOperation op) op None (getResults env op) = Inr es"
      by (simp add: forward_visitOperation_def Let_def)
    then show ?thesis by (rule forward_visitRegionSuccessors_forwardEffect) simp
  next
    case notRegion: False
    show ?thesis
    proof (cases "isCallOp env op")
      case True
      with live notRegion assms show ?thesis
        by (auto simp: forward_visitOperation_def Let_def split: if_splits)
    next
      case False
      with live notRegion assms
      have "es = map UseDefSubscribe (getOperands env op)
                   @ [Forward_visitOperationImpl op (getOperands env op) (getResults env op)]"
        by (simp add: forward_visitOperation_def Let_def)
      then show ?thesis by auto
    qed
  qed
qed

lemma visitBlock_arguments_forwardEffect:
  "visitBlock_arguments env block branch operands pairs = Inr es \<Longrightarrow> \<forall>e \<in> set es. forwardEffect e"
proof (induction pairs arbitrary: es)
  case Nil
  then show ?case by simp
next
  case (Cons p pairs)
  obtain idx lattice where p: "p = (idx, lattice)" by (cases p)
  from Cons.prems p obtain operand rest where
    r: "visitBlock_arguments env block branch operands pairs = Inr rest"
    and es: "es = (case operand of Some v \<Rightarrow> joinFor (PointBlock block) lattice v
                   | None \<Rightarrow> setAllToEntryStates [lattice]) @ rest"
    by (auto split: sum.splits)
  have "\<forall>e \<in> set (case operand of Some v \<Rightarrow> joinFor (PointBlock block) lattice v
                   | None \<Rightarrow> setAllToEntryStates [lattice]). forwardEffect e"
    by (cases operand) auto
  with Cons.IH[OF r] es show ?case by auto
qed

lemma visitBlock_predecessors_forwardEffect:
  "visitBlock_predecessors env block argLattices preds = Inr es \<Longrightarrow> \<forall>e \<in> set es. forwardEffect e"
proof (induction preds arbitrary: es)
  case Nil
  then show ?case by simp
next
  case (Cons p preds)
  obtain predecessor successorIndex where p: "p = (predecessor, successorIndex)" by (cases p)
  show ?case
  proof (cases "isLive env (PointCFGEdge predecessor block)")
    case False
    with Cons.prems p obtain rest where
      r: "visitBlock_predecessors env block argLattices preds = Inr rest"
      and es: "es = BlockContentSubscribe (PointCFGEdge predecessor block) # rest"
      by (auto split: sum.splits)
    from Cons.IH[OF r] es show ?thesis by simp
  next
    case live: True
    show ?thesis
    proof (cases "isBranchOp env (getTerminator env predecessor)")
      case False
      with live Cons.prems p
      have "es = BlockContentSubscribe (PointCFGEdge predecessor block) # setAllToEntryStates argLattices"
        by simp
      then show ?thesis by auto
    next
      case True
      with live Cons.prems p obtain effects rest where
        a: "visitBlock_arguments env block (getTerminator env predecessor)
              (getSuccessorOperands env (getTerminator env predecessor) successorIndex)
              (enumerate 0 argLattices) = Inr effects"
        and r: "visitBlock_predecessors env block argLattices preds = Inr rest"
        and es: "es = BlockContentSubscribe (PointCFGEdge predecessor block) # effects @ rest"
        by (auto simp: Let_def split: sum.splits)
      from visitBlock_arguments_forwardEffect[OF a] Cons.IH[OF r] es show ?thesis by auto
    qed
  qed
qed

lemma visitBlock_callsites_forwardEffect:
  "visitBlock_callsites env block argLattices callsites = Inr es \<Longrightarrow> \<forall>e \<in> set es. forwardEffect e"
proof (induction callsites arbitrary: es)
  case Nil
  then show ?case by simp
next
  case (Cons callsite callsites)
  from Cons.prems obtain rest where
    r: "visitBlock_callsites env block argLattices callsites = Inr rest"
    and es: "es = concat (map (\<lambda>(operand, lattice). joinFor (PointBlock block) lattice operand)
                            (zip (getArgOperands env callsite) argLattices)) @ rest"
    by (auto split: if_splits sum.splits)
  from Cons.IH[OF r] show ?case unfolding es by auto
qed

lemma forward_visitBlock_forwardEffect:
  assumes "forward_visitBlock env block = Inr es"
  shows "\<forall>e \<in> set es. forwardEffect e"
proof (cases "getNumArguments env block = 0 \<or> \<not> isLive env (PointBlock block)")
  case True
  with assms have "es = []" by (auto simp: forward_visitBlock_def split: if_splits)
  then show ?thesis by simp
next
  case live: False
  show ?thesis
  proof (cases "isEntryBlock env block")
    case False
    with live assms
    have "visitBlock_predecessors env block (getArguments env block) (getBlockPredecessors env block) = Inr es"
      by (simp add: forward_visitBlock_def Let_def)
    then show ?thesis by (rule visitBlock_predecessors_forwardEffect)
  next
    case entry: True
    with live assms obtain parent where parent: "getBlockParentOp env block = Some parent"
      by (auto simp: forward_visitBlock_def Let_def split: option.splits)
    show ?thesis
    proof (cases "isCallableOp env parent \<and> getCallableRegion env parent = Some (getParent env block)")
      case callable: True
      show ?thesis
      proof (cases "allPredecessorsKnown (getPredecessorState env (PointOperation parent))")
        case False
        with callable entry live parent assms
        have "es = GetOrCreateFor (PointBlock block) (PointOperation parent)
                     # setAllToEntryStates (getArguments env block)"
          by (simp add: forward_visitBlock_def Let_def)
        then show ?thesis by auto
      next
        case True
        with callable entry live parent assms obtain effects where
          c: "visitBlock_callsites env block (getArguments env block)
                (getKnownPredecessors (getPredecessorState env (PointOperation parent))) = Inr effects"
          and es: "es = GetOrCreateFor (PointBlock block) (PointOperation parent) # effects"
          by (auto simp: forward_visitBlock_def Let_def bindE_def split: sum.splits)
        from visitBlock_callsites_forwardEffect[OF c] es show ?thesis by simp
      qed
    next
      case notCallable: False
      show ?thesis
      proof (cases "isRegionBranchOp env parent")
        case True
        with notCallable entry live parent assms
        have "forward_visitRegionSuccessors env (PointBlock block) parent
                (Some (getRegionNumber env (getParent env block))) (getArguments env block) = Inr es"
          by (auto simp: forward_visitBlock_def Let_def)
        then show ?thesis by (rule forward_visitRegionSuccessors_forwardEffect) simp
      next
        case False
        with notCallable entry live parent assms
        have "es = [VisitNonControlFlowArgumentsImpl parent
                      \<lparr>getSuccessor = Some (getParent env block), getSuccessorInputs = []\<rparr>
                      (getArguments env block) 0]"
          by (auto simp: forward_visitBlock_def Let_def)
        then show ?thesis by simp
      qed
    qed
  qed
qed

lemma forward_visit_forwardEffect:
  assumes "forward_visit env point = Inr (r, es)"
  shows "\<forall>e \<in> set es. forwardEffect e"
proof (cases point)
  case (PointOperation op)
  with assms have "forward_visitOperation env op = Inr es"
    by (auto simp: forward_visit_def bindE_def split: sum.splits)
  then show ?thesis by (rule forward_visitOperation_forwardEffect)
next
  case (PointBlock block)
  with assms have "forward_visitBlock env block = Inr es"
    by (auto simp: forward_visit_def bindE_def split: sum.splits)
  then show ?thesis by (rule forward_visitBlock_forwardEffect)
next
  case (PointValue x)
  with assms show ?thesis by (auto simp: forward_visit_def)
next
  case (PointCFGEdge a b)
  with assms show ?thesis by (auto simp: forward_visit_def)
qed


text \<open>What a hook writes, when it is handed distinct lattices.\<close>

lemma latticeValue_writeLattices:
  "distinct (map fst pairs) \<Longrightarrow>
     latticeValue (writeLattices env pairs s) v
       = (case map_of pairs v of Some x \<Rightarrow> x | None \<Rightarrow> latticeValue s v)"
proof (induction pairs arbitrary: s)
  case Nil
  show ?case by simp
next
  case (Cons p pairs)
  obtain v0 x0 where p: "p = (v0, x0)" by (cases p)
  from Cons.prems p have d: "distinct (map fst pairs)" and fresh: "v0 \<notin> fst ` set pairs" by auto
  from fresh have none: "map_of pairs v0 = None" by (simp add: map_of_eq_None_iff)
  show ?case
  proof (cases "v = v0")
    case True
    with Cons.IH[OF d] none p show ?thesis by simp
  next
    case False
    with Cons.IH[OF d] p show ?thesis by (simp split: option.split)
  qed
qed

lemma hook_writes_value:
  assumes "distinct ls" and "length new = length ls"
  shows "latticeValue (writeLattices env (zip ls new) s) v
           = (if v \<in> set ls then the (map_of (zip ls new) v) else latticeValue s v)"
proof -
  from assms(1) have "distinct (map fst (zip ls new))"
    by (simp add: map_fst_zip_take)
  from latticeValue_writeLattices[OF this]
  have eq: "latticeValue (writeLattices env (zip ls new) s) v
           = (case map_of (zip ls new) v of Some x \<Rightarrow> x | None \<Rightarrow> latticeValue s v)" .
  show ?thesis
  proof (cases "v \<in> set ls")
    case True
    with assms(2) have "map_of (zip ls new) v \<noteq> None" by simp
    with True eq show ?thesis by auto
  next
    case False
    with assms(2) have "map_of (zip ls new) v = None" by simp
    with False eq show ?thesis by simp
  qed
qed

lemma hook_writes_nth:
  assumes "distinct ls" and "length new = length ls" and "i < length ls"
  shows "latticeValue (writeLattices env (zip ls new) s) (ls ! i) = new ! i"
proof -
  from assms have "map_of (zip ls new) (ls ! i) = Some (new ! i)"
    by (simp add: map_of_zip_nth)
  with hook_writes_value[OF assms(1,2), of env s "ls ! i"] assms(3) show ?thesis by simp
qed

lemma writeLattices_no_change:
  "\<not> writesReportChange env pairs s \<Longrightarrow> writeLattices env pairs s = s"
  by (induction pairs arbitrary: s)
     (auto simp: updateAndPropagate_def update_def propagateIfChanged_def split: if_splits)

lemma hook_writes_change:
  assumes "distinct ls" and "length new = length ls"
    and "writesReportChange env (zip ls new) s"
  shows "latticeValue (writeLattices env (zip ls new) s) \<noteq> latticeValue s"
proof
  assume same: "latticeValue (writeLattices env (zip ls new) s) = latticeValue s"
  have "new ! i = latticeValue s (ls ! i)" if "i < length ls" for i
    using hook_writes_nth[OF assms(1,2) that, of env s] same by simp
  then have all: "\<forall>(v, x) \<in> set (zip ls new). x = latticeValue s v"
    by (auto simp: set_zip)
  have "\<forall>(v, x) \<in> set pairs. x = latticeValue s v \<Longrightarrow> \<not> writesReportChange env pairs s" for pairs
    by (induction pairs arbitrary: s)
       (auto simp: updateAndPropagate_def update_def propagateIfChanged_def)
  from this[OF all] assms(3) show False by simp
qed


text \<open>Under the contract, a call of a forward visit moves no lattice down.\<close>

lemma list_all2_latticeLe:
  "latticeLe le f g \<Longrightarrow> list_all2 le (map f vs) (map g vs)"
  by (simp add: latticeLe_def list_all2_map1 list_all2_map2 list_all2_same)

lemma hook_inflationary:
  assumes "distinct ls" and "list_all2 le (map (latticeValue s) ls) new"
    and "\<forall>x. le x x"
  shows "latticeLe le (latticeValue s) (latticeValue (writeLattices env (zip ls new) s))"
  unfolding latticeLe_def
proof
  fix v
  from assms(2) have len: "length new = length ls" by (auto dest: list_all2_lengthD)
  show "le (latticeValue s v) (latticeValue (writeLattices env (zip ls new) s) v)"
  proof (cases "v \<in> set ls")
    case False
    with hook_writes_value[OF assms(1) len, of env s v] assms(3) show ?thesis by simp
  next
    case True
    then obtain i where i: "i < length ls" "ls ! i = v" by (auto simp: in_set_conv_nth)
    from assms(2) i(1) have "le (latticeValue s (ls ! i)) (new ! i)"
      by (auto dest: list_all2_nthD2 simp: len)
    with hook_writes_nth[OF assms(1) len i(1), of env s] i(2) show ?thesis by simp
  qed
qed

lemma hook_monotone:
  assumes "distinct ls" and "length new = length ls" and "length new' = length ls"
    and "list_all2 le new new'" and "latticeLe le (latticeValue s) (latticeValue t)"
  shows "latticeLe le (latticeValue (writeLattices env (zip ls new) s))
           (latticeValue (writeLattices env (zip ls new') t))"
  unfolding latticeLe_def
proof
  fix v
  show "le (latticeValue (writeLattices env (zip ls new) s) v)
          (latticeValue (writeLattices env (zip ls new') t) v)"
  proof (cases "v \<in> set ls")
    case False
    with hook_writes_value[OF assms(1,2), of env s v] hook_writes_value[OF assms(1,3), of env t v]
      assms(5)
    show ?thesis by (simp add: latticeLe_def)
  next
    case True
    then obtain i where i: "i < length ls" "ls ! i = v" by (auto simp: in_set_conv_nth)
    from assms(4) i(1) assms(2) have "le (new ! i) (new' ! i)"
      by (auto dest: list_all2_nthD)
    with hook_writes_nth[OF assms(1,2) i(1), of env s] hook_writes_nth[OF assms(1,3) i(1), of env t] i(2)
    show ?thesis by simp
  qed
qed

lemma exec_inflationary:
  assumes join: "joinContract le (latticeJoin A)" and hooks: "hookContract le A"
    and e: "forwardEffect e"
  shows "latticeLe le (latticeValue s) (latticeValue (exec A env e s))"
proof -
  from join have refl: "\<forall>x. le x x" by (simp add: joinContract_def)
  show ?thesis
  proof (cases e)
    case (Join lhs rhs)
    with join refl show ?thesis by (simp add: latticeLe_def joinContract_def)
  next
    case (SetToEntryState v)
    with hooks refl show ?thesis by (simp add: latticeLe_def hookContract_def)
  next
    case (Forward_visitOperationImpl op operands results)
    with e have d: "distinct results" by simp
    from hooks have "list_all2 le (map (latticeValue s) results)
        (forward_visitOperationImpl A op (map (latticeValue s) operands) (map (latticeValue s) results))"
      by (simp add: hookContract_def)
    from hook_inflationary[OF d this refl] Forward_visitOperationImpl show ?thesis by simp
  next
    case (VisitNonControlFlowArgumentsImpl op successor lattices firstIndex)
    with e have d: "distinct lattices" by simp
    from hooks have "list_all2 le (map (latticeValue s) lattices)
        (visitNonControlFlowArgumentsImpl A op successor (map (latticeValue s) lattices) firstIndex)"
      by (simp add: hookContract_def)
    from hook_inflationary[OF d this refl] VisitNonControlFlowArgumentsImpl show ?thesis by simp
  qed (use e refl in \<open>simp_all add: latticeLe_def\<close>)
qed

text \<open>Under the contract, a call of a forward visit is monotone in the lattice values.\<close>

lemma exec_monotone:
  assumes join: "joinContract le (latticeJoin A)" and hooks: "hookContract le A"
    and e: "forwardEffect e"
    and st: "latticeLe le (latticeValue s) (latticeValue t)"
  shows "latticeLe le (latticeValue (exec A env e s)) (latticeValue (exec A env e t))"
proof -
  from join have refl: "\<forall>x. le x x" by (simp add: joinContract_def)
  from join have mono: "\<forall>x y x' y'. le x x' \<longrightarrow> le y y' \<longrightarrow>
      le (latticeJoin A x y) (latticeJoin A x' y')"
    by (simp add: joinContract_def)
  show ?thesis
  proof (cases e)
    case (Join lhs rhs)
    with mono st show ?thesis by (simp add: latticeLe_def)
  next
    case (SetToEntryState v)
    with refl st show ?thesis by (simp add: latticeLe_def)
  next
    case (Forward_visitOperationImpl op operands results)
    with e have d: "distinct results" by simp
    define new where "new = forward_visitOperationImpl A op (map (latticeValue s) operands)
                              (map (latticeValue s) results)"
    define new' where "new' = forward_visitOperationImpl A op (map (latticeValue t) operands)
                               (map (latticeValue t) results)"
    from hooks have "list_all2 le (map (latticeValue s) results) new"
      "list_all2 le (map (latticeValue t) results) new'"
      by (simp_all add: hookContract_def new_def new'_def)
    then have len: "length new = length results" "length new' = length results"
      by (auto dest: list_all2_lengthD)
    from hooks list_all2_latticeLe[OF st, of operands] list_all2_latticeLe[OF st, of results]
    have "list_all2 le new new'"
      unfolding new_def new'_def hookContract_def by blast
    from hook_monotone[OF d len this st] Forward_visitOperationImpl show ?thesis
      by (simp add: new_def new'_def)
  next
    case (VisitNonControlFlowArgumentsImpl op successor lattices firstIndex)
    with e have d: "distinct lattices" by simp
    define new where "new = visitNonControlFlowArgumentsImpl A op successor
                              (map (latticeValue s) lattices) firstIndex"
    define new' where "new' = visitNonControlFlowArgumentsImpl A op successor
                               (map (latticeValue t) lattices) firstIndex"
    from hooks have "list_all2 le (map (latticeValue s) lattices) new"
      "list_all2 le (map (latticeValue t) lattices) new'"
      by (simp_all add: hookContract_def new_def new'_def)
    then have len: "length new = length lattices" "length new' = length lattices"
      by (auto dest: list_all2_lengthD)
    from hooks list_all2_latticeLe[OF st, of lattices]
    have "list_all2 le new new'"
      unfolding new_def new'_def hookContract_def by blast
    from hook_monotone[OF d len this st] VisitNonControlFlowArgumentsImpl show ?thesis
      by (simp add: new_def new'_def)
  qed (use e st in \<open>simp_all add: latticeLe_def\<close>)
qed


text \<open>A call that reports no change leaves the lattice values and the queue alone.\<close>

lemma exec_no_change:
  assumes "\<not> reportsChange A env e s"
  shows "latticeValue (exec A env e s) = latticeValue s \<and> worklist (exec A env e s) = worklist s"
proof (cases e)
  case (Forward_visitOperationImpl op operands results)
  with assms writeLattices_no_change show ?thesis by fastforce
next
  case (VisitNonControlFlowArgumentsImpl op successor lattices firstIndex)
  with assms writeLattices_no_change show ?thesis by fastforce
next
  case (Backward_visitOperationImpl op operands results)
  with assms writeLattices_no_change show ?thesis by fastforce
qed (use assms in \<open>auto simp: updateAndPropagate_def update_def propagateIfChanged_def Let_def
                          split: if_splits\<close>)

lemma exec_change:
  assumes "reportsChange A env e s" and "forwardEffect e"
    and hooks: "hookContract le A"
  shows "latticeValue (exec A env e s) \<noteq> latticeValue s"
proof (cases e)
  case (Join lhs rhs)
  with assms(1) show ?thesis by (auto simp: update_def fun_upd_idem_iff split: if_splits)
next
  case (SetToEntryState v)
  with assms(1) show ?thesis by (auto simp: update_def fun_upd_idem_iff split: if_splits)
next
  case (Forward_visitOperationImpl op operands results)
  with assms(2) have d: "distinct results" by simp
  from hooks have "list_all2 le (map (latticeValue s) results)
        (forward_visitOperationImpl A op (map (latticeValue s) operands) (map (latticeValue s) results))"
    by (simp add: hookContract_def)
  then have "length (forward_visitOperationImpl A op (map (latticeValue s) operands)
                       (map (latticeValue s) results)) = length results"
    by (auto dest: list_all2_lengthD)
  from hook_writes_change[OF d this] assms(1) Forward_visitOperationImpl show ?thesis by simp
next
  case (VisitNonControlFlowArgumentsImpl op successor lattices firstIndex)
  with assms(2) have d: "distinct lattices" by simp
  from hooks have "list_all2 le (map (latticeValue s) lattices)
        (visitNonControlFlowArgumentsImpl A op successor (map (latticeValue s) lattices) firstIndex)"
    by (simp add: hookContract_def)
  then have "length (visitNonControlFlowArgumentsImpl A op successor (map (latticeValue s) lattices)
                       firstIndex) = length lattices"
    by (auto dest: list_all2_lengthD)
  from hook_writes_change[OF d this] assms(1) VisitNonControlFlowArgumentsImpl show ?thesis by simp
qed (use assms(1,2) in simp_all)

lemma joinContract_refl: "joinContract le join \<Longrightarrow> le x x"
  by (simp add: joinContract_def)

lemma joinContract_trans:
  assumes "joinContract le join" "le x y" "le y z"
  shows "le x z"
proof -
  from assms(1) have "\<forall>x y z. le x y \<longrightarrow> le y z \<longrightarrow> le x z" by (simp add: joinContract_def)
  with assms(2,3) show ?thesis by blast
qed

lemma joinContract_antisym:
  assumes "joinContract le join" "le x y" "le y x"
  shows "x = y"
proof -
  from assms(1) have "\<forall>x y. le x y \<longrightarrow> le y x \<longrightarrow> x = y" by (simp add: joinContract_def)
  with assms(2,3) show ?thesis by blast
qed

lemma latticeLe_antisym:
  assumes "joinContract le join" "latticeLe le f g" "latticeLe le g f"
  shows "f = g"
proof
  fix v
  from assms(2,3) have "le (f v) (g v)" "le (g v) (f v)" by (simp_all add: latticeLe_def)
  then show "f v = g v" by (rule joinContract_antisym[OF assms(1)])
qed

lemma latticeLe_trans:
  assumes "joinContract le join" "latticeLe le f g" "latticeLe le g h"
  shows "latticeLe le f h"
  unfolding latticeLe_def
proof
  fix v
  from assms(2,3) have "le (f v) (g v)" "le (g v) (h v)" by (simp_all add: latticeLe_def)
  then show "le (f v) (h v)" by (rule joinContract_trans[OF assms(1)])
qed

lemma latticeLe_refl: "joinContract le join \<Longrightarrow> latticeLe le f f"
  by (simp add: latticeLe_def joinContract_refl)

lemma run_inflationary:
  assumes join: "joinContract le (latticeJoin A)" and hooks: "hookContract le A"
  shows "\<forall>e \<in> set es. forwardEffect e \<Longrightarrow> latticeLe le (latticeValue s) (latticeValue (run A env es s))"
proof (induction es arbitrary: s)
  case Nil
  from latticeLe_refl[OF join] show ?case by simp
next
  case (Cons e es)
  from exec_inflationary[OF join hooks, of e s env] Cons.prems
  have a: "latticeLe le (latticeValue s) (latticeValue (exec A env e s))" by simp
  from Cons.IH[of "exec A env e s"] Cons.prems
  have b: "latticeLe le (latticeValue (exec A env e s)) (latticeValue (run A env es (exec A env e s)))"
    by simp
  from latticeLe_trans[OF join a b] show ?case by simp
qed

lemma run_monotone:
  assumes join: "joinContract le (latticeJoin A)" and hooks: "hookContract le A"
  shows "\<forall>e \<in> set es. forwardEffect e \<Longrightarrow> latticeLe le (latticeValue s) (latticeValue t)
     \<Longrightarrow> latticeLe le (latticeValue (run A env es s)) (latticeValue (run A env es t))"
proof (induction es arbitrary: s t)
  case Nil
  then show ?case by simp
next
  case (Cons e es)
  from exec_monotone[OF join hooks, of e s t env] Cons.prems
  have "latticeLe le (latticeValue (exec A env e s)) (latticeValue (exec A env e t))" by simp
  with Cons.IH[of "exec A env e s" "exec A env e t"] Cons.prems show ?case by simp
qed

text \<open>
  A visit that ends with the lattice values it started from has reported no change: no
  call can move a lattice down again.
\<close>

lemma run_back_to_start:
  assumes join: "joinContract le (latticeJoin A)" and hooks: "hookContract le A"
  shows "\<forall>e \<in> set es. forwardEffect e \<Longrightarrow> latticeValue (run A env es s) = latticeValue s
     \<Longrightarrow> \<not> visitReportsChange A env es s \<and> worklist (run A env es s) = worklist s"
proof (induction es arbitrary: s)
  case Nil
  show ?case by simp
next
  case (Cons e es)
  let ?s1 = "exec A env e s"
  from Cons.prems have fe: "forwardEffect e" and fes: "\<forall>e \<in> set es. forwardEffect e" by simp_all
  have up: "latticeLe le (latticeValue s) (latticeValue ?s1)"
    by (rule exec_inflationary[OF join hooks fe])
  have "latticeLe le (latticeValue ?s1) (latticeValue (run A env es ?s1))"
    by (rule run_inflationary[OF join hooks fes])
  with Cons.prems(2) have down: "latticeLe le (latticeValue ?s1) (latticeValue s)" by simp
  from latticeLe_antisym[OF join up down] have same: "latticeValue ?s1 = latticeValue s" by simp
  with exec_change[OF _ fe hooks, of env s] have quiet: "\<not> reportsChange A env e s" by blast
  from exec_no_change[OF quiet] have w: "worklist ?s1 = worklist s" by simp
  from Cons.prems(2) same have "latticeValue (run A env es ?s1) = latticeValue ?s1" by simp
  from Cons.IH[OF fes this] quiet w show ?case by simp
qed


text \<open>The lattice values after a visit depend on the lattice values before it only.\<close>

lemma latticeValue_writeLattices_cong:
  "latticeValue s = latticeValue t
     \<Longrightarrow> latticeValue (writeLattices env pairs s) = latticeValue (writeLattices env pairs t)"
  by (induction pairs arbitrary: s t) auto

lemma exec_latticeValue_cong:
  assumes "latticeValue s = latticeValue t"
  shows "latticeValue (exec A env e s) = latticeValue (exec A env e t)"
proof (cases e)
  case (Forward_visitOperationImpl op operands results)
  with assms latticeValue_writeLattices_cong[OF assms] show ?thesis by simp
next
  case (VisitNonControlFlowArgumentsImpl op successor lattices firstIndex)
  with assms latticeValue_writeLattices_cong[OF assms] show ?thesis by simp
next
  case (Backward_visitOperationImpl op operands results)
  with assms latticeValue_writeLattices_cong[OF assms] show ?thesis by simp
qed (use assms in \<open>simp_all add: Let_def\<close>)

lemma run_latticeValue_cong:
  "latticeValue s = latticeValue t
     \<Longrightarrow> latticeValue (run A env es s) = latticeValue (run A env es t)"
proof (induction es arbitrary: s t)
  case Nil
  then show ?case by simp
next
  case (Cons e es)
  from Cons.IH[OF exec_latticeValue_cong[OF Cons.prems, of A env e]] show ?case by simp
qed

lemma converged_cong:
  assumes "converged A env s" "latticeValue t = latticeValue s"
  shows "converged A env t"
  unfolding converged_def
proof (intro allI impI)
  fix point r effects
  assume "forward_visit env point = Inr (r, effects)"
  with assms(1) have "latticeValue (run A env effects s) = latticeValue s"
    by (simp add: converged_def)
  with run_latticeValue_cong[OF assms(2), of A env effects] assms(2)
  show "latticeValue (run A env effects t) = latticeValue t" by simp
qed

text \<open>At a fixpoint, a visit reports no change and leaves the queue as it was.\<close>

lemma converged_visit_reports_no_change:
  assumes join: "joinContract le (latticeJoin A)" and hooks: "hookContract le A"
    and fp: "converged A env s" and visit: "forward_visit env point = Inr (r, effects)"
  shows "\<not> visitReportsChange A env effects s \<and> latticeValue (run A env effects s) = latticeValue s
         \<and> worklist (run A env effects s) = worklist s"
proof -
  from fp visit have same: "latticeValue (run A env effects s) = latticeValue s"
    by (simp add: converged_def)
  from run_back_to_start[OF join hooks forward_visit_forwardEffect[OF visit] same] same
  show ?thesis by simp
qed

lemma converged_visits_change_nothing:
  assumes join: "joinContract le (latticeJoin A)" and hooks: "hookContract le A"
  shows "converged A env s \<Longrightarrow> forward_visits A env points s = Some s'
     \<Longrightarrow> latticeValue s' = latticeValue s \<and> worklist s' = worklist s"
proof (induction points arbitrary: s)
  case Nil
  then show ?case by simp
next
  case (Cons point points)
  from Cons.prems(2) obtain effects where
    visit: "forward_visit env point = Inr (success, effects)"
    and rest: "forward_visits A env points (run A env effects s) = Some s'"
    by (auto split: sum.splits prod.splits LogicalResult.splits)
  from converged_visit_reports_no_change[OF join hooks Cons.prems(1) visit]
  have same: "latticeValue (run A env effects s) = latticeValue s"
    and w: "worklist (run A env effects s) = worklist s"
    by simp_all
  from converged_cong[OF Cons.prems(1) same] have "converged A env (run A env effects s)" .
  from Cons.IH[OF this rest] same w show ?case by simp
qed

text \<open>Every run of visits stays below every fixpoint it starts below.\<close>

lemma visits_inflationary:
  assumes join: "joinContract le (latticeJoin A)" and hooks: "hookContract le A"
  shows "forward_visits A env points s = Some s' \<Longrightarrow> latticeLe le (latticeValue s) (latticeValue s')"
proof (induction points arbitrary: s)
  case Nil
  with latticeLe_refl[OF join] show ?case by simp
next
  case (Cons point points)
  from Cons.prems obtain effects where
    visit: "forward_visit env point = Inr (success, effects)"
    and rest: "forward_visits A env points (run A env effects s) = Some s'"
    by (auto split: sum.splits prod.splits LogicalResult.splits)
  have a: "latticeLe le (latticeValue s) (latticeValue (run A env effects s))"
    by (rule run_inflationary[OF join hooks forward_visit_forwardEffect[OF visit]])
  from latticeLe_trans[OF join a Cons.IH[OF rest]] show ?case .
qed

lemma visits_below_fixpoint:
  assumes join: "joinContract le (latticeJoin A)" and hooks: "hookContract le A"
    and fp: "converged A env t"
  shows "forward_visits A env points s = Some s' \<Longrightarrow> latticeLe le (latticeValue s) (latticeValue t)
     \<Longrightarrow> latticeLe le (latticeValue s') (latticeValue t)"
proof (induction points arbitrary: s)
  case Nil
  then show ?case by simp
next
  case (Cons point points)
  from Cons.prems(1) obtain effects where
    visit: "forward_visit env point = Inr (success, effects)"
    and rest: "forward_visits A env points (run A env effects s) = Some s'"
    by (auto split: sum.splits prod.splits LogicalResult.splits)
  from fp visit have "latticeValue (run A env effects t) = latticeValue t"
    by (simp add: converged_def)
  with run_monotone[OF join hooks forward_visit_forwardEffect[OF visit] Cons.prems(2), of env]
  have "latticeLe le (latticeValue (run A env effects s)) (latticeValue t)" by simp
  from Cons.IH[OF rest this] show ?case .
qed

lemma fixpoints_agree:
  assumes join: "joinContract le (latticeJoin A)" and hooks: "hookContract le A"
    and "forward_visits A env ps s0 = Some s1" and "forward_visits A env qs s0 = Some s2"
    and "converged A env s1" and "converged A env s2"
  shows "latticeValue s1 = latticeValue s2"
proof -
  from visits_inflationary[OF join hooks assms(4)]
  have "latticeLe le (latticeValue s0) (latticeValue s2)" .
  from visits_below_fixpoint[OF join hooks assms(6) assms(3) this]
  have a: "latticeLe le (latticeValue s1) (latticeValue s2)" .
  from visits_inflationary[OF join hooks assms(3)]
  have "latticeLe le (latticeValue s0) (latticeValue s1)" .
  from visits_below_fixpoint[OF join hooks assms(5) assms(4) this]
  have b: "latticeLe le (latticeValue s2) (latticeValue s1)" .
  from latticeLe_antisym[OF join a b] show ?thesis .
qed

text \<open>
  Claim C7, as amended.  Let the join of the analysis be monotone, inflationary and
  idempotent for a partial order of the lattice, the entry state be the top element, and
  the two transfer hooks of the forward analysis be monotone and inflationary as well.
  Then at a converged state (a fixpoint: no forward visit changes a lattice value) every
  forward visit reports no change for any lattice and leaves the queue as it is; every
  further run of visits, in any order, ends with the same lattice values and the same
  queue; and two runs of visits from one state, in any two orders, that both end in
  converged states end with the same lattice values.
\<close>

theorem C7_fixpoint_is_stable_and_order_independent:
  assumes "joinContract le (latticeJoin A)" and "hookContract le A"
  shows "(converged A env s \<longrightarrow> forward_visit env point = Inr (r, effects) \<longrightarrow>
            \<not> visitReportsChange A env effects s
            \<and> worklist (run A env effects s) = worklist s)
       \<and> (converged A env s \<longrightarrow> forward_visits A env points s = Some s' \<longrightarrow>
            latticeValue s' = latticeValue s \<and> worklist s' = worklist s)
       \<and> (forward_visits A env ps s0 = Some s1 \<longrightarrow> forward_visits A env qs s0 = Some s2 \<longrightarrow>
            converged A env s1 \<longrightarrow> converged A env s2 \<longrightarrow> latticeValue s1 = latticeValue s2)"
proof -
  have a: "converged A env s \<longrightarrow> forward_visit env point = Inr (r, effects) \<longrightarrow>
            \<not> visitReportsChange A env effects s
            \<and> worklist (run A env effects s) = worklist s"
  proof (intro impI)
    assume "converged A env s" "forward_visit env point = Inr (r, effects)"
    then have "\<not> visitReportsChange A env effects s
            \<and> latticeValue (run A env effects s) = latticeValue s
            \<and> worklist (run A env effects s) = worklist s"
      by (rule converged_visit_reports_no_change[OF assms])
    then show "\<not> visitReportsChange A env effects s
            \<and> worklist (run A env effects s) = worklist s"
      by simp
  qed
  have b: "converged A env s \<longrightarrow> forward_visits A env points s = Some s' \<longrightarrow>
            latticeValue s' = latticeValue s \<and> worklist s' = worklist s"
  proof (intro impI)
    assume "converged A env s" "forward_visits A env points s = Some s'"
    then show "latticeValue s' = latticeValue s \<and> worklist s' = worklist s"
      by (rule converged_visits_change_nothing[OF assms])
  qed
  have c: "forward_visits A env ps s0 = Some s1 \<longrightarrow> forward_visits A env qs s0 = Some s2 \<longrightarrow>
            converged A env s1 \<longrightarrow> converged A env s2 \<longrightarrow> latticeValue s1 = latticeValue s2"
  proof (intro impI)
    assume "forward_visits A env ps s0 = Some s1" "forward_visits A env qs s0 = Some s2"
      "converged A env s1" "converged A env s2"
    then show "latticeValue s1 = latticeValue s2"
      by (rule fixpoints_agree[OF assms])
  qed
  from a b c show ?thesis by (intro conjI)
qed


lemma constantJoin_contract: "joinContract constantLe constantJoin"
proof -
  have r: "constantLe x x" for x by (cases x) simp_all
  have t: "constantLe x y \<longrightarrow> constantLe y z \<longrightarrow> constantLe x z" for x y z
    by (cases x; cases y; cases z) simp_all
  have a: "constantLe x y \<longrightarrow> constantLe y x \<longrightarrow> x = y" for x y
    by (cases x; cases y) simp_all
  have m: "constantLe x x' \<longrightarrow> constantLe y y' \<longrightarrow> constantLe (constantJoin x y) (constantJoin x' y')"
    for x y x' y'
    by (cases x; cases y; cases x'; cases y') simp_all
  have i: "constantLe x (constantJoin x y)" for x y
    by (cases x; cases y) simp_all
  have d: "constantJoin x x = x" for x by (cases x) simp_all
  from r t a m i d show ?thesis unfolding joinContract_def by (intro conjI allI)
qed

lemma constantLe_top [simp]: "constantLe x UnknownConstant"
  by (cases x) simp_all

lemma list_all2_top:
  "length xs = length ys \<Longrightarrow> list_all2 constantLe xs (map (\<lambda>_. UnknownConstant) ys)"
  by (simp add: list_all2_conv_all_nth)

lemma constantAnalysis_hooks: "hookContract constantLe constantAnalysis"
proof -
  have top: "\<forall>v x. constantLe x (entryState constantAnalysis v)"
    by (simp add: constantAnalysis_def)
  have i1: "\<forall>op os rs. list_all2 constantLe rs (forward_visitOperationImpl constantAnalysis op os rs)"
    by (simp add: constantAnalysis_def list_all2_top)
  have m1: "\<forall>op os rs os' rs'. list_all2 constantLe os os' \<longrightarrow> list_all2 constantLe rs rs' \<longrightarrow>
      list_all2 constantLe (forward_visitOperationImpl constantAnalysis op os rs)
        (forward_visitOperationImpl constantAnalysis op os' rs')"
    by (auto simp: constantAnalysis_def list_all2_conv_all_nth)
  have i2: "\<forall>op successor ls firstIndex.
      list_all2 constantLe ls (visitNonControlFlowArgumentsImpl constantAnalysis op successor ls firstIndex)"
    by (simp add: constantAnalysis_def list_all2_top)
  have m2: "\<forall>op successor ls ls' firstIndex. list_all2 constantLe ls ls' \<longrightarrow>
      list_all2 constantLe (visitNonControlFlowArgumentsImpl constantAnalysis op successor ls firstIndex)
        (visitNonControlFlowArgumentsImpl constantAnalysis op successor ls' firstIndex)"
    by (auto simp: constantAnalysis_def list_all2_conv_all_nth)
  from top i1 m1 i2 m2 show ?thesis unfolding hookContract_def by (intro conjI)
qed

lemma regionBranch_visit_2:
  "forward_visit (regionBranch True) (PointOperation 2) =
     Inr (success, [GetOrCreateFor (PointOperation 2) (PointOperation 2),
                    AddDependency (OpResult 6 0) (PointOperation 2),
                    Join (OpResult 2 0) (OpResult 6 0), SetToEntryState (OpResult 2 0)])"
  by code_simp

lemma regionBranch_visit_6:
  "forward_visit (regionBranch True) (PointOperation 6) =
     Inr (success, [Forward_visitOperationImpl 6 [] [OpResult 6 0]])"
  by code_simp

lemma regionBranch_converged:
  assumes "latticeValue s (OpResult 6 0) = UnknownConstant"
    and "latticeValue s (OpResult 2 0) = UnknownConstant"
  shows "converged constantAnalysis (regionBranch True) s"
  unfolding converged_def
proof (intro allI impI)
  fix point r effects
  assume visit: "forward_visit (regionBranch True) point = Inr (r, effects)"
  show "latticeValue (run constantAnalysis (regionBranch True) effects s) = latticeValue s"
  proof (cases point)
    case (PointOperation op)
    consider "op = 2" | "op = 6" | "op \<noteq> 2" "op \<noteq> 6" by blast
    then show ?thesis
    proof cases
      case 1
      with PointOperation visit regionBranch_visit_2
      have "effects = [GetOrCreateFor (PointOperation 2) (PointOperation 2),
                    AddDependency (OpResult 6 0) (PointOperation 2),
                    Join (OpResult 2 0) (OpResult 6 0), SetToEntryState (OpResult 2 0)]"
        by simp
      with assms show ?thesis by (simp add: constantAnalysis_def fun_upd_idem)
    next
      case 2
      with PointOperation visit regionBranch_visit_6
      have "effects = [Forward_visitOperationImpl 6 [] [OpResult 6 0]]" by simp
      with assms show ?thesis by (simp add: constantAnalysis_def fun_upd_idem)
    next
      case 3
      with PointOperation visit have "effects = []"
        by (auto simp: forward_visit_def bindE_def forward_visitOperation_def regionBranch_def
              emptyEnv_def)
      then show ?thesis by simp
    qed
  next
    case (PointBlock block)
    with visit have "effects = []"
      by (auto simp: forward_visit_def bindE_def forward_visitBlock_def regionBranch_def emptyEnv_def)
    then show ?thesis by simp
  next
    case (PointValue x)
    with visit have "effects = []" by (auto simp: forward_visit_def)
    then show ?thesis by simp
  next
    case (PointCFGEdge a b)
    with visit have "effects = []" by (auto simp: forward_visit_def)
    then show ?thesis by simp
  qed
qed

lemma regionBranch_run:
  "forward_visits constantAnalysis (regionBranch True) [PointOperation 6, PointOperation 2] initialState
     = Some regionBranchFixpoint"
  by (simp add: regionBranch_visit_2 regionBranch_visit_6 updateAndPropagate_def update_def
        propagateIfChanged_def onUpdate_def AnalysisState_onUpdate_def constantAnalysis_def
        initialState_def regionBranchFixpoint_def)
     (simp add: regionBranch_def emptyEnv_def)

lemma regionBranch_run':
  "forward_visits constantAnalysis (regionBranch True)
     [PointOperation 2, PointOperation 6, PointOperation 2] initialState
     = Some regionBranchFixpoint'"
  by (simp add: regionBranch_visit_2 regionBranch_visit_6 updateAndPropagate_def update_def
        propagateIfChanged_def onUpdate_def AnalysisState_onUpdate_def constantAnalysis_def
        initialState_def regionBranchFixpoint'_def enqueue_def)
     (simp add: regionBranch_def emptyEnv_def)

lemma regionBranch_rerun:
  "forward_visits constantAnalysis (regionBranch True) [PointOperation 2, PointOperation 6]
     (regionBranchFixpoint\<lparr>dependents := (\<lambda>_. [])\<rparr>) = Some regionBranchFixpoint"
  by (simp add: regionBranch_visit_2 regionBranch_visit_6 updateAndPropagate_def update_def
        propagateIfChanged_def onUpdate_def AnalysisState_onUpdate_def constantAnalysis_def
        regionBranchFixpoint_def)

theorem C7_witness:
  "joinContract constantLe (latticeJoin constantAnalysis) \<and> hookContract constantLe constantAnalysis
   \<and> forward_visits constantAnalysis (regionBranch True) [PointOperation 6, PointOperation 2]
        initialState = Some regionBranchFixpoint
   \<and> forward_visits constantAnalysis (regionBranch True)
        [PointOperation 2, PointOperation 6, PointOperation 2] initialState = Some regionBranchFixpoint'
   \<and> converged constantAnalysis (regionBranch True) regionBranchFixpoint
   \<and> converged constantAnalysis (regionBranch True) regionBranchFixpoint'
   \<and> latticeValue regionBranchFixpoint = latticeValue regionBranchFixpoint'
   \<and> forward_visit (regionBranch True) (PointOperation 2) =
        Inr (success, [GetOrCreateFor (PointOperation 2) (PointOperation 2),
                       AddDependency (OpResult 6 0) (PointOperation 2),
                       Join (OpResult 2 0) (OpResult 6 0), SetToEntryState (OpResult 2 0)])
   \<and> \<not> visitReportsChange constantAnalysis (regionBranch True)
          [GetOrCreateFor (PointOperation 2) (PointOperation 2),
           AddDependency (OpResult 6 0) (PointOperation 2),
           Join (OpResult 2 0) (OpResult 6 0), SetToEntryState (OpResult 2 0)] regionBranchFixpoint
   \<and> worklist (run constantAnalysis (regionBranch True)
          [GetOrCreateFor (PointOperation 2) (PointOperation 2),
           AddDependency (OpResult 6 0) (PointOperation 2),
           Join (OpResult 2 0) (OpResult 6 0), SetToEntryState (OpResult 2 0)] regionBranchFixpoint)
       = worklist regionBranchFixpoint
   \<and> converged constantAnalysis (regionBranch True) (regionBranchFixpoint\<lparr>dependents := (\<lambda>_. [])\<rparr>)
   \<and> forward_visits constantAnalysis (regionBranch True) [PointOperation 2, PointOperation 6]
        (regionBranchFixpoint\<lparr>dependents := (\<lambda>_. [])\<rparr>) = Some regionBranchFixpoint
   \<and> latticeValue regionBranchFixpoint = latticeValue (regionBranchFixpoint\<lparr>dependents := (\<lambda>_. [])\<rparr>)
   \<and> worklist regionBranchFixpoint = worklist (regionBranchFixpoint\<lparr>dependents := (\<lambda>_. [])\<rparr>)"
proof -
  have j: "joinContract constantLe (latticeJoin constantAnalysis)"
    using constantJoin_contract by (simp add: constantAnalysis_def)
  note h = constantAnalysis_hooks
  have c1: "converged constantAnalysis (regionBranch True) regionBranchFixpoint"
    by (rule regionBranch_converged) (simp_all add: regionBranchFixpoint_def)
  have c2: "converged constantAnalysis (regionBranch True) regionBranchFixpoint'"
    by (rule regionBranch_converged) (simp_all add: regionBranchFixpoint'_def)
  note c7 = C7_fixpoint_is_stable_and_order_independent[OF j h]
  from c7[where env = "regionBranch True" and ps = "[PointOperation 6, PointOperation 2]"
          and qs = "[PointOperation 2, PointOperation 6, PointOperation 2]" and ?s0.0 = initialState
          and ?s1.0 = regionBranchFixpoint and ?s2.0 = regionBranchFixpoint']
    regionBranch_run regionBranch_run' c1 c2
  have same: "latticeValue regionBranchFixpoint = latticeValue regionBranchFixpoint'" by blast
  from c7[where env = "regionBranch True" and s = regionBranchFixpoint
          and point = "PointOperation 2" and r = success
          and effects = "[GetOrCreateFor (PointOperation 2) (PointOperation 2),
                       AddDependency (OpResult 6 0) (PointOperation 2),
                       Join (OpResult 2 0) (OpResult 6 0), SetToEntryState (OpResult 2 0)]"]
    c1 regionBranch_visit_2
  have quiet: "\<not> visitReportsChange constantAnalysis (regionBranch True)
          [GetOrCreateFor (PointOperation 2) (PointOperation 2),
           AddDependency (OpResult 6 0) (PointOperation 2),
           Join (OpResult 2 0) (OpResult 6 0), SetToEntryState (OpResult 2 0)] regionBranchFixpoint"
    and w: "worklist (run constantAnalysis (regionBranch True)
          [GetOrCreateFor (PointOperation 2) (PointOperation 2),
           AddDependency (OpResult 6 0) (PointOperation 2),
           Join (OpResult 2 0) (OpResult 6 0), SetToEntryState (OpResult 2 0)] regionBranchFixpoint)
       = worklist regionBranchFixpoint"
    by blast+
  have c3: "converged constantAnalysis (regionBranch True)
              (regionBranchFixpoint\<lparr>dependents := (\<lambda>_. [])\<rparr>)"
    by (rule regionBranch_converged) (simp_all add: regionBranchFixpoint_def)
  from c7[where env = "regionBranch True" and s = "regionBranchFixpoint\<lparr>dependents := (\<lambda>_. [])\<rparr>"
          and points = "[PointOperation 2, PointOperation 6]" and s' = regionBranchFixpoint]
    c3 regionBranch_rerun
  have stay: "latticeValue regionBranchFixpoint
                = latticeValue (regionBranchFixpoint\<lparr>dependents := (\<lambda>_. [])\<rparr>)"
    "worklist regionBranchFixpoint = worklist (regionBranchFixpoint\<lparr>dependents := (\<lambda>_. [])\<rparr>)"
    by blast+
  from j h regionBranch_run regionBranch_run' c1 c2 same regionBranch_visit_2 quiet w c3
    regionBranch_rerun stay
  show ?thesis by (intro conjI)
qed

text \<open>
  The claim as stated assumes a contract for the join only.  The join of the lattice of
  constants meets it, but with a hook for the remaining lattices that resets them, the
  state reached by visiting operation 6 and operation 2 is one in which the queue is
  empty and no visit changes a lattice value, and yet the visit of operation 2 reports
  a change there: the hook resets the second result and the join restores it.
\<close>

lemma partialRegionBranch_visit_2:
  "forward_visit partialRegionBranch (PointOperation 2) =
     Inr (success, [GetOrCreateFor (PointOperation 2) (PointOperation 2),
       VisitNonControlFlowArgumentsImpl 2 \<lparr>getSuccessor = None, getSuccessorInputs = [OpResult 2 1]\<rparr>
         [OpResult 2 0, OpResult 2 1] 1,
       AddDependency (OpResult 6 0) (PointOperation 2), Join (OpResult 2 1) (OpResult 6 0)])"
  by code_simp

lemma partialRegionBranch_visit_6:
  "forward_visit partialRegionBranch (PointOperation 6) =
     Inr (success, [Forward_visitOperationImpl 6 [] [OpResult 6 0]])"
  by code_simp

lemma partialRegionBranch_converged: "converged resettingAnalysis partialRegionBranch regionFixpoint"
  unfolding converged_def
proof (intro allI impI)
  fix point r effects
  assume visit: "forward_visit partialRegionBranch point = Inr (r, effects)"
  show "latticeValue (run resettingAnalysis partialRegionBranch effects regionFixpoint)
          = latticeValue regionFixpoint"
  proof (cases point)
    case (PointOperation op)
    consider "op = 2" | "op = 6" | "op \<noteq> 2" "op \<noteq> 6" by blast
    then show ?thesis
    proof cases
      case 1
      with PointOperation visit partialRegionBranch_visit_2
      have "effects = [GetOrCreateFor (PointOperation 2) (PointOperation 2),
       VisitNonControlFlowArgumentsImpl 2 \<lparr>getSuccessor = None, getSuccessorInputs = [OpResult 2 1]\<rparr>
         [OpResult 2 0, OpResult 2 1] 1,
       AddDependency (OpResult 6 0) (PointOperation 2), Join (OpResult 2 1) (OpResult 6 0)]"
        by simp
      then show ?thesis
        by (simp add: resettingAnalysis_def constantAnalysis_def regionFixpoint_def fun_eq_iff)
    next
      case 2
      with PointOperation visit partialRegionBranch_visit_6
      have "effects = [Forward_visitOperationImpl 6 [] [OpResult 6 0]]" by simp
      then show ?thesis
        by (simp add: resettingAnalysis_def constantAnalysis_def regionFixpoint_def fun_eq_iff)
    next
      case 3
      with PointOperation visit have "effects = []"
        by (auto simp: forward_visit_def bindE_def forward_visitOperation_def partialRegionBranch_def
              emptyEnv_def)
      then show ?thesis by simp
    qed
  next
    case (PointBlock block)
    with visit have "effects = []"
      by (auto simp: forward_visit_def bindE_def forward_visitBlock_def partialRegionBranch_def
            emptyEnv_def)
    then show ?thesis by simp
  next
    case (PointValue x)
    with visit have "effects = []" by (auto simp: forward_visit_def)
    then show ?thesis by simp
  next
    case (PointCFGEdge a b)
    with visit have "effects = []" by (auto simp: forward_visit_def)
    then show ?thesis by simp
  qed
qed

theorem C7_counterexample:
  "joinContract constantLe (latticeJoin resettingAnalysis)
   \<and> forward_visits resettingAnalysis partialRegionBranch [PointOperation 6, PointOperation 2]
        initialState = Some regionFixpoint
   \<and> worklist regionFixpoint = []
   \<and> converged resettingAnalysis partialRegionBranch regionFixpoint
   \<and> forward_visit partialRegionBranch (PointOperation 2) =
        Inr (success, [GetOrCreateFor (PointOperation 2) (PointOperation 2),
          VisitNonControlFlowArgumentsImpl 2 \<lparr>getSuccessor = None, getSuccessorInputs = [OpResult 2 1]\<rparr>
            [OpResult 2 0, OpResult 2 1] 1,
          AddDependency (OpResult 6 0) (PointOperation 2), Join (OpResult 2 1) (OpResult 6 0)])
   \<and> visitReportsChange resettingAnalysis partialRegionBranch
        [GetOrCreateFor (PointOperation 2) (PointOperation 2),
         VisitNonControlFlowArgumentsImpl 2 \<lparr>getSuccessor = None, getSuccessorInputs = [OpResult 2 1]\<rparr>
           [OpResult 2 0, OpResult 2 1] 1,
         AddDependency (OpResult 6 0) (PointOperation 2), Join (OpResult 2 1) (OpResult 6 0)]
        regionFixpoint"
proof -
  have j: "joinContract constantLe (latticeJoin resettingAnalysis)"
    using constantJoin_contract by (simp add: resettingAnalysis_def constantAnalysis_def)
  have run: "forward_visits resettingAnalysis partialRegionBranch [PointOperation 6, PointOperation 2]
        initialState = Some regionFixpoint"
    by (simp add: partialRegionBranch_visit_2 partialRegionBranch_visit_6 updateAndPropagate_def
          update_def propagateIfChanged_def onUpdate_def AnalysisState_onUpdate_def
          resettingAnalysis_def constantAnalysis_def initialState_def regionFixpoint_def)
       (simp add: partialRegionBranch_def emptyEnv_def)
  have w: "worklist regionFixpoint = []" by (simp add: regionFixpoint_def)
  have change: "visitReportsChange resettingAnalysis partialRegionBranch
        [GetOrCreateFor (PointOperation 2) (PointOperation 2),
         VisitNonControlFlowArgumentsImpl 2 \<lparr>getSuccessor = None, getSuccessorInputs = [OpResult 2 1]\<rparr>
           [OpResult 2 0, OpResult 2 1] 1,
         AddDependency (OpResult 6 0) (PointOperation 2), Join (OpResult 2 1) (OpResult 6 0)]
        regionFixpoint"
    by (simp add: regionFixpoint_def resettingAnalysis_def constantAnalysis_def update_def)
  from j run w partialRegionBranch_converged partialRegionBranch_visit_2 change
  show ?thesis by (intro conjI)
qed

end
